(* ===== verification/Prelude.thy ===== *)
theory Prelude
  imports Main "HOL-Library.AList" "HOL-Library.Multiset" "HOL-Library.Word"
begin

text \<open>
  Shared ground of the development: the collections of rewrite rules, the outcome type of Go
  code that may panic, Go maps as association lists, the order in which a Go \<open>range\<close>
  visits a map, and generic lemmas about lists and maps.
\<close>

section \<open>Collections\<close>

named_theorems frame_simps \<open>what an operation leaves unchanged\<close>
named_theorems step_defs \<open>definitions of operations, unfolded together in step proofs\<close>

section \<open>Outcomes\<close>

text \<open>
  A Go call either returns or panics. A nil dereference, a nil interface call and an index out
  of range are \<open>Panic\<close>; the effects the call had before it panicked are in the state it
  carries.
\<close>

datatype ('w, 'a) outcome = Ret 'a | Panic 'w

fun bind_outcome :: "('w, 'a) outcome \<Rightarrow> ('a \<Rightarrow> ('w, 'b) outcome) \<Rightarrow> ('w, 'b) outcome" where
  "bind_outcome (Ret a) f = f a"
| "bind_outcome (Panic w) f = Panic w"

fun returns :: "('w, 'a) outcome \<Rightarrow> bool" where
  "returns (Ret a) = True"
| "returns (Panic w) = False"

lemma bind_outcome_Ret_iff:
  "bind_outcome m f = Ret b \<longleftrightarrow> (\<exists>a. m = Ret a \<and> f a = Ret b)"
  by (cases m) auto

lemma returns_iff: "returns m \<longleftrightarrow> (\<exists>a. m = Ret a)"
  by (cases m) auto

lemma bind_outcome_Panic_iff:
  "bind_outcome m f = Panic w \<longleftrightarrow> m = Panic w \<or> (\<exists>a. m = Ret a \<and> f a = Panic w)"
  by (cases m) auto

lemma bind_outcome_assoc: "bind_outcome (bind_outcome m f) g = bind_outcome m (\<lambda>a. bind_outcome (f a) g)"
  by (cases m) auto

lemma returns_bind: "returns (bind_outcome m f) \<longleftrightarrow> (\<exists>a. m = Ret a \<and> returns (f a))"
  by (cases m) auto

lemma bind_outcome_cong [fundef_cong]:
  "m = m' \<Longrightarrow> (\<And>a. m' = Ret a \<Longrightarrow> f a = f' a) \<Longrightarrow> bind_outcome m f = bind_outcome m' f'"
  by (cases m') auto

section \<open>Go maps\<close>

text \<open>
  A Go map is an association list with distinct keys. \<open>AList.update\<close> stores, \<open>AList.delete\<close>
  removes, \<open>map_of\<close> looks up. The position of an entry carries no meaning: every
  \<open>range\<close> over a map goes through a reordering function, and the theorems hold for
  every reordering that permutes its argument.
\<close>

type_synonym ('k, 'v) gomap = "('k \<times> 'v) list"

definition gomap_wf :: "('k, 'v) gomap \<Rightarrow> bool" where
  "gomap_wf m \<longleftrightarrow> distinct (map fst m)"

definition range_ok :: "('a list \<Rightarrow> 'a list) \<Rightarrow> bool" where
  "range_ok ord \<longleftrightarrow> (\<forall>xs. mset (ord xs) = mset xs)"

lemma range_ok_id [simp, intro]: "range_ok (\<lambda>xs. xs)"
  by (simp add: range_ok_def)

lemma range_ok_rev [simp, intro]: "range_ok rev"
  by (simp add: range_ok_def)

lemma range_ok_mset: "range_ok ord \<Longrightarrow> mset (ord xs) = mset xs"
  by (simp add: range_ok_def)

lemma range_ok_set: "range_ok ord \<Longrightarrow> set (ord xs) = set xs"
  by (metis range_ok_mset set_mset_mset)

lemma range_ok_length: "range_ok ord \<Longrightarrow> length (ord xs) = length xs"
  by (metis range_ok_mset size_mset)

lemma range_ok_distinct: "range_ok ord \<Longrightarrow> distinct (ord xs) = distinct xs"
  by (metis range_ok_mset mset_eq_imp_distinct_iff)

lemma range_ok_Nil: "range_ok ord \<Longrightarrow> ord xs = [] \<longleftrightarrow> xs = []"
  by (metis range_ok_length length_0_conv)

lemma range_ok_map_distinct:
  "range_ok ord \<Longrightarrow> distinct (map f (ord xs)) = distinct (map f xs)"
  by (metis mset_map mset_eq_imp_distinct_iff range_ok_mset)

lemma range_ok_map_set: "range_ok ord \<Longrightarrow> set (map f (ord xs)) = f ` set xs"
  by (simp add: range_ok_set)

lemma gomap_wf_Nil [simp]: "gomap_wf []"
  by (simp add: gomap_wf_def)

lemma gomap_wf_update [simp, intro]: "gomap_wf m \<Longrightarrow> gomap_wf (AList.update k v m)"
  by (simp add: gomap_wf_def distinct_update)

lemma gomap_wf_delete [simp, intro]: "gomap_wf m \<Longrightarrow> gomap_wf (AList.delete k m)"
  by (simp add: gomap_wf_def distinct_delete)

lemma gomap_mem_iff: "gomap_wf m \<Longrightarrow> (k, v) \<in> set m \<longleftrightarrow> map_of m k = Some v"
  by (simp add: gomap_wf_def)

lemma gomap_update_ne [simp]: "AList.update k v m \<noteq> []"
  by (induction m) auto

lemma map_of_update_iff: "map_of (AList.update k v m) k' = (if k' = k then Some v else map_of m k')"
  by (simp add: update_conv')

lemma map_of_delete_iff: "map_of (AList.delete k m) k' = (if k' = k then None else map_of m k')"
  by (simp add: delete_conv')

text \<open>Storing a list of entries, the last entry of a key winning.\<close>

definition put_all :: "('v \<Rightarrow> 'k) \<Rightarrow> 'v list \<Rightarrow> ('k, 'v) gomap \<Rightarrow> ('k, 'v) gomap" where
  "put_all key xs m = fold (\<lambda>x. AList.update (key x) x) xs m"

lemma put_all_simps [simp]:
  "put_all key [] m = m"
  "put_all key (x # xs) m = put_all key xs (AList.update (key x) x m)"
  by (simp_all add: put_all_def)

lemma gomap_wf_put_all: "gomap_wf m \<Longrightarrow> gomap_wf (put_all key xs m)"
  by (induction xs arbitrary: m) auto

lemma map_of_put_all:
  "map_of (put_all key xs m) k =
     (case filter (\<lambda>x. key x = k) xs of [] \<Rightarrow> map_of m k | ys \<Rightarrow> Some (last ys))"
proof (induction xs arbitrary: m)
  case Nil
  then show ?case by simp
next
  case (Cons x xs)
  then show ?case
    by (auto simp: map_of_update_iff split: list.splits)
qed

lemma map_of_put_all_Some:
  "map_of (put_all key xs []) k = Some x \<Longrightarrow> key x = k \<and> x \<in> set xs"
proof -
  assume a: "map_of (put_all key xs []) k = Some x"
  let ?ys = "filter (\<lambda>x. key x = k) xs"
  from a have "?ys \<noteq> []" and "x = last ?ys"
    by (auto simp: map_of_put_all split: list.splits)
  then have "x \<in> set ?ys" using last_in_set by metis
  then show ?thesis by simp
qed

lemma put_all_snd:
  assumes "(k, x) \<in> set (put_all key xs [])"
  shows "key x = k \<and> x \<in> set xs"
proof -
  have "gomap_wf (put_all key xs [])" by (simp add: gomap_wf_put_all)
  with assms have "map_of (put_all key xs []) k = Some x" by (simp add: gomap_mem_iff)
  then show ?thesis by (rule map_of_put_all_Some)
qed

section \<open>Lists\<close>

lemma last_filter_split:
  "filter P xs \<noteq> [] \<and> last (filter P xs) = x \<longleftrightarrow>
   (\<exists>pre post. xs = pre @ x # post \<and> P x \<and> (\<forall>y \<in> set post. \<not> P y))"
proof (induction xs rule: rev_induct)
  case Nil
  then show ?case by simp
next
  case (snoc z zs)
  show ?case
  proof (cases "P z")
    case True
    have "(\<exists>pre post. zs @ [z] = pre @ x # post \<and> P x \<and> (\<forall>y \<in> set post. \<not> P y)) \<longleftrightarrow> x = z"
    proof
      assume "\<exists>pre post. zs @ [z] = pre @ x # post \<and> P x \<and> (\<forall>y \<in> set post. \<not> P y)"
      then obtain pre post where e: "zs @ [z] = pre @ x # post" and n: "\<forall>y \<in> set post. \<not> P y" by blast
      show "x = z" using e n True by (cases post rule: rev_cases) auto
    next
      assume "x = z"
      then have "zs @ [z] = zs @ x # [] \<and> P x \<and> (\<forall>y \<in> set []. \<not> P y)" using True by simp
      then show "\<exists>pre post. zs @ [z] = pre @ x # post \<and> P x \<and> (\<forall>y \<in> set post. \<not> P y)" by blast
    qed
    with True show ?thesis by auto
  next
    case False
    have "(\<exists>pre post. zs @ [z] = pre @ x # post \<and> P x \<and> (\<forall>y \<in> set post. \<not> P y)) \<longleftrightarrow>
        (\<exists>pre post. zs = pre @ x # post \<and> P x \<and> (\<forall>y \<in> set post. \<not> P y))"
    proof
      assume "\<exists>pre post. zs @ [z] = pre @ x # post \<and> P x \<and> (\<forall>y \<in> set post. \<not> P y)"
      then obtain pre post where e: "zs @ [z] = pre @ x # post" and "P x"
        and n: "\<forall>y \<in> set post. \<not> P y" by blast
      then show "\<exists>pre post. zs = pre @ x # post \<and> P x \<and> (\<forall>y \<in> set post. \<not> P y)"
        using False by (cases post rule: rev_cases) auto
    next
      assume "\<exists>pre post. zs = pre @ x # post \<and> P x \<and> (\<forall>y \<in> set post. \<not> P y)"
      then obtain pre post where "zs = pre @ x # post" "P x" "\<forall>y \<in> set post. \<not> P y" by blast
      then have "zs @ [z] = pre @ x # (post @ [z]) \<and> P x \<and> (\<forall>y \<in> set (post @ [z]). \<not> P y)"
        using False by simp
      then show "\<exists>pre post. zs @ [z] = pre @ x # post \<and> P x \<and> (\<forall>y \<in> set post. \<not> P y)" by blast
    qed
    with False snoc.IH show ?thesis by simp
  qed
qed

lemma case_last_Some:
  "(case ys of [] \<Rightarrow> None | a # list \<Rightarrow> Some (last (a # list))) = Some x \<longleftrightarrow> ys \<noteq> [] \<and> last ys = x"
  by (cases ys) simp_all

text \<open>Functions of the world that leave an observation of it alone.\<close>

definition keeps :: "('w \<Rightarrow> 'r) \<Rightarrow> ('w \<Rightarrow> 'a \<times> 'w) \<Rightarrow> bool" where
  "keeps obs f \<longleftrightarrow> (\<forall>w. obs (snd (f w)) = obs w)"

lemma keepsD: "keeps obs f \<Longrightarrow> f w = (r, w') \<Longrightarrow> obs w' = obs w"
  unfolding keeps_def by (metis snd_conv)

lemma find_Some_mem: "List.find P xs = Some x \<Longrightarrow> x \<in> set xs \<and> P x"
  by (auto simp: find_Some_iff)

lemma concat_map_split_append:
  "concat (map f (xs @ ys)) = concat (map f xs) @ concat (map f ys)"
  by simp

end
