(* ===== verification/Go_Base.thy ===== *)
theory Go_Base
  imports Prelude
begin

text \<open>
  The parts of the Go language and standard library the agent uses: error values with
  wrapping, 64-bit signed integers and \<open>time.Duration\<close>, the functions of package
  \<open>strings\<close>, the decimal parser of \<open>strconv\<close> and the standard base64 encoding.
\<close>

section \<open>Errors\<close>

text \<open>
  An error value is an API status (the Kubernetes client's errors carry a reason), a text, or
  a text wrapped around another error as \<open>fmt.Errorf\<close> with \<open>%w\<close> does.
\<close>

datatype go_error = StatusError string string | ErrText string | ErrWrap string go_error

fun Error :: "go_error \<Rightarrow> string" where
  "Error (StatusError reason msg) = msg"
| "Error (ErrText s) = s"
| "Error (ErrWrap s e) = s @ Error e"

text \<open>The reason of the first API status in the chain of wrapped errors.\<close>

fun ReasonForError :: "go_error \<Rightarrow> string" where
  "ReasonForError (StatusError reason msg) = reason"
| "ReasonForError (ErrText s) = ''''"
| "ReasonForError (ErrWrap s e) = ReasonForError e"

definition IsNotFound :: "go_error \<Rightarrow> bool" where
  "IsNotFound e \<longleftrightarrow> ReasonForError e = ''NotFound''"

section \<open>Signed 64-bit integers and durations\<close>

type_synonym int64 = "64 word"
type_synonym int32 = "32 word"
type_synonym duration = int64

abbreviation Nanosecond :: duration where "Nanosecond \<equiv> 1"
abbreviation Second :: duration where "Second \<equiv> 1000000000"

lemma sint_64_of_int:
  fixes i :: int
  assumes "- (2 ^ 63) \<le> i" and "i < 2 ^ 63"
  shows "sint (word_of_int i :: int64) = i"
proof -
  have "sint (word_of_int i :: int64) = signed_take_bit 63 i"
    by (simp only: sint_sbintrunc') simp
  also have "\<dots> = i"
    using assms by (intro signed_take_bit_int_eq_self) simp_all
  finally show ?thesis .
qed

lemma sint_64_bounds: "- (2 ^ 63) \<le> sint (x :: int64)" "sint (x :: int64) < 2 ^ 63"
  using sint_greater_eq [of x] sint_less [of x] by simp_all

lemma sint_32_bounds: "- (2 ^ 31) \<le> sint (x :: int32)" "sint (x :: int32) < 2 ^ 31"
  using sint_greater_eq [of x] sint_less [of x] by simp_all

section \<open>Strings\<close>

definition HasPrefix :: "string \<Rightarrow> string \<Rightarrow> bool" where
  "HasPrefix s p \<longleftrightarrow> take (length p) s = p"

definition HasSuffix :: "string \<Rightarrow> string \<Rightarrow> bool" where
  "HasSuffix s p \<longleftrightarrow> HasPrefix (rev s) (rev p)"

fun Contains :: "string \<Rightarrow> string \<Rightarrow> bool" where
  "Contains [] p = (p = [])"
| "Contains (c # s) p = (HasPrefix (c # s) p \<or> Contains s p)"

text \<open>\<open>strings.Split\<close> by a one-character separator.\<close>

fun Split :: "string \<Rightarrow> char \<Rightarrow> string list" where
  "Split [] c = [[]]"
| "Split (x # xs) c =
     (if x = c then [] # Split xs c
      else (case Split xs c of [] \<Rightarrow> [[x]] | y # ys \<Rightarrow> (x # y) # ys))"

definition TrimRight :: "string \<Rightarrow> char \<Rightarrow> string" where
  "TrimRight s c = rev (dropWhile (\<lambda>x. x = c) (rev s))"

text \<open>
  \<open>strings.TrimSpace\<close> on ASCII text: space, tab, newline, vertical tab, form feed and
  carriage return are trimmed on both sides.
\<close>

definition is_space :: "char \<Rightarrow> bool" where
  "is_space c \<longleftrightarrow> c = CHR '' '' \<or> (9 \<le> (of_char c :: nat) \<and> (of_char c :: nat) \<le> 13)"

definition TrimSpace :: "string \<Rightarrow> string" where
  "TrimSpace s = rev (dropWhile is_space (rev (dropWhile is_space s)))"

text \<open>\<open>strings.ReplaceAll(s, "//", "/")\<close>: left to right, without rescanning.\<close>

fun ReplaceDoubleSlash :: "string \<Rightarrow> string" where
  "ReplaceDoubleSlash (x # y # s) =
     (if x = CHR ''/'' \<and> y = CHR ''/'' then CHR ''/'' # ReplaceDoubleSlash s
      else x # ReplaceDoubleSlash (y # s))"
| "ReplaceDoubleSlash s = s"

definition to_lower :: "char \<Rightarrow> char" where
  "to_lower c =
     (let n = (of_char c :: nat) in if 65 \<le> n \<and> n \<le> 90 then char_of (n + 32) else c)"

definition ToLower :: "string \<Rightarrow> string" where
  "ToLower s = map to_lower s"

lemma HasPrefix_iff: "HasPrefix s p \<longleftrightarrow> (\<exists>t. s = p @ t)"
  unfolding HasPrefix_def by (metis append_eq_conv_conj append_take_drop_id)

lemma HasSuffix_iff: "HasSuffix s p \<longleftrightarrow> (\<exists>t. s = t @ p)"
  unfolding HasSuffix_def HasPrefix_iff
  by (metis rev_append rev_rev_ident)

lemma Split_ne [simp]: "Split s c \<noteq> []"
  by (cases s) (auto split: list.splits)

lemma Split_hd_takeWhile: "hd (Split s c) = takeWhile (\<lambda>x. x \<noteq> c) s"
  by (induction s) (auto split: list.splits)

lemma Split_no_sep: "x \<in> set (Split s c) \<Longrightarrow> c \<notin> set x"
proof (induction s arbitrary: x)
  case Nil
  then show ?case by simp
next
  case (Cons a s)
  then show ?case
    by (cases "Split s c") (auto split: if_splits)
qed

lemma TrimSpace_no_space: "(\<forall>c \<in> set s. \<not> is_space c) \<Longrightarrow> TrimSpace s = s"
proof -
  assume a: "\<forall>c \<in> set s. \<not> is_space c"
  have drop: "\<forall>c \<in> set xs. \<not> is_space c \<Longrightarrow> dropWhile is_space xs = xs" for xs
    by (cases xs) simp_all
  from a drop [of s] drop [of "rev s"] show ?thesis by (simp add: TrimSpace_def)
qed

section \<open>Decimal numbers\<close>

definition is_digit :: "char \<Rightarrow> bool" where
  "is_digit c \<longleftrightarrow> 48 \<le> (of_char c :: nat) \<and> (of_char c :: nat) \<le> 57"

definition dec_value :: "string \<Rightarrow> nat" where
  "dec_value s = foldl (\<lambda>n c. 10 * n + ((of_char c :: nat) - 48)) 0 s"

text \<open>
  \<open>strconv.ParseUint(s, 10, 16)\<close>: a syntax error on an empty string or a non-digit, a range
  error above 65535.
\<close>

definition ParseUint16 :: "string \<Rightarrow> go_error + 16 word" where
  "ParseUint16 s =
     (if s = [] \<or> (\<exists>c \<in> set s. \<not> is_digit c)
      then Inl (ErrText (''strconv.ParseUint: parsing '' @ s @ '': invalid syntax''))
      else if 65535 < dec_value s
      then Inl (ErrText (''strconv.ParseUint: parsing '' @ s @ '': value out of range''))
      else Inr (of_nat (dec_value s)))"

lemma ParseUint16_value:
  assumes "ParseUint16 s = Inr w"
  shows "unat w = dec_value s \<and> dec_value s \<le> 65535"
proof -
  from assms have w: "w = of_nat (dec_value s)" and le: "dec_value s \<le> 65535"
    by (auto simp: ParseUint16_def split: if_splits)
  from le have "dec_value s < 2 ^ LENGTH(16)" by simp
  then have "unat (of_nat (dec_value s) :: 16 word) = dec_value s"
    by (simp add: unat_of_nat take_bit_nat_eq_self_iff)
  with w le show ?thesis by simp
qed

text \<open>Decimal text, as \<open>%d\<close> writes it.\<close>

fun dec_nat :: "nat \<Rightarrow> string" where
  "dec_nat n = (if n < 10 then [''0123456789'' ! n] else dec_nat (n div 10) @ [''0123456789'' ! (n mod 10)])"

declare dec_nat.simps [simp del]

definition dec_int :: "int \<Rightarrow> string" where
  "dec_int i = (if i < 0 then ''-'' @ dec_nat (nat (- i)) else dec_nat (nat i))"

section \<open>Base64\<close>

text \<open>
  \<open>base64.StdEncoding.EncodeToString\<close> (RFC 4648, padded): three bytes become four characters
  of six bits each.
\<close>

type_synonym byte = "8 word"

definition enc6 :: "nat \<Rightarrow> char" where
  "enc6 n = char_of (if n < 26 then 65 + n else if n < 52 then 71 + n
                     else if n < 62 then n - 4 else if n = 62 then 43 else (47 :: nat))"

fun b64_nats :: "nat list \<Rightarrow> string" where
  "b64_nats [] = []"
| "b64_nats [a] = [enc6 (a div 4), enc6 (a mod 4 * 16), CHR ''='', CHR ''='']"
| "b64_nats [a, b] =
     [enc6 (a div 4), enc6 (a mod 4 * 16 + b div 16), enc6 (b mod 16 * 4), CHR ''='']"
| "b64_nats (a # b # c # s) =
     enc6 (a div 4) # enc6 (a mod 4 * 16 + b div 16) # enc6 (b mod 16 * 4 + c div 64)
       # enc6 (c mod 64) # b64_nats s"

definition EncodeToString :: "byte list \<Rightarrow> string" where
  "EncodeToString bs = b64_nats (map unat bs)"

text \<open>The decoder of RFC 4648, which reads the encoding back.\<close>

definition dec6 :: "char \<Rightarrow> nat" where
  "dec6 ch = (let n = (of_char ch :: nat) in
     if 65 \<le> n \<and> n < 91 then n - 65 else if 97 \<le> n \<and> n < 123 then n - 71
     else if 48 \<le> n \<and> n < 58 then n + 4 else if n = 43 then 62 else 63)"

fun b64_decode :: "string \<Rightarrow> nat list" where
  "b64_decode (p # q # r # s # t) =
     (if r = CHR ''='' then [dec6 p * 4 + dec6 q div 16]
      else if s = CHR ''='' then [dec6 p * 4 + dec6 q div 16, dec6 q mod 16 * 16 + dec6 r div 4]
      else [dec6 p * 4 + dec6 q div 16, dec6 q mod 16 * 16 + dec6 r div 4,
            dec6 r mod 4 * 64 + dec6 s] @ b64_decode t)"
| "b64_decode s = []"

definition DecodeString :: "string \<Rightarrow> byte list" where
  "DecodeString s = map of_nat (b64_decode s)"

lemma of_char_enc6:
  assumes "n < 64"
  shows "(of_char (enc6 n) :: nat) = (if n < 26 then 65 + n else if n < 52 then 71 + n
     else if n < 62 then n - 4 else if n = 62 then 43 else 47)" (is "_ = ?m")
proof -
  have "(of_char (enc6 n) :: nat) = ?m mod 256"
    unfolding enc6_def by (rule of_char_of)
  also have "\<dots> = ?m" using assms by (intro mod_less) (simp, arith)
  finally show ?thesis .
qed

lemma dec6_enc6 [simp]: "n < 64 \<Longrightarrow> dec6 (enc6 n) = n"
  unfolding dec6_def Let_def by (simp only: of_char_enc6) (simp split: if_split, arith)

lemma enc6_not_pad [simp]: "n < 64 \<Longrightarrow> enc6 n \<noteq> CHR ''=''"
proof
  assume n: "n < 64" and "enc6 n = CHR ''=''"
  then have "(of_char (enc6 n) :: nat) = 61" by simp
  with n show False by (simp only: of_char_enc6) (simp split: if_splits)
qed

lemma b64_digits:
  fixes k m :: nat
  shows "k < 16 \<Longrightarrow> (m * 16 + k) div 16 = m" "k < 16 \<Longrightarrow> (m * 16 + k) mod 16 = k"
    "k < 4 \<Longrightarrow> (m * 4 + k) div 4 = m" "k < 4 \<Longrightarrow> (m * 4 + k) mod 4 = k"
  by presburger+

lemma b64_decode_encode: "\<forall>x \<in> set xs. x < 256 \<Longrightarrow> b64_decode (b64_nats xs) = xs"
proof (induction xs rule: b64_nats.induct)
  case 1
  show ?case by simp
next
  case (2 a)
  then have "a div 4 < 64" "a mod 4 * 16 < 64" by auto
  then show ?case by (simp add: mult.commute)
next
  case (3 a b)
  then have "a div 4 < 64" "a mod 4 * 16 + b div 16 < 64" "b mod 16 * 4 < 64" by auto
  moreover have "b div 16 < 16" using 3 by auto
  ultimately show ?case by (simp add: b64_digits)
next
  case (4 a b c s)
  then have "a div 4 < 64" "a mod 4 * 16 + b div 16 < 64" "b mod 16 * 4 + c div 64 < 64"
    "c mod 64 < 64" by auto
  moreover have "b div 16 < 16" "c div 64 < 4" using 4 by auto
  moreover have "b64_decode (b64_nats s) = s" using 4 by simp
  ultimately show ?case by (simp add: b64_digits)
qed

lemma DecodeString_EncodeToString: "DecodeString (EncodeToString bs) = bs"
proof -
  have "\<forall>x \<in> set (map unat bs). x < 256"
    using unsigned_less [where 'b = 8 and 'a = nat] by auto
  then have "b64_decode (b64_nats (map unat bs)) = map unat bs"
    by (rule b64_decode_encode)
  then show ?thesis
    by (simp add: DecodeString_def EncodeToString_def o_def)
qed

lemma EncodeToString_inj: "EncodeToString a = EncodeToString b \<longleftrightarrow> a = b"
  by (metis DecodeString_EncodeToString)

end
