(* ===== verification/Api_Messages.thy ===== *)
theory Api_Messages
  imports Go_Base
begin

text \<open>
  The messages exchanged with the Director (\<open>api/agent/director.proto\<close> and the Go types
  generated from it). A pointer field is an \<open>option\<close>; the bookkeeping fields of the protobuf
  runtime (\<open>state\<close>, \<open>sizeCache\<close>, \<open>unknownFields\<close>) and the deprecated list
  of services, which the agent never sets, are left out.
\<close>

section \<open>Reports\<close>

record Identity =
  idt_AccountId :: string
  idt_Version :: string
  idt_Hostname :: string
  idt_License :: string
  idt_ClusterId :: string
  idt_Label :: string

record Snapshot_report =
  sr_Identity :: "Identity option"
  sr_Message :: string
  sr_RawSnapshot :: "byte list"
  sr_ContentType :: string
  sr_ApiVersion :: string
  sr_SnapshotTs :: int

record Diagnostics_report =
  dr_Identity :: "Identity option"
  dr_Message :: string
  dr_RawDiagnostics :: "byte list"
  dr_ContentType :: string
  dr_ApiVersion :: string
  dr_SnapshotTs :: int

section \<open>Directives\<close>

text \<open>
  Enumeration fields are open in proto3: any 32-bit number may arrive. The generated name maps
  give the empty string for a number they do not hold.
\<close>

definition RolloutCommand_Action_name :: "(int32, string) gomap" where
  "RolloutCommand_Action_name = [(0, ''PAUSE''), (1, ''RESUME''), (2, ''ABORT'')]"

definition SecretSyncCommand_Action_name :: "(int32, string) gomap" where
  "SecretSyncCommand_Action_name = [(0, ''SET''), (1, ''DELETE'')]"

definition name_of :: "(int32, string) gomap \<Rightarrow> int32 \<Rightarrow> string" where
  "name_of m a = (case map_of m a of None \<Rightarrow> '''' | Some s \<Rightarrow> s)"

record RolloutCommand =
  rc_Name :: string
  rc_Namespace :: string
  rc_Action :: int32
  rc_CommandId :: string

record SecretSyncCommand =
  ss_Name :: string
  ss_Namespace :: string
  ss_CommandId :: string
  ss_Action :: int32
  ss_Secret :: "(string, byte list) gomap"

record Command =
  cmd_Message :: string
  cmd_RolloutCommand :: "RolloutCommand option"
  cmd_SecretSyncCommand :: "SecretSyncCommand option"

text \<open>The well-known type \<open>durationpb.Duration\<close>: whole seconds and nanoseconds.\<close>

record Duration_msg =
  pd_Seconds :: int64
  pd_Nanos :: int32

record Directive =
  dir_ID :: string
  dir_StopReporting :: bool
  dir_MinReportPeriod :: "Duration_msg option"
  dir_Commands :: "Command option list"

record CommandResult =
  cr_CommandId :: string
  cr_Success :: bool
  cr_Message :: string

text \<open>Generated getters, which accept a nil receiver.\<close>

fun RolloutCommand_GetName :: "RolloutCommand option \<Rightarrow> string" where
  "RolloutCommand_GetName (Some x) = rc_Name x"
| "RolloutCommand_GetName None = ''''"

fun RolloutCommand_GetNamespace :: "RolloutCommand option \<Rightarrow> string" where
  "RolloutCommand_GetNamespace (Some x) = rc_Namespace x"
| "RolloutCommand_GetNamespace None = ''''"

fun RolloutCommand_GetAction :: "RolloutCommand option \<Rightarrow> int32" where
  "RolloutCommand_GetAction (Some x) = rc_Action x"
| "RolloutCommand_GetAction None = 0"

fun RolloutCommand_GetCommandId :: "RolloutCommand option \<Rightarrow> string" where
  "RolloutCommand_GetCommandId (Some x) = rc_CommandId x"
| "RolloutCommand_GetCommandId None = ''''"

fun SecretSyncCommand_GetName :: "SecretSyncCommand option \<Rightarrow> string" where
  "SecretSyncCommand_GetName (Some x) = ss_Name x"
| "SecretSyncCommand_GetName None = ''''"

fun SecretSyncCommand_GetNamespace :: "SecretSyncCommand option \<Rightarrow> string" where
  "SecretSyncCommand_GetNamespace (Some x) = ss_Namespace x"
| "SecretSyncCommand_GetNamespace None = ''''"

fun SecretSyncCommand_GetCommandId :: "SecretSyncCommand option \<Rightarrow> string" where
  "SecretSyncCommand_GetCommandId (Some x) = ss_CommandId x"
| "SecretSyncCommand_GetCommandId None = ''''"

fun SecretSyncCommand_GetAction :: "SecretSyncCommand option \<Rightarrow> int32" where
  "SecretSyncCommand_GetAction (Some x) = ss_Action x"
| "SecretSyncCommand_GetAction None = 0"

fun SecretSyncCommand_GetSecret :: "SecretSyncCommand option \<Rightarrow> (string, byte list) gomap" where
  "SecretSyncCommand_GetSecret (Some x) = ss_Secret x"
| "SecretSyncCommand_GetSecret None = []"

lemma name_of_RolloutCommand:
  "name_of RolloutCommand_Action_name a \<in> {'''', ''PAUSE'', ''RESUME'', ''ABORT''}"
  by (simp add: name_of_def RolloutCommand_Action_name_def)

lemma name_of_SecretSyncCommand:
  "name_of SecretSyncCommand_Action_name a \<in> {'''', ''SET'', ''DELETE''}"
  by (simp add: name_of_def SecretSyncCommand_Action_name_def)

end
