(* ===== verification/Rollouts.thy ===== *)
theory Rollouts
  imports Api_Messages
begin

text \<open>
  Rollout commands (\<open>pkg/agent/rollouts.go\<close>): a command pauses, resumes or aborts an Argo
  rollout by merge patches. The Argo client is a parameter: a function of namespace, name,
  patch text and subresources that answers with an error or none and moves the world.
\<close>

section \<open>Commands and the client\<close>

type_synonym 'w rollout_patch =
  "string \<Rightarrow> string \<Rightarrow> string \<Rightarrow> string list \<Rightarrow> 'w \<Rightarrow> go_error option \<times> 'w"

type_synonym 'w rolloutsGetterFactory = "'w \<Rightarrow> (go_error + 'w rollout_patch) \<times> 'w"

record rolloutCommand =
  ro_namespace :: string
  ro_rolloutName :: string
  ro_action :: string

definition rolloutActionPause :: string where "rolloutActionPause = ''PAUSE''"
definition rolloutActionResume :: string where "rolloutActionResume = ''RESUME''"
definition rolloutActionAbort :: string where "rolloutActionAbort = ''ABORT''"

definition unpausePatch :: string where
  \<open>unpausePatch = ''{"spec":{"paused":false}}''\<close>
definition abortPatch :: string where
  \<open>abortPatch = ''{"status":{"abort":true}}''\<close>
definition retryPatch :: string where
  \<open>retryPatch = ''{"status":{"abort":false}}''\<close>
definition pausePatch :: string where
  \<open>pausePatch = ''{"spec":{"paused":true}}''\<close>

lemmas action_defs = rolloutActionPause_def rolloutActionResume_def rolloutActionAbort_def

section \<open>Applying a command\<close>

definition rolloutCommand_String :: "rolloutCommand \<Rightarrow> string" where
  "rolloutCommand_String r =
     ''<rollout='' @ ro_rolloutName r @ '' namespace='' @ ro_namespace r @
     '' action='' @ ro_action r @ ''>''"

definition applyPatch ::
  "rolloutCommand \<Rightarrow> 'w rollout_patch \<Rightarrow> string \<Rightarrow> 'w \<Rightarrow> go_error option \<times> 'w" where
  "applyPatch r client patch w = client (ro_namespace r) (ro_rolloutName r) patch [] w"

definition applyStatusPatch ::
  "rolloutCommand \<Rightarrow> 'w rollout_patch \<Rightarrow> string \<Rightarrow> 'w \<Rightarrow> go_error option \<times> 'w" where
  "applyStatusPatch r client patch w =
     (case client (ro_namespace r) (ro_rolloutName r) patch [''status''] w of
        (None, w1) \<Rightarrow> (None, w1)
      | (Some err, w1) \<Rightarrow>
          if IsNotFound err
          then client (ro_namespace r) (ro_rolloutName r) patch [] w1
          else (Some err, w1))"

definition unknown_action_error :: "rolloutCommand \<Rightarrow> go_error" where
  "unknown_action_error r =
     ErrText (''tried to perform unknown action '' @ [CHR 0x27] @ ro_action r @ [CHR 0x27] @
              '' on rollout '' @ ro_rolloutName r @ '' ('' @ ro_namespace r @ '')'')"

definition patchRollout ::
  "rolloutCommand \<Rightarrow> 'w rollout_patch \<Rightarrow> 'w \<Rightarrow> go_error option \<times> 'w" where
  "patchRollout r client w =
     (if ro_action r = rolloutActionResume then
        (case applyPatch r client unpausePatch w of
           (None, w1) \<Rightarrow> applyStatusPatch r client retryPatch w1
         | (Some err, w1) \<Rightarrow> (Some err, w1))
      else if ro_action r = rolloutActionAbort then applyStatusPatch r client abortPatch w
      else if ro_action r = rolloutActionPause then applyPatch r client pausePatch w
      else (Some (unknown_action_error r), w))"

definition rollout_RunWithClientFactory ::
  "rolloutCommand \<Rightarrow> 'w rolloutsGetterFactory \<Rightarrow> 'w \<Rightarrow> go_error option \<times> 'w" where
  "rollout_RunWithClientFactory r factory w =
     (case factory w of
        (Inl err, w1) \<Rightarrow> (Some err, w1)
      | (Inr client, w1) \<Rightarrow> patchRollout r client w1)"

lemmas rollout_defs [step_defs] =
  applyPatch_def applyStatusPatch_def patchRollout_def rollout_RunWithClientFactory_def

section \<open>The calls a command makes\<close>

text \<open>
  A client that records each call beside the world of the client it wraps: the patch text, the
  subresources and the answer.
\<close>

type_synonym rollout_call = "(string \<times> string) \<times> string \<times> string list \<times> go_error option"

definition recording :: "'w rollout_patch \<Rightarrow> ('w \<times> rollout_call list) rollout_patch" where
  "recording client ns name patch subs ws =
     (case client ns name patch subs (fst ws) of
        (err, w1) \<Rightarrow> (err, (w1, snd ws @ [((ns, name), patch, subs, err)])))"

text \<open>
  What the calls of a command should be, stated on the calls alone. A status patch is
  one call on the \<open>status\<close> subresource, and exactly when that answered "not found" a second
  call on the rollout itself; the outcome is the last answer.
\<close>

inductive status_calls ::
  "(string \<times> string) \<Rightarrow> string \<Rightarrow> rollout_call list \<Rightarrow> go_error option \<Rightarrow> bool" where
  status_done: "\<not> (\<exists>e. err = Some e \<and> IsNotFound e) \<Longrightarrow>
    status_calls k p [(k, p, [''status''], err)] err"
| status_base: "IsNotFound e \<Longrightarrow>
    status_calls k p [(k, p, [''status''], Some e), (k, p, [], err)] err"

inductive command_calls :: "rolloutCommand \<Rightarrow> rollout_call list \<Rightarrow> go_error option \<Rightarrow> bool" where
  resume_unpause_fails: "ro_action r = ''RESUME'' \<Longrightarrow>
    command_calls r [((ro_namespace r, ro_rolloutName r), unpausePatch, [], Some e)] (Some e)"
| resume_retry: "ro_action r = ''RESUME'' \<Longrightarrow>
    status_calls (ro_namespace r, ro_rolloutName r) retryPatch cs err \<Longrightarrow>
    command_calls r (((ro_namespace r, ro_rolloutName r), unpausePatch, [], None) # cs) err"
| abort: "ro_action r = ''ABORT'' \<Longrightarrow>
    status_calls (ro_namespace r, ro_rolloutName r) abortPatch cs err \<Longrightarrow>
    command_calls r cs err"
| pause: "ro_action r = ''PAUSE'' \<Longrightarrow>
    command_calls r [((ro_namespace r, ro_rolloutName r), pausePatch, [], err)] err"
| unknown: "ro_action r \<notin> {''RESUME'', ''ABORT'', ''PAUSE''} \<Longrightarrow>
    command_calls r [] (Some (unknown_action_error r))"

inductive_cases status_callsE: "status_calls k p cs err"
inductive_cases command_callsE: "command_calls r cs err"

lemma applyStatusPatch_calls:
  assumes "applyStatusPatch r (recording client) p (w, log) = (err, (w', log'))"
  shows "\<exists>cs. log' = log @ cs \<and> status_calls (ro_namespace r, ro_rolloutName r) p cs err"
proof (cases "client (ro_namespace r) (ro_rolloutName r) p [''status''] w")
  case (Pair e1 w1)
  show ?thesis
  proof (cases "\<exists>e. e1 = Some e \<and> IsNotFound e")
    case True
    then obtain e where e: "e1 = Some e" "IsNotFound e" by blast
    obtain e2 w2 where c2: "client (ro_namespace r) (ro_rolloutName r) p [] w1 = (e2, w2)"
      by fastforce
    with assms Pair e have "err = e2" and "log' = log @
        [((ro_namespace r, ro_rolloutName r), p, [''status''], Some e),
         ((ro_namespace r, ro_rolloutName r), p, [], e2)]"
      by (auto simp: applyStatusPatch_def recording_def)
    with e show ?thesis by (auto intro: status_calls.intros)
  next
    case False
    with assms Pair have "err = e1"
      and "log' = log @ [((ro_namespace r, ro_rolloutName r), p, [''status''], e1)]"
      by (auto simp: applyStatusPatch_def recording_def split: option.splits)
    with False show ?thesis by (auto intro!: status_calls.intros)
  qed
qed

lemma patchRollout_command_calls:
  assumes run: "patchRollout r (recording client) (w, log) = (err, (w', log'))"
  shows "\<exists>cs. log' = log @ cs \<and> command_calls r cs err"
proof -
  let ?k = "(ro_namespace r, ro_rolloutName r)"
  consider (resume) "ro_action r = ''RESUME''" | (abort) "ro_action r = ''ABORT''"
    | (pause) "ro_action r = ''PAUSE''" | (other) "ro_action r \<notin> {''RESUME'', ''ABORT'', ''PAUSE''}"
    by blast
  then show ?thesis
  proof cases
    case resume
    obtain e1 w1 where c1: "client (ro_namespace r) (ro_rolloutName r) unpausePatch [] w = (e1, w1)"
      by fastforce
    show ?thesis
    proof (cases e1)
      case None
      with run resume c1 have "applyStatusPatch r (recording client) retryPatch
          (w1, log @ [(?k, unpausePatch, [], None)]) = (err, (w', log'))"
        by (simp add: patchRollout_def applyPatch_def recording_def action_defs)
      from applyStatusPatch_calls [OF this] resume show ?thesis
        by (auto intro: command_calls.intros)
    next
      case (Some e)
      with run resume c1 have "err = Some e" "log' = log @ [(?k, unpausePatch, [], Some e)]"
        by (auto simp: patchRollout_def applyPatch_def recording_def action_defs)
      with resume show ?thesis by (auto intro: command_calls.intros)
    qed
  next
    case abort
    with run have "applyStatusPatch r (recording client) abortPatch (w, log) = (err, (w', log'))"
      by (simp add: patchRollout_def action_defs)
    from applyStatusPatch_calls [OF this] abort show ?thesis
      by (auto intro: command_calls.intros)
  next
    case pause
    with run show ?thesis
      by (auto simp: patchRollout_def applyPatch_def recording_def action_defs
          intro!: command_calls.pause split: prod.splits)
  next
    case other
    with run show ?thesis
      by (auto simp: patchRollout_def action_defs intro!: command_calls.unknown)
  qed
qed

text \<open>Recording changes neither the answer nor the world.\<close>

lemma recording_same:
  "fst (recording client ns n p s ws) = fst (client ns n p s (fst ws))"
  "fst (snd (recording client ns n p s ws)) = snd (client ns n p s (fst ws))"
  by (simp_all add: recording_def split: prod.splits)

lemma applyStatusPatch_same:
  "fst (applyStatusPatch r (recording c) p ws) = fst (applyStatusPatch r c p (fst ws)) \<and>
   fst (snd (applyStatusPatch r (recording c) p ws)) = snd (applyStatusPatch r c p (fst ws))"
  by (auto simp: applyStatusPatch_def recording_def split: prod.splits option.splits)

lemma patchRollout_same:
  "fst (patchRollout r (recording c) ws) = fst (patchRollout r c (fst ws)) \<and>
   fst (snd (patchRollout r (recording c) ws)) = snd (patchRollout r c (fst ws))"
  using applyStatusPatch_same [of r c retryPatch] applyStatusPatch_same [of r c abortPatch ws]
  by (auto simp: patchRollout_def applyPatch_def recording_def split: prod.splits option.splits)

text \<open>The error of a command is the answer of its last call: success means every step succeeded.\<close>

lemma command_calls_success:
  assumes "command_calls r cs None"
  shows "ro_action r \<in> {''RESUME'', ''ABORT'', ''PAUSE''} \<and>
    (case last cs of (_, _, _, e) \<Rightarrow> e = None) \<and>
    (\<forall>p. (ro_action r = ''RESUME'' \<longrightarrow> p \<in> {unpausePatch, retryPatch}) \<and>
         (ro_action r = ''ABORT'' \<longrightarrow> p = abortPatch) \<and>
         (ro_action r = ''PAUSE'' \<longrightarrow> p = pausePatch) \<longrightarrow>
      (\<exists>s. ((ro_namespace r, ro_rolloutName r), p, s, None) \<in> set cs))"
  using assms
  by (elim command_callsE status_callsE) auto

section \<open>Properties\<close>

definition sample_rollout :: "rolloutCommand" where
  "sample_rollout = \<lparr>ro_namespace = ''ns'', ro_rolloutName = ''r'', ro_action = ''RESUME''\<rparr>"

text \<open>
  C37: A rollout command makes exactly the calls its action stands for, on its own rollout: resume
  clears the pause and then retries in the status, abort sets the status, pause patches the
  rollout, any other action makes no call and is an error. A status patch goes to the status
  subresource first and to the rollout itself only after a "not found".
\<close>

theorem rollout_calls:
  assumes "patchRollout r (recording client) (w, []) = (err, (w', cs))"
  shows "command_calls r cs err \<and> (err, w') = patchRollout r client w"
  using patchRollout_command_calls [OF assms] patchRollout_same [of r client "(w, [])"] assms
  by (auto simp: prod_eq_iff)

lemma rollout_calls_witness:
  "command_calls sample_rollout
     [((''ns'', ''r''), unpausePatch, [], None),
      ((''ns'', ''r''), retryPatch, [''status''], Some (StatusError ''NotFound'' ''gone'')),
      ((''ns'', ''r''), retryPatch, [], None)] None"
proof -
  let ?client = "\<lambda>ns n p subs w. (if subs = [''status''] then Some (StatusError ''NotFound'' ''gone'') else None, w)"
  have "patchRollout sample_rollout (recording ?client) ((), []) = (None, ((),
     [((''ns'', ''r''), unpausePatch, [], None),
      ((''ns'', ''r''), retryPatch, [''status''], Some (StatusError ''NotFound'' ''gone'')),
      ((''ns'', ''r''), retryPatch, [], None)]))"
    by (simp add: sample_rollout_def patchRollout_def action_defs applyPatch_def applyStatusPatch_def
        recording_def IsNotFound_def)
  from rollout_calls [OF this] show ?thesis by blast
qed

text \<open>
  When a rollout command succeeds, every patch its action needs was answered without an
  error: no failed step is reported as success.
\<close>

theorem rollout_success:
  assumes "patchRollout r (recording client) (w, []) = (None, (w', cs))"
  shows "ro_action r \<in> {''RESUME'', ''ABORT'', ''PAUSE''} \<and>
    (\<forall>p \<in> (if ro_action r = ''RESUME'' then {unpausePatch, retryPatch}
           else if ro_action r = ''ABORT'' then {abortPatch} else {pausePatch}).
      \<exists>s. ((ro_namespace r, ro_rolloutName r), p, s, None) \<in> set cs)"
proof -
  from patchRollout_command_calls [OF assms] have "command_calls r cs None" by simp
  then show ?thesis by (elim command_callsE status_callsE) auto
qed

lemma rollout_success_witness:
  "\<exists>s. ((''ns'', ''r''), retryPatch, s, None) \<in>
     set [((''ns'', ''r''), unpausePatch, [] :: string list, None :: go_error option),
          ((''ns'', ''r''), retryPatch, [''status''], None)]"
proof -
  have "patchRollout sample_rollout (recording (\<lambda>ns n p subs w. (None, w))) ((), []) = (None, ((),
     [((''ns'', ''r''), unpausePatch, [], None), ((''ns'', ''r''), retryPatch, [''status''], None)]))"
    by (simp add: sample_rollout_def patchRollout_def action_defs applyPatch_def applyStatusPatch_def
        recording_def)
  from rollout_success [OF this] show ?thesis by (simp add: sample_rollout_def)
qed

end
