(* ===== verification/Secrets.thy ===== *)
theory Secrets
  imports Api_Messages
begin

text \<open>
  Secret synchronisation (\<open>pkg/agent/secrets.go\<close>): a command sets or deletes keys of one
  Kubernetes secret. The Kubernetes client is a parameter; what its API documents is stated as
  the predicate \<open>documented_secret_api\<close>, a hypothesis of the end-to-end theorems only.
\<close>

section \<open>Data and the client interface\<close>

record Secret =
  so_Name :: string
  so_Namespace :: string
  so_Data :: "(string, byte list) gomap"
  so_Type :: string

definition SecretTypeOpaque :: string where "SecretTypeOpaque = ''Opaque''"

definition secretSyncActionSet :: string where "secretSyncActionSet = ''SET''"
definition secretSyncActionDelete :: string where "secretSyncActionDelete = ''DELETE''"

lemmas secret_action_defs = secretSyncActionSet_def secretSyncActionDelete_def

text \<open>
  \<open>SecretInterface\<close>: the operations of the client, for one namespace. The type \<open>'j\<close> is the
  document a patch is marshalled to.
\<close>

record ('w, 'j) SecretInterface =
  si_Create :: "Secret \<Rightarrow> 'w \<Rightarrow> (go_error + Secret) \<times> 'w"
  si_Delete :: "string \<Rightarrow> 'w \<Rightarrow> go_error option \<times> 'w"
  si_Get :: "string \<Rightarrow> 'w \<Rightarrow> (go_error + Secret) \<times> 'w"
  si_Patch :: "string \<Rightarrow> 'j \<Rightarrow> 'w \<Rightarrow> (go_error + Secret) \<times> 'w"

text \<open>A factory may panic: the one of the program does when the client set cannot be made.\<close>

type_synonym ('w, 'j) secretsGetterFactory =
  "string \<Rightarrow> 'w \<Rightarrow> ('w, (go_error + ('w, 'j) SecretInterface) \<times> 'w) outcome"

record secretSyncCommand =
  sc_name :: string
  sc_namespace :: string
  sc_action :: string
  sc_secret :: "(string, byte list) gomap"

definition secretSyncCommand_String :: "secretSyncCommand \<Rightarrow> string" where
  "secretSyncCommand_String s =
     ''<secret='' @ sc_name s @ '' namespace='' @ sc_namespace s @ '' action='' @ sc_action s @ ''>''"

section \<open>Patch operations\<close>

datatype patch_value = EmptyObject | StringValue string

record patch_op =
  op_op :: string
  op_path :: string
  op_value :: "patch_value option"

definition root_op :: patch_op where
  "root_op = \<lparr>op_op = ''add'', op_path = ''/data'', op_value = Some EmptyObject\<rparr>"

definition remove_op :: "string \<times> byte list \<Rightarrow> patch_op" where
  "remove_op kv = \<lparr>op_op = ''remove'', op_path = ''/data/'' @ fst kv, op_value = None\<rparr>"

definition add_op :: "string \<times> byte list \<Rightarrow> patch_op" where
  "add_op kv = \<lparr>op_op = ''add'', op_path = ''/data/'' @ fst kv,
                op_value = Some (StringValue (EncodeToString (snd kv)))\<rparr>"

type_synonym secret_range = "(string \<times> byte list) list \<Rightarrow> (string \<times> byte list) list"

definition getOps ::
  "secret_range \<Rightarrow> secretSyncCommand \<Rightarrow> bool \<Rightarrow> go_error + patch_op list" where
  "getOps ord s insertRoot =
     (let ops = (if insertRoot then [root_op] else []) in
      if sc_action s = secretSyncActionDelete then Inr (ops @ map remove_op (ord (sc_secret s)))
      else if sc_action s = secretSyncActionSet then Inr (ops @ map add_op (ord (sc_secret s)))
      else Inl (ErrText (''action '' @ sc_action s @
                         '' is not supported by the secret sync directive'')))"

section \<open>The synchronisation\<close>

definition new_secret :: "secretSyncCommand \<Rightarrow> Secret" where
  "new_secret s = \<lparr>so_Name = sc_name s, so_Namespace = sc_namespace s, so_Data = sc_secret s,
                   so_Type = SecretTypeOpaque\<rparr>"

definition syncSecret ::
  "secret_range \<Rightarrow> (patch_op list \<Rightarrow> go_error + 'j) \<Rightarrow> secretSyncCommand \<Rightarrow>
   ('w, 'j) SecretInterface \<Rightarrow> 'w \<Rightarrow> go_error option \<times> 'w" where
  "syncSecret ord marshal s client w =
    (case si_Get client (sc_name s) w of
       (Inl err, w1) \<Rightarrow>
         if IsNotFound err then
           (if sc_action s = secretSyncActionSet then
              (case si_Create client (new_secret s) w1 of
                 (Inl e, w2) \<Rightarrow> (Some (ErrWrap ''failed to create the secret: '' e), w2)
               | (Inr _, w2) \<Rightarrow> (None, w2))
            else (None, w1))
         else (Some (ErrWrap (''failed to get the secret '' @ sc_name s @ '': '') err), w1)
     | (Inr secret, w1) \<Rightarrow>
         (case getOps ord s (so_Data secret = []) of
            Inl e \<Rightarrow> (Some (ErrWrap ''failed to generate required update operations: '' e), w1)
          | Inr ops \<Rightarrow>
              (case marshal ops of
                 Inl e \<Rightarrow> (Some (ErrWrap ''failed to generate patch ops: '' e), w1)
               | Inr opsJSON \<Rightarrow>
                   (case si_Patch client (sc_name s) opsJSON w1 of
                      (Inl e, w2) \<Rightarrow> (Some (ErrWrap ''failed to update the secret: '' e), w2)
                    | (Inr secret', w2) \<Rightarrow>
                        if so_Data secret' = [] then
                          (case si_Delete client (sc_name s) w2 of
                             (Some e, w3) \<Rightarrow>
                               (Some (ErrWrap (''failed to clean up the secret '' @ sc_name s @ '': '') e), w3)
                           | (None, w3) \<Rightarrow> (None, w3))
                        else (None, w2)))))"

definition secret_RunWithClientFactory ::
  "secret_range \<Rightarrow> (patch_op list \<Rightarrow> go_error + 'j) \<Rightarrow> secretSyncCommand \<Rightarrow>
   ('w, 'j) secretsGetterFactory \<Rightarrow> 'w \<Rightarrow> ('w, go_error option \<times> 'w) outcome" where
  "secret_RunWithClientFactory ord marshal s factory w =
     bind_outcome (factory (sc_namespace s) w) (\<lambda>(r, w1).
       case r of
         Inl err \<Rightarrow> Ret (Some err, w1)
       | Inr client \<Rightarrow> Ret (syncSecret ord marshal s client w1))"

lemma secret_run_Panic:
  "secret_RunWithClientFactory ord marshal s factory w = Panic w' \<longleftrightarrow> factory (sc_namespace s) w = Panic w'"
  by (cases "factory (sc_namespace s) w") (auto simp: secret_RunWithClientFactory_def split: prod.split sum.split)

lemma secret_run_returns:
  "returns (secret_RunWithClientFactory ord marshal s factory w) \<longleftrightarrow> returns (factory (sc_namespace s) w)"
  by (cases "factory (sc_namespace s) w") (auto simp: secret_RunWithClientFactory_def split: prod.split sum.split)

lemmas secret_defs [step_defs] = syncSecret_def secret_RunWithClientFactory_def

section \<open>What the patch operations do\<close>

text \<open>
  The part of RFC 6902 (JSON Patch) that applies to a secret, as the Kubernetes API documents
  it: the \<open>data\<close> field is absent when it has no keys; adding at \<open>/data\<close> replaces the field;
  adding or removing a key needs the field to be there, removing needs the key; values are
  base64. A key holding \<open>/\<close> or \<open>~\<close> is refused.
\<close>

type_synonym secret_data = "string \<rightharpoonup> byte list"

definition key_of_path :: "string \<Rightarrow> string option" where
  "key_of_path p =
     (if HasPrefix p ''/data/'' \<and> CHR ''/'' \<notin> set (drop 6 p) \<and> CHR ''~'' \<notin> set (drop 6 p)
      then Some (drop 6 p) else None)"

definition apply_op :: "patch_op \<Rightarrow> secret_data option \<Rightarrow> secret_data option option" where
  "apply_op p d =
     (if op_path p = ''/data'' \<and> op_op p = ''add'' \<and> op_value p = Some EmptyObject
      then Some (Some Map.empty)
      else case (key_of_path (op_path p), d) of
        (Some k, Some m) \<Rightarrow>
          (case op_value p of
             Some (StringValue v) \<Rightarrow>
               if op_op p = ''add'' then Some (Some (m(k \<mapsto> DecodeString v))) else None
           | None \<Rightarrow> if op_op p = ''remove'' \<and> k \<in> dom m then Some (Some (m(k := None))) else None
           | _ \<Rightarrow> None)
      | _ \<Rightarrow> None)"

fun apply_ops :: "patch_op list \<Rightarrow> secret_data option \<Rightarrow> secret_data option option" where
  "apply_ops [] d = Some d"
| "apply_ops (p # ps) d = Option.bind (apply_op p d) (apply_ops ps)"

definition data_field :: "secret_data \<Rightarrow> secret_data option" where
  "data_field d = (if d = Map.empty then None else Some d)"

lemma key_of_path_data:
  "key_of_path (''/data/'' @ k) = (if CHR ''/'' \<in> set k \<or> CHR ''~'' \<in> set k then None else Some k)"
  by (simp add: key_of_path_def HasPrefix_def)

lemma data_path_ne: "''/data/'' @ k \<noteq> ''/data''"
  by simp

lemma apply_root [simp]: "apply_op root_op d = Some (Some Map.empty)"
  by (simp add: apply_op_def root_op_def)

lemma apply_add:
  "apply_op (add_op (k, v)) d = Some r \<longleftrightarrow>
     CHR ''/'' \<notin> set k \<and> CHR ''~'' \<notin> set k \<and> (\<exists>m. d = Some m \<and> r = Some (m(k \<mapsto> v)))"
  using key_of_path_data [of k]
  by (auto simp: apply_op_def add_op_def DecodeString_EncodeToString split: option.splits)

lemma apply_remove:
  "apply_op (remove_op (k, v)) d = Some r \<longleftrightarrow>
     CHR ''/'' \<notin> set k \<and> CHR ''~'' \<notin> set k \<and>
     (\<exists>m. d = Some m \<and> k \<in> dom m \<and> r = Some (m(k := None)))"
  using key_of_path_data [of k]
  by (auto simp: apply_op_def remove_op_def split: option.splits)

lemma apply_ops_append:
  "apply_ops (ps @ qs) d = Option.bind (apply_ops ps d) (apply_ops qs)"
  by (induction ps arbitrary: d) (auto split: Option.bind_splits)

lemma apply_adds:
  assumes "apply_ops (map add_op kvs) d = Some r" and "distinct (map fst kvs)"
  shows "(kvs = [] \<and> r = d) \<or> (\<exists>m. d = Some m \<and> r = Some (m ++ map_of kvs))"
  using assms
proof (induction kvs arbitrary: d)
  case Nil
  then show ?case by simp
next
  case (Cons kv kvs)
  obtain k v where kv: "kv = (k, v)" by (cases kv)
  from Cons.prems(1) kv obtain m where d: "d = Some m"
    and rest: "apply_ops (map add_op kvs) (Some (m(k \<mapsto> v))) = Some r"
    by (auto simp: bind_eq_Some_conv apply_add)
  from Cons.prems(2) kv have k: "k \<notin> fst ` set kvs" by simp
  from Cons.IH [OF rest] Cons.prems(2) have "r = Some (m(k \<mapsto> v) ++ map_of kvs)" by auto
  moreover have "m(k \<mapsto> v) ++ map_of kvs = m ++ map_of (kv # kvs)"
  proof
    fix x
    have "map_of kvs k = None" using k by (simp add: map_of_eq_None_iff)
    then show "(m(k \<mapsto> v) ++ map_of kvs) x = (m ++ map_of (kv # kvs)) x"
      using kv by (cases "x = k"; cases "map_of kvs x") (simp_all add: map_add_def)
  qed
  ultimately show ?case using d by (simp del: map_of.simps)
qed

lemma apply_removes:
  assumes "apply_ops (map remove_op kvs) d = Some r"
  shows "(kvs = [] \<and> r = d) \<or>
    (\<exists>m. d = Some m \<and> fst ` set kvs \<subseteq> dom m \<and> r = Some (m |` (- fst ` set kvs)))"
  using assms
proof (induction kvs arbitrary: d)
  case Nil
  then show ?case by simp
next
  case (Cons kv kvs)
  obtain k v where kv: "kv = (k, v)" by (cases kv)
  from Cons.prems kv obtain m where d: "d = Some m" and k: "k \<in> dom m"
    and rest: "apply_ops (map remove_op kvs) (Some (m(k := None))) = Some r"
    by (auto simp: bind_eq_Some_conv apply_remove)
  from Cons.IH [OF rest] show ?case
  proof
    assume "kvs = [] \<and> r = Some (m(k := None))"
    with d k kv show ?thesis
      by (auto simp: restrict_map_def fun_eq_iff)
  next
    assume "\<exists>m'. Some (m(k := None)) = Some m' \<and> fst ` set kvs \<subseteq> dom m' \<and>
      r = Some (m' |` (- fst ` set kvs))"
    then have "fst ` set kvs \<subseteq> dom m" and "r = Some (m(k := None) |` (- fst ` set kvs))"
      by auto
    moreover have "m(k := None) |` (- fst ` set kvs) = m |` (- fst ` set (kv # kvs))"
      using kv by (auto simp: restrict_map_def fun_eq_iff)
    ultimately show ?thesis using d k kv by auto
  qed
qed

section \<open>Order of the calls\<close>

datatype secret_call = CallGet | CallCreate Secret | CallPatch | CallDelete

definition recording_secrets ::
  "('w, 'j) SecretInterface \<Rightarrow> ('w \<times> secret_call list, 'j) SecretInterface" where
  "recording_secrets c =
     \<lparr>si_Create = (\<lambda>s wl. case si_Create c s (fst wl) of (r, w1) \<Rightarrow> (r, (w1, snd wl @ [CallCreate s]))),
      si_Delete = (\<lambda>n wl. case si_Delete c n (fst wl) of (r, w1) \<Rightarrow> (r, (w1, snd wl @ [CallDelete]))),
      si_Get = (\<lambda>n wl. case si_Get c n (fst wl) of (r, w1) \<Rightarrow> (r, (w1, snd wl @ [CallGet]))),
      si_Patch = (\<lambda>n j wl. case si_Patch c n j (fst wl) of (r, w1) \<Rightarrow> (r, (w1, snd wl @ [CallPatch])))\<rparr>"

lemmas secret_splits = prod.splits sum.splits option.splits if_splits

lemma syncSecret_recorded:
  "snd (snd (syncSecret ord marshal s (recording_secrets c) (w, []))) \<in>
     {[CallGet], [CallGet, CallCreate (new_secret s)], [CallGet, CallPatch],
      [CallGet, CallPatch, CallDelete]} \<and>
   fst (syncSecret ord marshal s (recording_secrets c) (w, [])) = fst (syncSecret ord marshal s c w) \<and>
   fst (snd (syncSecret ord marshal s (recording_secrets c) (w, []))) = snd (syncSecret ord marshal s c w)"
  by (auto simp: syncSecret_def recording_secrets_def split: secret_splits)

section \<open>The documented API\<close>

text \<open>
  \<open>view w n\<close> is the data of the secret named \<open>n\<close> in world \<open>w\<close>, if it exists. Each call
  either fails and leaves every secret as it was, or does what the API documents. Nobody else
  writes the secret between the calls of one command.
\<close>

definition documented_secret_api ::
  "(patch_op list \<Rightarrow> go_error + 'j) \<Rightarrow> ('w \<Rightarrow> string \<rightharpoonup> secret_data) \<Rightarrow>
   ('w, 'j) SecretInterface \<Rightarrow> bool" where
  "documented_secret_api marshal view c \<longleftrightarrow>
     (\<forall>n w. view (snd (si_Get c n w)) = view w) \<and>
     (\<forall>n w e. fst (si_Get c n w) = Inl e \<and> IsNotFound e \<longrightarrow> view w n = None) \<and>
     (\<forall>n w s. fst (si_Get c n w) = Inr s \<longrightarrow> view w n = Some (map_of (so_Data s))) \<and>
     (\<forall>s w r. fst (si_Create c s w) = Inr r \<longrightarrow>
        view (snd (si_Create c s w)) = (view w)(so_Name s \<mapsto> map_of (so_Data s))) \<and>
     (\<forall>n w ops j r. marshal ops = Inr j \<and> fst (si_Patch c n j w) = Inr r \<longrightarrow>
        (\<exists>d d'. view w n = Some d \<and> apply_ops ops (data_field d) = Some d' \<and>
           map_of (so_Data r) = (case d' of None \<Rightarrow> Map.empty | Some m \<Rightarrow> m) \<and>
           view (snd (si_Patch c n j w)) = (view w)(n \<mapsto> map_of (so_Data r)))) \<and>
     (\<forall>n w. fst (si_Delete c n w) = None \<longrightarrow> view (snd (si_Delete c n w)) = (view w)(n := None))"

text \<open>
  The abstract specification: what one command makes of the data of its secret. A secret left
  without keys is removed.
\<close>

definition prune :: "secret_data \<Rightarrow> secret_data option" where
  "prune d = (if d = Map.empty then None else Some d)"

definition sync_spec :: "secretSyncCommand \<Rightarrow> secret_data option \<Rightarrow> secret_data option" where
  "sync_spec s old =
     (case old of
        None \<Rightarrow> if sc_action s = secretSyncActionSet then Some (map_of (sc_secret s)) else None
      | Some d \<Rightarrow>
          if sc_action s = secretSyncActionSet then prune (d ++ map_of (sc_secret s))
          else prune (d |` (- fst ` set (sc_secret s))))"

lemma apply_getOps:
  assumes ops: "getOps ord s (d = Map.empty) = Inr ops"
    and app: "apply_ops ops (data_field d) = Some d'"
    and ord: "range_ok ord" and wf: "gomap_wf (sc_secret s)"
  shows "(case d' of None \<Rightarrow> Map.empty | Some m \<Rightarrow> m) =
    (if sc_action s = secretSyncActionSet then d ++ map_of (sc_secret s)
     else d |` (- fst ` set (sc_secret s)))"
proof -
  let ?kvs = "ord (sc_secret s)"
  have keys: "fst ` set ?kvs = fst ` set (sc_secret s)"
    using range_ok_set [OF ord] by simp
  have dist: "distinct (map fst ?kvs)"
    using wf range_ok_map_distinct [OF ord, where f = fst] by (simp add: gomap_wf_def)
  have maps: "map_of ?kvs = map_of (sc_secret s)"
    using dist wf range_ok_set [OF ord] by (metis gomap_wf_def map_of_inject_set)
  have app': "apply_ops (map (if sc_action s = secretSyncActionSet then add_op else remove_op) ?kvs)
      (Some d) = Some d' \<or> (d = Map.empty \<and> False)"
    using ops app
    by (auto simp: getOps_def data_field_def secret_action_defs apply_ops_append Let_def
        split: if_splits)
  show ?thesis
  proof (cases "sc_action s = secretSyncActionSet")
    case True
    with app' have "apply_ops (map add_op ?kvs) (Some d) = Some d'" by simp
    from apply_adds [OF this dist] have "d' = Some (d ++ map_of ?kvs)" by auto
    with True show ?thesis by (simp add: maps)
  next
    case False
    with app' have "apply_ops (map remove_op ?kvs) (Some d) = Some d'" by simp
    from apply_removes [OF this] have "d' = Some (d |` (- fst ` set ?kvs))" by auto
    with False show ?thesis by (simp only: keys option.case if_False)
  qed
qed

lemma map_of_data_Nil: "map_of xs = Map.empty \<longleftrightarrow> xs = []"
  by (cases xs) (auto simp: fun_eq_iff)

lemma syncSecret_implements_spec:
  assumes api: "documented_secret_api marshal view c"
    and ord: "range_ok ord" and wf: "gomap_wf (sc_secret s)"
    and ok: "fst (syncSecret ord marshal s c w) = None"
  shows "view (snd (syncSecret ord marshal s c w)) =
    (view w)(sc_name s := sync_spec s (view w (sc_name s)))"
proof (cases "si_Get c (sc_name s) w")
  case (Pair g w1)
  have v1: "view w1 = view w"
    using api Pair unfolding documented_secret_api_def by (metis snd_conv)
  show ?thesis
  proof (cases g)
    case (Inl e)
    with ok Pair have nf: "IsNotFound e" by (auto simp: syncSecret_def split: secret_splits)
    have none: "view w (sc_name s) = None"
      using api Pair Inl nf unfolding documented_secret_api_def by (metis fst_conv)
    show ?thesis
    proof (cases "sc_action s = secretSyncActionSet")
      case True
      with ok Pair Inl nf obtain r w2 where cr: "si_Create c (new_secret s) w1 = (Inr r, w2)"
        by (auto simp: syncSecret_def split: secret_splits)
      then have "view w2 = (view w1)(sc_name s \<mapsto> map_of (sc_secret s))"
        using api unfolding documented_secret_api_def new_secret_def
        by (metis fst_conv snd_conv Secret.select_convs(1,3))
      with True Pair Inl nf cr v1 none show ?thesis
        by (simp add: syncSecret_def sync_spec_def)
    next
      case False
      with Pair Inl nf v1 none show ?thesis
        by (auto simp: syncSecret_def sync_spec_def)
    qed
  next
    case (Inr sec)
    let ?d = "map_of (so_Data sec)"
    have some: "view w (sc_name s) = Some ?d"
      using api Pair Inr unfolding documented_secret_api_def by (metis fst_conv)
    from ok Pair Inr obtain ops j r w2 where ops: "getOps ord s (?d = Map.empty) = Inr ops"
      and j: "marshal ops = Inr j" and p: "si_Patch c (sc_name s) j w1 = (Inr r, w2)"
      by (auto simp: syncSecret_def map_of_data_Nil split: secret_splits)
    obtain d' where app: "apply_ops ops (data_field ?d) = Some d'"
      and r: "map_of (so_Data r) = (case d' of None \<Rightarrow> Map.empty | Some m \<Rightarrow> m)"
      and v2: "view w2 = (view w)(sc_name s \<mapsto> map_of (so_Data r))"
      using api j p some v1 unfolding documented_secret_api_def
      by (metis (no_types, lifting) fst_conv snd_conv option.inject)
    have new: "map_of (so_Data r) =
      (if sc_action s = secretSyncActionSet then ?d ++ map_of (sc_secret s)
       else ?d |` (- fst ` set (sc_secret s)))"
      using apply_getOps [OF ops app ord wf] r by simp
    have spec: "sync_spec s (Some ?d) = prune (map_of (so_Data r))"
      by (simp add: sync_spec_def new)
    show ?thesis
    proof (cases "so_Data r = []")
      case True
      with ok Pair Inr ops j p obtain w3 where del: "si_Delete c (sc_name s) w2 = (None, w3)"
        by (auto simp: syncSecret_def map_of_data_Nil split: secret_splits)
      then have "view w3 = (view w2)(sc_name s := None)"
        using api unfolding documented_secret_api_def by (metis fst_conv snd_conv)
      with True Pair Inr ops j p del v2 some spec show ?thesis
        by (simp add: syncSecret_def map_of_data_Nil prune_def)
    next
      case False
      with Pair Inr ops j p v2 some spec show ?thesis
        by (simp add: syncSecret_def map_of_data_Nil prune_def)
    qed
  qed
qed

section \<open>An API that behaves as documented\<close>

text \<open>An in-memory API: secrets by name, patched operation by operation.\<close>

type_synonym mem_secrets = "(string \<times> (string, byte list) gomap) list"

definition mem_op ::
  "patch_op \<Rightarrow> (string, byte list) gomap option \<Rightarrow> (string, byte list) gomap option option" where
  "mem_op p d =
     (if op_path p = ''/data'' \<and> op_op p = ''add'' \<and> op_value p = Some EmptyObject then Some (Some [])
      else case (key_of_path (op_path p), d) of
        (Some k, Some m) \<Rightarrow>
          (case op_value p of
             Some (StringValue v) \<Rightarrow>
               if op_op p = ''add'' then Some (Some (AList.update k (DecodeString v) m)) else None
           | None \<Rightarrow> if op_op p = ''remove'' \<and> k \<in> fst ` set m then Some (Some (AList.delete k m)) else None
           | _ \<Rightarrow> None)
      | _ \<Rightarrow> None)"

fun mem_ops ::
  "patch_op list \<Rightarrow> (string, byte list) gomap option \<Rightarrow> (string, byte list) gomap option option" where
  "mem_ops [] d = Some d"
| "mem_ops (p # ps) d = (case mem_op p d of None \<Rightarrow> None | Some d' \<Rightarrow> mem_ops ps d')"

definition mem_view :: "mem_secrets \<Rightarrow> string \<rightharpoonup> secret_data" where
  "mem_view w n = map_option map_of (map_of w n)"

definition mem_secret :: "string \<Rightarrow> (string, byte list) gomap \<Rightarrow> Secret" where
  "mem_secret n kvs = \<lparr>so_Name = n, so_Namespace = '''', so_Data = kvs, so_Type = SecretTypeOpaque\<rparr>"

definition mem_data :: "(string, byte list) gomap option \<Rightarrow> (string, byte list) gomap" where
  "mem_data d = (case d of None \<Rightarrow> [] | Some m \<Rightarrow> m)"

definition mem_api :: "(mem_secrets, patch_op list) SecretInterface" where
  "mem_api =
     \<lparr>si_Create = (\<lambda>s w. if map_of w (so_Name s) = None then (Inr s, AList.update (so_Name s) (so_Data s) w)
                       else (Inl (StatusError ''AlreadyExists'' ''exists''), w)),
      si_Delete = (\<lambda>n w. (None, AList.delete n w)),
      si_Get = (\<lambda>n w. (case map_of w n of
                  None \<Rightarrow> Inl (StatusError ''NotFound'' ''not found'')
                | Some kvs \<Rightarrow> Inr (mem_secret n kvs), w)),
      si_Patch = (\<lambda>n ops w. case map_of w n of
                  None \<Rightarrow> (Inl (StatusError ''NotFound'' ''not found''), w)
                | Some kvs \<Rightarrow>
                    (case mem_ops ops (if kvs = [] then None else Some kvs) of
                       None \<Rightarrow> (Inl (StatusError ''Invalid'' ''patch''), w)
                     | Some d \<Rightarrow> (Inr (mem_secret n (mem_data d)), AList.update n (mem_data d) w)))\<rparr>"

lemma mem_op_view:
  "mem_op p d = Some d' \<Longrightarrow> apply_op p (map_option map_of d) = Some (map_option map_of d')"
  by (auto simp: mem_op_def apply_op_def update_conv' delete_conv' dom_map_of_conv_image_fst
      split: option.splits patch_value.splits if_splits)

lemma mem_ops_view:
  "mem_ops ps d = Some d' \<Longrightarrow> apply_ops ps (map_option map_of d) = Some (map_option map_of d')"
  by (induction ps d rule: mem_ops.induct) (auto dest: mem_op_view split: option.splits)

lemma mem_view_update: "mem_view (AList.update n kvs w) = (mem_view w)(n \<mapsto> map_of kvs)"
  by (auto simp: mem_view_def update_conv')

lemma mem_view_delete: "mem_view (AList.delete n w) = (mem_view w)(n := None)"
  by (auto simp: mem_view_def delete_conv')

lemma mem_patch:
  assumes "fst (si_Patch mem_api n ops w) = Inr r"
  shows "\<exists>kvs d. map_of w n = Some kvs \<and> mem_ops ops (if kvs = [] then None else Some kvs) = Some d \<and>
    so_Data r = mem_data d \<and> snd (si_Patch mem_api n ops w) = AList.update n (mem_data d) w"
proof (cases "map_of w n")
  case None
  with assms show ?thesis by (simp add: mem_api_def)
next
  case (Some kvs)
  let ?m = "mem_ops ops (if kvs = [] then None else Some kvs)"
  show ?thesis
  proof (cases ?m)
    case None
    with assms Some show ?thesis by (simp add: mem_api_def split: if_splits)
  next
    case (Some d)
    with assms \<open>map_of w n = Some kvs\<close>
    have "so_Data r = mem_data d \<and> snd (si_Patch mem_api n ops w) = AList.update n (mem_data d) w"
      by (auto simp: mem_api_def mem_secret_def simp del: mem_ops.simps split: option.splits)
    with Some \<open>map_of w n = Some kvs\<close> show ?thesis by blast
  qed
qed

lemma mem_api_documented: "documented_secret_api Inr mem_view mem_api"
proof -
  have patch: "\<exists>d d'. mem_view w n = Some d \<and> apply_ops ops (data_field d) = Some d' \<and>
      map_of (so_Data r) = (case d' of None \<Rightarrow> Map.empty | Some m \<Rightarrow> m) \<and>
      mem_view (snd (si_Patch mem_api n j w)) = (mem_view w)(n \<mapsto> map_of (so_Data r))"
    if j: "Inr ops = Inr j" and p: "fst (si_Patch mem_api n j w) = Inr r" for n w ops j r
  proof -
    from mem_patch [OF p] obtain kvs d where kvs: "map_of w n = Some kvs"
      and d: "mem_ops j (if kvs = [] then None else Some kvs) = Some d"
      and r: "so_Data r = mem_data d" and w': "snd (si_Patch mem_api n j w) = AList.update n (mem_data d) w"
      by blast
    have "map_option map_of (if kvs = [] then None else Some kvs) = data_field (map_of kvs)"
      by (cases kvs) (auto simp: data_field_def fun_eq_iff)
    with mem_ops_view [OF d] have "apply_ops j (data_field (map_of kvs)) = Some (map_option map_of d)"
      by simp
    with kvs r w' j show ?thesis
      by (auto simp: mem_view_update mem_data_def mem_view_def split: option.split)
  qed
  show ?thesis
    unfolding documented_secret_api_def
  proof (intro conjI allI impI, goal_cases)
    case (5 n w ops j r)
    then show ?case using patch [of ops j n w r] by blast
  qed (auto simp: mem_api_def mem_view_update mem_view_delete mem_view_def mem_secret_def
      split: option.splits if_splits)
qed

section \<open>Properties\<close>

text \<open>
  C5: A secret synchronisation that reports success has, over an API that behaves as documented
  and whatever the order of the Go maps, done to its secret what the abstract specification
  says, and nothing to any other secret: set merges the keys (creating the secret if it is
  missing), delete removes the keys, and a secret left without keys is gone.
\<close>

theorem sync_refines_spec:
  assumes "documented_secret_api marshal view c" and "range_ok ord" and "gomap_wf (sc_secret s)"
    and "fst (syncSecret ord marshal s c w) = None"
  shows "view (snd (syncSecret ord marshal s c w)) =
    (view w)(sc_name s := sync_spec s (view w (sc_name s)))"
  using assms by (rule syncSecret_implements_spec)

definition sample_sync :: "string \<Rightarrow> secretSyncCommand" where
  "sample_sync action = \<lparr>sc_name = ''s'', sc_namespace = ''ns'', sc_action = action,
     sc_secret = [(''a'', [1]), (''b'', [2])]\<rparr>"

lemma sync_refines_spec_witness:
  "mem_view (snd (syncSecret rev Inr (sample_sync ''DELETE'') mem_api
     [(''s'', [(''a'', [7]), (''b'', [8])]), (''t'', [])])) ''s'' = None \<and>
   fst (syncSecret rev Inr (sample_sync ''DELETE'') mem_api
     [(''s'', [(''a'', [7]), (''b'', [8])]), (''t'', [])]) = None"
proof -
  let ?w = "[(''s'', [(''a'', [7]), (''b'', [8])]), (''t'', [])] :: mem_secrets"
  have run: "fst (syncSecret rev Inr (sample_sync ''DELETE'') mem_api ?w) = None"
    by (simp add: syncSecret_def sample_sync_def mem_api_def getOps_def secret_action_defs mem_secret_def
        remove_op_def mem_op_def key_of_path_def HasPrefix_def mem_data_def)
  have wf: "gomap_wf (sc_secret (sample_sync ''DELETE''))" by (simp add: sample_sync_def gomap_wf_def)
  have "sync_spec (sample_sync ''DELETE'') (mem_view ?w ''s'') = None"
    by (auto simp: sync_spec_def sample_sync_def secret_action_defs mem_view_def prune_def
        restrict_map_def fun_eq_iff)
  with sync_refines_spec [OF mem_api_documented range_ok_rev wf run] run show ?thesis
    by (simp add: sample_sync_def)
qed

text \<open>
  A synchronisation looks before it writes: its first call is always the lookup, it makes at
  most one of create and patch, and it deletes only after a patch.
\<close>

theorem sync_call_order:
  "snd (snd (syncSecret ord marshal s (recording_secrets c) (w, []))) \<in>
     {[CallGet], [CallGet, CallCreate (new_secret s)], [CallGet, CallPatch],
      [CallGet, CallPatch, CallDelete]} \<and>
   fst (syncSecret ord marshal s (recording_secrets c) (w, [])) = fst (syncSecret ord marshal s c w)"
  using syncSecret_recorded [of ord marshal s c w] by blast

text \<open>
  Deleting keys from a secret that exists but is empty fails: the operations create the
  \<open>data\<close> field and then remove keys from it, and no API that behaves as documented accepts
  such a patch, so the empty secret is never cleaned up.
\<close>

theorem delete_from_empty_fails:
  assumes "documented_secret_api marshal view c" and "range_ok ord" and "sc_secret s \<noteq> []"
    and "sc_action s = secretSyncActionDelete" and "view w (sc_name s) = Some Map.empty"
    and "fst (si_Get c (sc_name s) w) = Inr secret"
  shows "fst (syncSecret ord marshal s c w) \<noteq> None"
proof
  assume ok: "fst (syncSecret ord marshal s c w) = None"
  obtain w1 where g: "si_Get c (sc_name s) w = (Inr secret, w1)"
    using assms(6) by (cases "si_Get c (sc_name s) w") simp
  have v1: "view w1 = view w"
    using assms(1) g unfolding documented_secret_api_def by (metis snd_conv)
  have "view w (sc_name s) = Some (map_of (so_Data secret))"
    using assms(1,6) unfolding documented_secret_api_def by blast
  with assms(5) have e: "so_Data secret = []" by (simp add: map_of_data_Nil)
  from ok g e assms(4) obtain j r w2 where j: "marshal (root_op # map remove_op (ord (sc_secret s))) = Inr j"
    and p: "si_Patch c (sc_name s) j w1 = (Inr r, w2)"
    by (auto simp: syncSecret_def getOps_def secret_action_defs split: secret_splits)
  then obtain d d' where "view w1 (sc_name s) = Some d"
    and app: "apply_ops (root_op # map remove_op (ord (sc_secret s))) (data_field d) = Some d'"
    using assms(1) unfolding documented_secret_api_def by (metis fst_conv)
  then have app': "apply_ops (map remove_op (ord (sc_secret s))) (Some Map.empty) = Some d'" by simp
  have ne: "ord (sc_secret s) \<noteq> []" using assms(2,3) range_ok_Nil by blast
  from apply_removes [OF app'] ne show False by auto
qed

lemma delete_from_empty_fails_witness:
  "fst (syncSecret rev Inr (sample_sync ''DELETE'') mem_api [(''s'', [])]) \<noteq> None"
proof -
  have v: "mem_view [(''s'', [])] (sc_name (sample_sync ''DELETE'')) = Some Map.empty"
    by (simp add: mem_view_def sample_sync_def)
  have g: "fst (si_Get mem_api (sc_name (sample_sync ''DELETE'')) [(''s'', [])]) = Inr (mem_secret ''s'' [])"
    by (simp add: mem_api_def sample_sync_def)
  show ?thesis
    using delete_from_empty_fails [OF mem_api_documented range_ok_rev _ _ v g]
    by (simp add: sample_sync_def secret_action_defs)
qed

end
