(* ===== verification/Go_Url.thy ===== *)
theory Go_Url
  imports Go_Base
begin

text \<open>
  Package \<open>net/url\<close> of the Go standard library (Go 1.21), as far as the agent reads addresses
  with it: \<open>url.Parse\<close>, \<open>Hostname\<close>, \<open>Port\<close>, \<open>ResolveReference\<close> and \<open>String\<close>. A parsed URL keeps scheme, opaque part,
  user information, host (with its port), decoded path, raw query and decoded fragment, and the
  encodings of path and fragment where they differ from the default ones.
\<close>

section \<open>Characters\<close>

abbreviation ord_of :: "char \<Rightarrow> nat" where "ord_of c \<equiv> of_char c"

definition is_alpha :: "char \<Rightarrow> bool" where
  "is_alpha c \<longleftrightarrow> (97 \<le> ord_of c \<and> ord_of c \<le> 122) \<or> (65 \<le> ord_of c \<and> ord_of c \<le> 90)"

definition is_hex :: "char \<Rightarrow> bool" where
  "is_hex c \<longleftrightarrow> is_digit c \<or> (97 \<le> ord_of c \<and> ord_of c \<le> 102) \<or> (65 \<le> ord_of c \<and> ord_of c \<le> 70)"

definition unhex :: "char \<Rightarrow> nat" where
  "unhex c = (if is_digit c then ord_of c - 48
              else if 97 \<le> ord_of c then ord_of c - 87 else ord_of c - 55)"

definition is_ctl :: "char \<Rightarrow> bool" where
  "is_ctl c \<longleftrightarrow> ord_of c < 32 \<or> ord_of c = 127"

text \<open>\<open>shouldEscape\<close> in the modes of a host and of an IPv6 zone, on ASCII characters.\<close>

definition host_char :: "char \<Rightarrow> bool" where
  "host_char c \<longleftrightarrow> is_alpha c \<or> is_digit c \<or> c \<in> set ''!$&()*+,;=:[]<>-_.~'' \<or>
     ord_of c = 34 \<or> ord_of c = 39"

section \<open>Cutting\<close>

text \<open>\<open>strings.Cut\<close> at the first, and at the last, occurrence of a character.\<close>

fun cut :: "char \<Rightarrow> string \<Rightarrow> (string \<times> string) option" where
  "cut c [] = None"
| "cut c (x # s) =
     (if x = c then Some ([], s) else map_option (\<lambda>(a, b). (x # a, b)) (cut c s))"

definition cut_last :: "char \<Rightarrow> string \<Rightarrow> (string \<times> string) option" where
  "cut_last c s = map_option (\<lambda>(a, b). (rev b, rev a)) (cut c (rev s))"

definition cut_or_all :: "char \<Rightarrow> string \<Rightarrow> string \<times> string" where
  "cut_or_all c s = (case cut c s of None \<Rightarrow> (s, '''') | Some p \<Rightarrow> p)"

section \<open>Unescaping\<close>

datatype encoding = EncodePath | EncodeHost | EncodeZone | EncodeUserPassword | EncodeFragment

definition bad_escape :: "encoding \<Rightarrow> char \<Rightarrow> char \<Rightarrow> bool" where
  "bad_escape mode a b =
     (let v = unhex a * 16 + unhex b in
      case mode of
        EncodeHost \<Rightarrow> unhex a < 8 \<and> \<not> (a = CHR ''2'' \<and> b = CHR ''5'')
      | EncodeZone \<Rightarrow> \<not> (a = CHR ''2'' \<and> b = CHR ''5'') \<and> v \<noteq> 32 \<and> \<not> host_char (char_of v)
      | _ \<Rightarrow> False)"

definition bad_literal :: "encoding \<Rightarrow> char \<Rightarrow> bool" where
  "bad_literal mode c =
     ((mode = EncodeHost \<or> mode = EncodeZone) \<and> ord_of c < 128 \<and> \<not> host_char c)"

fun unescape :: "encoding \<Rightarrow> string \<Rightarrow> go_error + string" where
  "unescape mode [] = Inr []"
| "unescape mode (x # s) =
     (if x = CHR ''%'' then
        (case s of
           a # b # t \<Rightarrow>
             if is_hex a \<and> is_hex b \<and> \<not> bad_escape mode a b
             then map_sum id (\<lambda>r. char_of (unhex a * 16 + unhex b) # r) (unescape mode t)
             else Inl (ErrText (''invalid URL escape''))
         | _ \<Rightarrow> Inl (ErrText (''invalid URL escape'')))
      else if bad_literal mode x then Inl (ErrText (''invalid character in host name''))
      else map_sum id (\<lambda>r. x # r) (unescape mode s))"

section \<open>Escaping\<close>

definition shouldEscape :: "encoding \<Rightarrow> char \<Rightarrow> bool" where
  "shouldEscape mode c =
     (if is_alpha c \<or> is_digit c then False
      else if mode = EncodeHost \<or> mode = EncodeZone then \<not> (ord_of c < 128 \<and> host_char c)
      else if c \<in> set ''-_.~'' then False
      else if c \<in> set ''$&+,/:;=?@'' then
        (case mode of
           EncodePath \<Rightarrow> c = CHR ''?''
         | EncodeUserPassword \<Rightarrow> c \<in> set ''@/?:''
         | _ \<Rightarrow> False)
      else if mode = EncodeFragment then c \<notin> set ''!()*''
      else True)"

definition upperhex :: "nat \<Rightarrow> char" where
  "upperhex n = (''0123456789ABCDEF'' ! n)"

definition escape :: "encoding \<Rightarrow> string \<Rightarrow> string" where
  "escape mode s = concat (map (\<lambda>c. if shouldEscape mode c
     then [CHR ''%'', upperhex (ord_of c div 16), upperhex (ord_of c mod 16)] else [c]) s)"

definition validEncoded :: "encoding \<Rightarrow> string \<Rightarrow> bool" where
  "validEncoded mode s \<longleftrightarrow>
     (\<forall>c \<in> set s. c \<in> set ''!$&()*+,;=:@[]%'' \<or> ord_of c = 39 \<or> \<not> shouldEscape mode c)"

section \<open>Parsing\<close>

record URL =
  url_Scheme :: string
  url_Opaque :: string
  url_User :: "(string \<times> string option) option"
  url_Host :: string
  url_Path :: string
  url_RawPath :: string
  url_OmitHost :: bool
  url_ForceQuery :: bool
  url_RawQuery :: string
  url_Fragment :: string
  url_RawFragment :: string

definition empty_URL :: URL where
  "empty_URL = \<lparr>url_Scheme = '''', url_Opaque = '''', url_User = None, url_Host = '''',
                url_Path = '''', url_RawPath = '''', url_OmitHost = False, url_ForceQuery = False,
                url_RawQuery = '''', url_Fragment = '''', url_RawFragment = ''''\<rparr>"

text \<open>
  \<open>getScheme\<close>: the text before the first colon, if it is made of scheme characters and starts
  with a letter; the accumulator holds the characters read so far.
\<close>

fun getScheme_from :: "string \<Rightarrow> string \<Rightarrow> string \<Rightarrow> go_error + (string \<times> string)" where
  "getScheme_from raw acc [] = Inr ('''', raw)"
| "getScheme_from raw acc (c # s) =
     (if is_alpha c then getScheme_from raw (acc @ [c]) s
      else if is_digit c \<or> c \<in> set ''+-.'' then
        (if acc = [] then Inr ('''', raw) else getScheme_from raw (acc @ [c]) s)
      else if c = CHR '':'' then
        (if acc = [] then Inl (ErrText ''missing protocol scheme'') else Inr (acc, s))
      else Inr ('''', raw))"

definition getScheme :: "string \<Rightarrow> go_error + (string \<times> string)" where
  "getScheme raw = getScheme_from raw [] raw"

fun validOptionalPort :: "string \<Rightarrow> bool" where
  "validOptionalPort [] = True"
| "validOptionalPort (c # s) = (c = CHR '':'' \<and> (\<forall>d \<in> set s. is_digit d))"

text \<open>The first position of \<open>%25\<close>, as a cut that keeps it in the second part.\<close>

fun cut_zone :: "string \<Rightarrow> (string \<times> string) option" where
  "cut_zone [] = None"
| "cut_zone (x # s) =
     (if HasPrefix (x # s) ''%25'' then Some ([], x # s)
      else map_option (\<lambda>(a, b). (x # a, b)) (cut_zone s))"

definition parseHost :: "string \<Rightarrow> go_error + string" where
  "parseHost host =
     (if HasPrefix host ''['' then
        (case cut_last (CHR '']'') host of
           None \<Rightarrow> Inl (ErrText ''missing ] in host'')
         | Some (inner, colonPort) \<Rightarrow>
             if \<not> validOptionalPort colonPort then Inl (ErrText ''invalid port after host'')
             else (case cut_zone inner of
                 None \<Rightarrow> unescape EncodeHost host
               | Some (h1, zone) \<Rightarrow>
                   (case unescape EncodeHost h1 of
                      Inl e \<Rightarrow> Inl e
                    | Inr r1 \<Rightarrow> (case unescape EncodeZone zone of
                        Inl e \<Rightarrow> Inl e
                      | Inr r2 \<Rightarrow>
                          map_sum id (\<lambda>r3. r1 @ r2 @ r3) (unescape EncodeHost ('']'' @ colonPort))))))
      else (case cut_last (CHR '':'') host of
          Some (h, port) \<Rightarrow>
            if \<not> validOptionalPort ('':'' @ port) then Inl (ErrText ''invalid port after host'')
            else unescape EncodeHost host
        | None \<Rightarrow> unescape EncodeHost host))"

definition validUserinfo :: "string \<Rightarrow> bool" where
  "validUserinfo s \<longleftrightarrow> (\<forall>c \<in> set s. is_alpha c \<or> is_digit c \<or> c \<in> set ''-._:~!$&()*+,;=%@'' \<or>
     ord_of c = 39)"

definition parseUser :: "string \<Rightarrow> go_error + (string \<times> string option)" where
  "parseUser info =
     (if \<not> validUserinfo info then Inl (ErrText ''net/url: invalid userinfo'')
      else case cut (CHR '':'') info of
        None \<Rightarrow> map_sum id (\<lambda>u. (u, None)) (unescape EncodeUserPassword info)
      | Some (user, pass) \<Rightarrow>
          (case unescape EncodeUserPassword user of
             Inl e \<Rightarrow> Inl e
           | Inr u \<Rightarrow> map_sum id (\<lambda>p. (u, Some p)) (unescape EncodeUserPassword pass)))"

definition parseAuthority ::
  "string \<Rightarrow> go_error + ((string \<times> string option) option \<times> string)" where
  "parseAuthority authority =
     (case cut_last (CHR ''@'') authority of
        None \<Rightarrow> map_sum id (\<lambda>h. (None, h)) (parseHost authority)
      | Some (info, host) \<Rightarrow>
          (case parseHost host of
             Inl e \<Rightarrow> Inl e
           | Inr h \<Rightarrow> map_sum id (\<lambda>u. (Some u, h)) (parseUser info)))"

definition setPath :: "URL \<Rightarrow> string \<Rightarrow> go_error + URL" where
  "setPath u p = map_sum id (\<lambda>path. u\<lparr>url_Path := path,
     url_RawPath := (if p = escape EncodePath path then '''' else p)\<rparr>) (unescape EncodePath p)"

definition setFragment :: "URL \<Rightarrow> string \<Rightarrow> go_error + URL" where
  "setFragment u f = map_sum id (\<lambda>frag. u\<lparr>url_Fragment := frag,
     url_RawFragment := (if f = escape EncodeFragment frag then '''' else f)\<rparr>)
       (unescape EncodeFragment f)"

definition split_query :: "string \<Rightarrow> bool \<times> string \<times> string" where
  "split_query rest =
     (if HasSuffix rest ''?'' \<and> length (filter (\<lambda>c. c = CHR ''?'') rest) = 1
      then (True, butlast rest, '''')
      else (let (r, q) = cut_or_all (CHR ''?'') rest in (False, r, q)))"

text \<open>The part of \<open>parse\<close> after scheme and query: authority and path.\<close>

definition parse_rest :: "URL \<Rightarrow> string \<Rightarrow> go_error + URL" where
  "parse_rest u rest =
     (if \<not> HasPrefix rest ''/'' \<and> url_Scheme u \<noteq> '''' then Inr (u\<lparr>url_Opaque := rest\<rparr>)
      else if \<not> HasPrefix rest ''/'' \<and> CHR '':'' \<in> set (fst (cut_or_all (CHR ''/'') rest))
      then Inl (ErrText ''first path segment in URL cannot contain colon'')
      else if (url_Scheme u \<noteq> '''' \<or> \<not> HasPrefix rest ''///'') \<and> HasPrefix rest ''//'' then
        (let after = drop 2 rest;
             authority = takeWhile (\<lambda>c. c \<noteq> CHR ''/'') after;
             path = dropWhile (\<lambda>c. c \<noteq> CHR ''/'') after
         in case parseAuthority authority of
              Inl e \<Rightarrow> Inl e
            | Inr (user, host) \<Rightarrow> setPath (u\<lparr>url_User := user, url_Host := host\<rparr>) path)
      else setPath (if url_Scheme u \<noteq> '''' \<and> HasPrefix rest ''/'' then u\<lparr>url_OmitHost := True\<rparr> else u)
             rest)"

definition parse_no_fragment :: "string \<Rightarrow> go_error + URL" where
  "parse_no_fragment raw =
     (if \<exists>c \<in> set raw. is_ctl c then Inl (ErrText ''net/url: invalid control character in URL'')
      else if raw = ''*'' then Inr (empty_URL\<lparr>url_Path := ''*''\<rparr>)
      else case getScheme raw of
        Inl e \<Rightarrow> Inl e
      | Inr (scheme, rest0) \<Rightarrow>
          (let (force, rest, query) = split_query rest0 in
           parse_rest (empty_URL\<lparr>url_Scheme := ToLower scheme, url_ForceQuery := force,
                                 url_RawQuery := query\<rparr>) rest))"

definition Parse :: "string \<Rightarrow> go_error + URL" where
  "Parse raw =
     (let (u, frag) = cut_or_all (CHR ''#'') raw in
      case parse_no_fragment u of
        Inl e \<Rightarrow> Inl (ErrWrap (''parse '' @ u @ '': '') e)
      | Inr url \<Rightarrow>
          if frag = '''' then Inr url
          else (case setFragment url frag of
                  Inl e \<Rightarrow> Inl (ErrWrap (''parse '' @ raw @ '': '') e)
                | Inr url' \<Rightarrow> Inr url'))"

definition splitHostPort :: "string \<Rightarrow> string \<times> string" where
  "splitHostPort hostPort =
     (let (host, port) = (case cut_last (CHR '':'') hostPort of
            Some (h, p) \<Rightarrow> if validOptionalPort ('':'' @ p) then (h, p) else (hostPort, '''')
          | None \<Rightarrow> (hostPort, ''''))
      in if HasPrefix host ''['' \<and> HasSuffix host '']'' then (butlast (tl host), port) else (host, port))"

definition Hostname :: "URL \<Rightarrow> string" where
  "Hostname u = fst (splitHostPort (url_Host u))"

definition Port :: "URL \<Rightarrow> string" where
  "Port u = snd (splitHostPort (url_Host u))"

section \<open>Printing\<close>

definition EscapedPath :: "URL \<Rightarrow> string" where
  "EscapedPath u =
     (if url_RawPath u \<noteq> '''' \<and> validEncoded EncodePath (url_RawPath u) \<and>
         unescape EncodePath (url_RawPath u) = Inr (url_Path u) then url_RawPath u
      else if url_Path u = ''*'' then ''*''
      else escape EncodePath (url_Path u))"

definition EscapedFragment :: "URL \<Rightarrow> string" where
  "EscapedFragment u =
     (if url_RawFragment u \<noteq> '''' \<and> validEncoded EncodeFragment (url_RawFragment u) \<and>
         unescape EncodeFragment (url_RawFragment u) = Inr (url_Fragment u) then url_RawFragment u
      else escape EncodeFragment (url_Fragment u))"

fun Userinfo_String :: "string \<times> string option \<Rightarrow> string" where
  "Userinfo_String (user, None) = escape EncodeUserPassword user"
| "Userinfo_String (user, Some pass) =
     escape EncodeUserPassword user @ '':'' @ escape EncodeUserPassword pass"

definition authority_String :: "URL \<Rightarrow> string" where
  "authority_String u =
     (if url_Scheme u \<noteq> '''' \<or> url_Host u \<noteq> '''' \<or> url_User u \<noteq> None then
        (if url_OmitHost u \<and> url_Host u = '''' \<and> url_User u = None then ''''
         else (if url_Host u \<noteq> '''' \<or> url_Path u \<noteq> '''' \<or> url_User u \<noteq> None then ''//'' else '''')
           @ (case url_User u of None \<Rightarrow> '''' | Some ui \<Rightarrow> Userinfo_String ui @ ''@'')
           @ escape EncodeHost (url_Host u))
      else '''')"

definition url_String :: "URL \<Rightarrow> string" where
  "url_String u =
     (let scheme = (if url_Scheme u \<noteq> '''' then url_Scheme u @ '':'' else '''');
          body =
            (if url_Opaque u \<noteq> '''' then scheme @ url_Opaque u
             else
               (let path = EscapedPath u;
                    before = scheme @ authority_String u
                             @ (if path \<noteq> '''' \<and> \<not> HasPrefix path ''/'' \<and> url_Host u \<noteq> ''''
                                then ''/'' else '''');
                    dot = (if before = '''' \<and> CHR '':'' \<in> set (fst (cut_or_all (CHR ''/'') path))
                           then ''./'' else '''')
                in before @ dot @ path))
      in body @ (if url_ForceQuery u \<or> url_RawQuery u \<noteq> '''' then ''?'' @ url_RawQuery u else '''')
              @ (if url_Fragment u \<noteq> '''' then ''#'' @ EscapedFragment u else ''''))"

section \<open>Resolving a reference\<close>

text \<open>
  The loop of \<open>resolvePath\<close> over the elements of the path. The first argument is the text
  written so far without its leading slash, the second the flag \<open>first\<close>.
\<close>

fun resolve_elements :: "string \<Rightarrow> bool \<Rightarrow> string list \<Rightarrow> string" where
  "resolve_elements dst first [] = dst"
| "resolve_elements dst first (elem # es) =
     (if elem = ''.'' then
        (if es = [] then dst @ ''/'' else resolve_elements dst False es)
      else if elem = ''..'' then
        (let (dst', first') = (case cut_last (CHR ''/'') dst of
               None \<Rightarrow> ('''', True) | Some (before, _) \<Rightarrow> (before, first))
         in if es = [] then dst' @ ''/'' else resolve_elements dst' first' es)
      else resolve_elements (dst @ (if first then '''' else ''/'') @ elem) False es)"

definition resolvePath :: "string \<Rightarrow> string \<Rightarrow> string" where
  "resolvePath base ref =
     (let full = (if ref = '''' then base
                  else if \<not> HasPrefix ref ''/'' then
                    (case cut_last (CHR ''/'') base of
                       None \<Rightarrow> ref | Some (before, _) \<Rightarrow> before @ ''/'' @ ref)
                  else ref)
      in if full = '''' then ''''
         else (let r = ''/'' @ resolve_elements '''' True (Split full (CHR ''/''))
               in if 1 < length r \<and> r ! 1 = CHR ''/'' then tl r else r))"

text \<open>The error of \<open>setPath\<close> is ignored: the path stays.\<close>

definition setPath_ignore :: "URL \<Rightarrow> string \<Rightarrow> URL" where
  "setPath_ignore u p = (case setPath u p of Inl _ \<Rightarrow> u | Inr u' \<Rightarrow> u')"

definition ResolveReference :: "URL \<Rightarrow> URL \<Rightarrow> URL" where
  "ResolveReference u ref =
     (let url = (if url_Scheme ref = '''' then ref\<lparr>url_Scheme := url_Scheme u\<rparr> else ref) in
      if url_Scheme ref \<noteq> '''' \<or> url_Host ref \<noteq> '''' \<or> url_User ref \<noteq> None then
        setPath_ignore url (resolvePath (EscapedPath ref) '''')
      else if url_Opaque ref \<noteq> '''' then
        url\<lparr>url_User := None, url_Host := '''', url_Path := ''''\<rparr>
      else
        (let url1 = (if url_Path ref = '''' \<and> \<not> url_ForceQuery ref \<and> url_RawQuery ref = '''' then
               (if url_Fragment ref = '''' then
                  url\<lparr>url_RawQuery := url_RawQuery u, url_Fragment := url_Fragment u,
                      url_RawFragment := url_RawFragment u\<rparr>
                else url\<lparr>url_RawQuery := url_RawQuery u\<rparr>)
             else url)
         in setPath_ignore (url1\<lparr>url_Host := url_Host u, url_User := url_User u\<rparr>)
              (resolvePath (EscapedPath u) (EscapedPath ref))))"

section \<open>Facts\<close>

lemma cut_Some: "cut c s = Some (a, b) \<longleftrightarrow> s = a @ c # b \<and> c \<notin> set a"
proof (induction s arbitrary: a)
  case Nil
  then show ?case by simp
next
  case (Cons x s)
  show ?case
  proof (cases "x = c")
    case True
    then show ?thesis by (cases a) auto
  next
    case False
    have "cut c (x # s) = Some (a, b) \<longleftrightarrow> (\<exists>a'. a = x # a' \<and> cut c s = Some (a', b))"
      using False by auto
    also have "\<dots> \<longleftrightarrow> (\<exists>a'. a = x # a' \<and> s = a' @ c # b \<and> c \<notin> set a')"
      by (simp only: Cons.IH)
    also have "\<dots> \<longleftrightarrow> x # s = a @ c # b \<and> c \<notin> set a"
      using False by (cases a) auto
    finally show ?thesis .
  qed
qed

lemma cut_None: "cut c s = None \<longleftrightarrow> c \<notin> set s"
  by (induction s) auto

lemma cut_last_Some: "cut_last c s = Some (a, b) \<longleftrightarrow> s = a @ c # b \<and> c \<notin> set b"
proof -
  have "cut_last c s = Some (a, b) \<longleftrightarrow> cut c (rev s) = Some (rev b, rev a)"
    by (auto simp: cut_last_def)
  also have "\<dots> \<longleftrightarrow> rev s = rev b @ c # rev a \<and> c \<notin> set b"
    by (simp add: cut_Some)
  also have "\<dots> \<longleftrightarrow> s = a @ c # b \<and> c \<notin> set b"
    by (simp add: rev_swap)
  finally show ?thesis .
qed

lemma cut_last_None: "cut_last c s = None \<longleftrightarrow> c \<notin> set s"
  by (simp add: cut_last_def cut_None)

lemma Port_digits: "d \<in> set (Port u) \<Longrightarrow> is_digit d"
  by (auto simp: Port_def splitHostPort_def split: option.splits if_splits prod.splits)

lemma unescape_plain:
  "\<forall>c \<in> set s. c \<noteq> CHR ''%'' \<and> \<not> bad_literal m c \<Longrightarrow> unescape m s = Inr s"
  by (induction s) auto

lemma getScheme_from_append:
  assumes "\<forall>c \<in> set t. is_alpha c" and "acc @ t \<noteq> []"
  shows "getScheme_from raw acc (t @ CHR '':'' # s) = Inr (acc @ t, s)"
  using assms
proof (induction t arbitrary: acc)
  case Nil
  then show ?case by (simp add: is_alpha_def is_digit_def)
next
  case (Cons c t)
  then show ?case by simp
qed

lemma getScheme_word:
  "t \<noteq> [] \<Longrightarrow> \<forall>c \<in> set t. is_alpha c \<Longrightarrow> getScheme (t @ CHR '':'' # s) = Inr (t, s)"
  unfolding getScheme_def using getScheme_from_append [of t "[]" _ s] by simp

end
