(* ===== verification/Env_Config.thy ===== *)
theory Env_Config
  imports Go_Url
begin

text \<open>
  Configuration: the record \<open>Env\<close> and the field parsers of \<open>pkg/agent/env.go\<close>, the
  Director's address (\<open>connInfoFromAddress\<close> of \<open>pkg/agent/comm.go\<close>) and \<open>MaxDuration\<close>.
\<close>

section \<open>The Director's address\<close>

record ConnInfo =
  ci_hostname :: string
  ci_port :: string
  ci_secure :: bool

definition defaultHostname :: string where "defaultHostname = ''app.getambassador.io''"
definition defaultPort :: string where "defaultPort = ''443''"

definition connInfoFromAddress :: "string \<Rightarrow> go_error + ConnInfo" where
  "connInfoFromAddress address =
     (case Parse address of
        Inl err \<Rightarrow> Inl err
      | Inr endpoint \<Rightarrow>
          (let hostname = (if Hostname endpoint = '''' then defaultHostname else Hostname endpoint);
               port = (if Port endpoint = '''' then defaultPort else Port endpoint);
               secure = (if url_Scheme endpoint = ''http'' then False else True)
           in Inr \<lparr>ci_hostname = hostname, ci_port = port, ci_secure = secure\<rparr>))"

section \<open>Durations\<close>

definition MaxDuration :: "duration \<Rightarrow> duration \<Rightarrow> duration" where
  "MaxDuration a b = (if sint b < sint a then a else b)"

definition defaultMinReportPeriod :: duration where
  "defaultMinReportPeriod = 30 * Second"

text \<open>
  \<open>time.ParseDuration\<close>: a sign and a sequence of decimal numbers with units. The product of a
  fraction with its unit is computed in floating point; that product is the parameter
  \<open>fmul\<close> (digits of the fraction, their number, the unit).
\<close>

definition unit_ns :: "string \<Rightarrow> nat option" where
  "unit_ns u = map_of [(''ns'', 1), (''us'', 1000), (''ms'', 1000000), (''s'', 1000000000),
                       (''m'', 60000000000), (''h'', 3600000000000)] u"

definition duration_syntax :: "go_error" where
  "duration_syntax = ErrText ''time: invalid duration''"

function duration_sum :: "(nat \<Rightarrow> nat \<Rightarrow> nat \<Rightarrow> nat) \<Rightarrow> nat \<Rightarrow> string \<Rightarrow> go_error + nat" where
  "duration_sum fmul d s =
    (if s = [] then Inr d
     else if \<not> (is_digit (hd s) \<or> hd s = CHR ''.'') then Inl duration_syntax
     else
       (let int_part = takeWhile is_digit s;
            s1 = dropWhile is_digit s;
            dot = (s1 \<noteq> [] \<and> hd s1 = CHR ''.'');
            frac = (if dot then takeWhile is_digit (tl s1) else []);
            s2 = (if dot then dropWhile is_digit (tl s1) else s1);
            unit_txt = takeWhile (\<lambda>c. \<not> (c = CHR ''.'' \<or> is_digit c)) s2;
            rest = dropWhile (\<lambda>c. \<not> (c = CHR ''.'' \<or> is_digit c)) s2;
            v = dec_value int_part;
            f = dec_value frac
        in if int_part = [] \<and> frac = [] then Inl duration_syntax
           else if 2 ^ 63 < v then Inl duration_syntax
           else if unit_txt = [] then Inl (ErrText ''time: missing unit in duration'')
           else case unit_ns unit_txt of
             None \<Rightarrow> Inl (ErrText ''time: unknown unit in duration'')
           | Some unit \<Rightarrow>
               let total = v * unit + (if 0 < f then fmul f (length frac) unit else 0) in
               if 2 ^ 63 < v * unit \<or> 2 ^ 63 < total \<or> 2 ^ 63 < d + total then Inl duration_syntax
               else duration_sum fmul (d + total) rest))"
  by pat_completeness auto
termination
proof (relation "measure (\<lambda>(_, _, s). length s)", goal_cases)
  case 1
  then show ?case by simp
next
  case (2 fmul d s ip s1 dot frac s2 u rest v f unit total)
  have "length s2 \<le> length s"
    using 2 length_dropWhile_le [of is_digit s] length_dropWhile_le [of is_digit "tl s1"]
    by (auto simp: Let_def)
  moreover have "length s2 = length u + length rest"
    using 2 by (metis length_append takeWhile_dropWhile_id)
  moreover have "0 < length u" using 2 by simp
  ultimately have "length rest < length s" by linarith
  then show ?case by simp
qed

declare duration_sum.simps [simp del]

definition ParseDuration :: "(nat \<Rightarrow> nat \<Rightarrow> nat \<Rightarrow> nat) \<Rightarrow> string \<Rightarrow> go_error + duration" where
  "ParseDuration fmul s =
     (let neg = (s \<noteq> [] \<and> hd s = CHR ''-'');
          s1 = (if s \<noteq> [] \<and> (hd s = CHR ''-'' \<or> hd s = CHR ''+'') then tl s else s)
      in if s1 = ''0'' then Inr 0
         else if s1 = [] then Inl duration_syntax
         else (case duration_sum fmul 0 s1 of
                 Inl e \<Rightarrow> Inl e
               | Inr d \<Rightarrow>
                   if neg then Inr (- of_nat d)
                   else if 2 ^ 63 - 1 < d then Inl duration_syntax
                   else Inr (of_nat d)))"

section \<open>Field parsers\<close>

text \<open>Log levels are parsed by logrus; its parser is a parameter. \<open>InfoLevel\<close> is 4.\<close>

definition parse_log_level :: "(string \<Rightarrow> go_error + nat) \<Rightarrow> string \<Rightarrow> go_error + nat" where
  "parse_log_level logrus str = (if str = '''' then Inr 4 else logrus str)"

definition parse_report_period ::
  "(nat \<Rightarrow> nat \<Rightarrow> nat \<Rightarrow> nat) \<Rightarrow> string \<Rightarrow> go_error + duration" where
  "parse_report_period fmul str =
     (if str = '''' then Inr defaultMinReportPeriod
      else (case ParseDuration fmul str of
              Inl err \<Rightarrow> Inl err
            | Inr reportPeriod \<Rightarrow> Inr (MaxDuration defaultMinReportPeriod reportPeriod)))"

definition parse_split_trim :: "string \<Rightarrow> string list" where
  "parse_split_trim str =
     (if length str = 0 then [] else map TrimSpace (Split str (CHR '' '')))"

definition parse_port_number :: "string \<Rightarrow> go_error + 16 word" where
  "parse_port_number str = ParseUint16 str"

record Env =
  LogLevel :: nat
  AESSnapshotURL :: URL
  AESDiagnosticsURL :: URL
  AESReportDiagnostics :: bool
  ScoutID :: string
  ClusterID :: string
  AmbassadorID :: string
  AmbassadorAPIKey :: string
  ConnAddress :: ConnInfo
  AgentNamespace :: string
  AgentServiceName :: string
  AgentConfigResourceName :: string
  AgentWatchFieldSelector :: string
  MinReportPeriod :: duration
  NamespacesToWatch :: "string list"
  RpcInterceptHeaderKey :: string
  RpcInterceptHeaderValue :: string
  ServerHost :: string
  ServerPort :: "16 word"

text \<open>
  \<open>LoadEnv\<close>: the library \<open>envconfig\<close> fills the record and reports warnings and fatal errors;
  either kind makes loading fail.
\<close>

definition LoadEnv ::
  "((string \<Rightarrow> string option) \<Rightarrow> Env \<times> go_error list \<times> go_error list) \<Rightarrow>
   (string \<Rightarrow> string option) \<Rightarrow> go_error list + Env" where
  "LoadEnv parseFromEnv lookupFunc =
     (case parseFromEnv lookupFunc of (env, warn, fatal) \<Rightarrow>
        let errs = warn @ fatal in
        if length errs > 0 then Inl errs else Inr env)"

section \<open>Facts\<close>

lemma sint_defaultMinReportPeriod [simp]: "sint defaultMinReportPeriod = 30000000000"
  by (simp add: defaultMinReportPeriod_def)

lemma sint_MaxDuration: "sint (MaxDuration a b) = max (sint a) (sint b)"
  by (simp add: MaxDuration_def)

lemma MaxDuration_ge: "sint b \<le> sint (MaxDuration a b)" "sint a \<le> sint (MaxDuration a b)"
  by (simp_all add: sint_MaxDuration)

lemma parse_report_period_min:
  "parse_report_period fmul str = Inr d \<Longrightarrow> 30000000000 \<le> sint d"
  by (auto simp: parse_report_period_def sint_MaxDuration split: if_splits sum.splits)

lemma connInfo_nonempty:
  assumes "connInfoFromAddress address = Inr c"
  shows "ci_hostname c \<noteq> '''' \<and> ci_port c \<noteq> '''' \<and> (\<forall>d \<in> set (ci_port c). is_digit d)"
proof -
  from assms obtain u where "Parse address = Inr u"
    and c: "c = \<lparr>ci_hostname = (if Hostname u = '''' then defaultHostname else Hostname u),
      ci_port = (if Port u = '''' then defaultPort else Port u),
      ci_secure = (url_Scheme u \<noteq> ''http'')\<rparr>"
    by (auto simp: connInfoFromAddress_def Let_def split: sum.splits)
  have "\<forall>d \<in> set defaultPort. is_digit d" "defaultPort \<noteq> ''''" "defaultHostname \<noteq> ''''"
    by (simp_all add: defaultPort_def defaultHostname_def is_digit_def)
  with c Port_digits [of _ u] show ?thesis by auto
qed

lemma Split_trim_no_space: "x \<in> set (parse_split_trim s) \<Longrightarrow> CHR '' '' \<notin> set x"
proof -
  assume "x \<in> set (parse_split_trim s)"
  then obtain y where y: "y \<in> set (Split s (CHR '' ''))" and x: "x = TrimSpace y"
    by (auto simp: parse_split_trim_def split: if_splits)
  have "set x \<subseteq> set y"
    unfolding x TrimSpace_def by (auto dest!: set_dropWhileD)
  with Split_no_sep [OF y] show ?thesis by blast
qed

lemma Split_snoc: "Split (s @ [c]) c = Split s c @ [[]]"
  by (induction s) (auto split: list.split)

lemma host_char_plain:
  "is_alpha c \<or> is_digit c \<or> c \<in> {CHR ''.'', CHR ''-'', CHR '':''} \<Longrightarrow>
   c \<noteq> CHR ''%'' \<and> \<not> bad_literal EncodeHost c"
proof -
  assume a: "is_alpha c \<or> is_digit c \<or> c \<in> {CHR ''.'', CHR ''-'', CHR '':''}"
  have "\<not> is_alpha (CHR ''%'')" "\<not> is_digit (CHR ''%'')"
    by (simp_all add: is_alpha_def is_digit_def)
  with a have "c \<noteq> CHR ''%''" by auto
  moreover have "host_char c" using a by (auto simp: host_char_def)
  ultimately show ?thesis by (simp add: bad_literal_def)
qed

text \<open>An address with a scheme, a plain host and a port is taken apart exactly.\<close>

lemma parseHost_plain:
  assumes "\<forall>c \<in> set h. is_alpha c \<or> is_digit c \<or> c = CHR ''.'' \<or> c = CHR ''-''"
    and "\<forall>c \<in> set p. is_digit c" and "h \<noteq> []"
  shows "parseHost (h @ CHR '':'' # p) = Inr (h @ CHR '':'' # p)"
    and "splitHostPort (h @ CHR '':'' # p) = (h, p)"
proof -
  have colon: "CHR '':'' \<notin> set p" using assms(2) by (auto simp: is_digit_def)
  then have cl: "cut_last (CHR '':'') (h @ CHR '':'' # p) = Some (h, p)"
    by (simp add: cut_last_Some)
  have hd: "\<not> HasPrefix (h @ s) ''[''" for s
    using assms(1,3) by (cases h) (auto simp: HasPrefix_def is_alpha_def is_digit_def)
  have "\<forall>c \<in> set (h @ CHR '':'' # p). is_alpha c \<or> is_digit c \<or> c \<in> {CHR ''.'', CHR ''-'', CHR '':''}"
    using assms(1,2) by auto
  then have plain: "\<forall>c \<in> set (h @ CHR '':'' # p). c \<noteq> CHR ''%'' \<and> \<not> bad_literal EncodeHost c"
    using host_char_plain by blast
  show "parseHost (h @ CHR '':'' # p) = Inr (h @ CHR '':'' # p)"
    using hd [of "CHR '':'' # p"] cl assms(2) unescape_plain [OF plain]
    by (simp add: parseHost_def)
  show "splitHostPort (h @ CHR '':'' # p) = (h, p)"
    using cl assms(2) hd [of "[]"] by (simp add: splitHostPort_def)
qed

section \<open>Properties\<close>

text \<open>
  The report period read from the environment is never below thirty seconds, whatever the
  text says, and it is never shorter than the duration the text denotes.
\<close>

theorem report_period_floor:
  assumes "parse_report_period fmul str = Inr d"
  shows "30000000000 \<le> sint d \<and>
    (case ParseDuration fmul str of Inl e \<Rightarrow> str = '''' | Inr p \<Rightarrow> sint p \<le> sint d \<or> str = '''')"
  using assms parse_report_period_min [OF assms]
  by (auto simp: parse_report_period_def sint_MaxDuration split: if_splits sum.splits)

lemma report_period_floor_witness:
  "parse_report_period (\<lambda>a b c. a) '''' = Inr defaultMinReportPeriod \<and>
   30000000000 \<le> sint defaultMinReportPeriod"
proof -
  have "parse_report_period (\<lambda>a b c. a) '''' = Inr defaultMinReportPeriod"
    by (simp add: parse_report_period_def)
  from report_period_floor [OF this] this show ?thesis by blast
qed

text \<open>
  An accepted connection address yields a host and a port that are not empty, the port made
  of digits; the connection is insecure only if the address says \<open>http\<close>.
\<close>

theorem connInfo_usable:
  assumes "connInfoFromAddress address = Inr c"
  shows "ci_hostname c \<noteq> '''' \<and> ci_port c \<noteq> '''' \<and> (\<forall>d \<in> set (ci_port c). is_digit d) \<and>
    (ci_secure c = (case Parse address of Inl _ \<Rightarrow> False | Inr u \<Rightarrow> url_Scheme u \<noteq> ''http''))"
  using connInfo_nonempty [OF assms] assms
  by (auto simp: connInfoFromAddress_def Let_def split: sum.splits)

lemma connInfo_usable_witness:
  "connInfoFromAddress '''' = Inr \<lparr>ci_hostname = defaultHostname, ci_port = defaultPort, ci_secure = True\<rparr>
   \<and> defaultHostname \<noteq> ''''"
proof -
  have "connInfoFromAddress '''' = Inr \<lparr>ci_hostname = defaultHostname, ci_port = defaultPort, ci_secure = True\<rparr>"
    by (simp add: connInfoFromAddress_def Parse_def parse_no_fragment_def cut_or_all_def getScheme_def
        split_query_def HasSuffix_def HasPrefix_def parse_rest_def setPath_def empty_URL_def ToLower_def
        escape_def Hostname_def Port_def splitHostPort_def cut_last_def)
  from connInfo_usable [OF this] this show ?thesis by simp
qed

text \<open>
  A list of namespaces with a doubled or trailing space holds the empty namespace, which
  stands for the whole cluster.
\<close>

theorem split_trim_empty_namespace:
  "'''' \<in> set (parse_split_trim (s @ '' ''))"
proof -
  have "'''' \<in> set (Split (s @ '' '') (CHR '' ''))"
    by (simp add: Split_snoc)
  then have "TrimSpace '''' \<in> TrimSpace ` set (Split (s @ '' '') (CHR '' ''))" by (rule imageI)
  then show ?thesis by (simp add: parse_split_trim_def TrimSpace_def)
qed

end
