(* ===== verification/Comm.thy ===== *)
theory Comm
  imports Api_Messages Env_Config
begin

text \<open>
  The connection to the Director (\<open>pkg/agent/comm.go\<close>): dialling and closing, the headers of a
  call, the upload of a report in chunks, and the retriever, the goroutine that receives
  directives and hands them to the agent over a channel of capacity one. The generated gRPC
  client and the dialler are parameters.
\<close>

section \<open>The client of the Director\<close>

type_synonym 'w rpc = "'w \<Rightarrow> go_error option \<times> 'w"

record StreamMetricsMessage =
  sm_Identity :: "Identity option"
  sm_EnvoyMetrics :: string

record 'w DirectorClient =
  cl_ReportCommandResult :: "string list \<Rightarrow> CommandResult \<Rightarrow> 'w rpc"
  cl_ReportStream :: "string list \<Rightarrow> 'w rpc"
  cl_ReportStream_Send :: "byte list \<Rightarrow> 'w rpc"
  cl_ReportStream_CloseAndRecv :: "'w rpc"
  cl_StreamDiagnostics :: "string list \<Rightarrow> 'w rpc"
  cl_StreamDiagnostics_Send :: "byte list \<Rightarrow> 'w rpc"
  cl_StreamDiagnostics_CloseAndRecv :: "'w rpc"
  cl_StreamMetrics :: "string list \<Rightarrow> 'w rpc"
  cl_StreamMetrics_Send :: "StreamMetricsMessage \<Rightarrow> 'w rpc"
  cl_StreamMetrics_CloseSend :: "'w rpc"

section \<open>The connection\<close>

text \<open>
  The channels are part of the connection: \<open>cc_directives\<close> is the buffer of a channel of
  capacity one, \<open>cc_rptWake\<close> tells whether the wake-up channel, of capacity one too, is full.
  \<open>cc_retHeaders\<close> are the headers of the retriever's context, \<open>cc_retCancelled\<close> says whether
  that context is cancelled.
\<close>

datatype credentials = TLS string | Insecure

record RPCComm =
  cc_address :: string
  cc_creds :: credentials
  cc_connClosed :: bool
  cc_retCancelled :: bool
  cc_retHeaders :: "string list"
  cc_rptWake :: bool
  cc_agentID :: "Identity option"
  cc_directives :: "Directive option list"
  cc_extraHeaders :: "string list"

definition APIKeyMetadataKey :: string where "APIKeyMetadataKey = ''x-ambassador-api-key''"

definition getHeaders :: "RPCComm \<Rightarrow> string \<Rightarrow> string list" where
  "getHeaders c apiKey = [APIKeyMetadataKey, apiKey] @ cc_extraHeaders c"

definition NewComm ::
  "(string \<Rightarrow> credentials \<Rightarrow> 'w rpc) \<Rightarrow> ConnInfo \<Rightarrow> Identity option \<Rightarrow> string \<Rightarrow> string list \<Rightarrow>
   'w \<Rightarrow> (go_error + RPCComm) \<times> 'w" where
  "NewComm dial connInfo agentID apiKey extraHeaders w =
     (let address = ci_hostname connInfo @ '':'' @ ci_port connInfo;
          creds = (if ci_secure connInfo then TLS (ci_hostname connInfo) else Insecure)
      in case dial address creds w of
           (Some err, w1) \<Rightarrow> (Inl err, w1)
         | (None, w1) \<Rightarrow>
             (let c = \<lparr>cc_address = address, cc_creds = creds, cc_connClosed = False,
                        cc_retCancelled = False, cc_retHeaders = [], cc_rptWake = False,
                        cc_agentID = agentID, cc_directives = [], cc_extraHeaders = extraHeaders\<rparr>
              in (Inr (c\<lparr>cc_retHeaders := getHeaders c apiKey\<rparr>), w1)))"

definition Close :: "RPCComm \<Rightarrow> RPCComm" where
  "Close c = c\<lparr>cc_retCancelled := True, cc_connClosed := True\<rparr>"

text \<open>The sends on \<open>rptWake\<close> do not block: a full channel stays full.\<close>

definition wake :: "RPCComm \<Rightarrow> RPCComm" where
  "wake c = c\<lparr>cc_rptWake := True\<rparr>"

definition comm_ReportCommandResult ::
  "'w DirectorClient \<Rightarrow> RPCComm \<Rightarrow> CommandResult \<Rightarrow> string \<Rightarrow> 'w rpc" where
  "comm_ReportCommandResult client c result apiKey w =
     (case cl_ReportCommandResult client (getHeaders c apiKey) result w of
        (Some err, w1) \<Rightarrow> (Some (ErrWrap ''ReportCommandResult error: '' err), w1)
      | (None, w1) \<Rightarrow> (None, w1))"

section \<open>Chunked upload\<close>

text \<open>
  The two upload loops of the file have the same body. \<open>data[i:j]\<close> is the slice; the loop
  leaves at the first error of a send.
\<close>

definition CHUNKSIZE :: nat where "CHUNKSIZE = 64 * 1024 - 4"

definition slice :: "nat \<Rightarrow> nat \<Rightarrow> 'a list \<Rightarrow> 'a list" where
  "slice i j data = take (j - i) (drop i data)"

function send_from :: "(byte list \<Rightarrow> 'w rpc) \<Rightarrow> byte list \<Rightarrow> nat \<Rightarrow> 'w rpc" where
  "send_from send data i w =
     (if i < length data then
        (let j = i + CHUNKSIZE;
             chunk = (if j < length data then slice i j data else drop i data)
         in case send chunk w of
              (Some err, w1) \<Rightarrow> (Some err, w1)
            | (None, w1) \<Rightarrow> send_from send data j w1)
      else (None, w))"
  by pat_completeness auto
termination
  by (relation "measure (\<lambda>(send, data, i, w). length data - i)") (auto simp: CHUNKSIZE_def)

declare send_from.simps [simp del]

definition upload ::
  "string \<Rightarrow> 'w rpc \<Rightarrow> (byte list \<Rightarrow> 'w rpc) \<Rightarrow> 'w rpc \<Rightarrow> byte list \<Rightarrow> 'w rpc" where
  "upload what open_stream send close data w =
     (case open_stream w of
        (Some err, w1) \<Rightarrow> (Some (ErrWrap (what @ ''.Open: '') err), w1)
      | (None, w1) \<Rightarrow>
     (case send_from send data 0 w1 of
        (Some err, w2) \<Rightarrow> (Some (ErrWrap (what @ ''.Send: '') err), w2)
      | (None, w2) \<Rightarrow>
     (case close w2 of
        (Some err, w3) \<Rightarrow> (Some (ErrWrap (what @ ''.Close: '') err), w3)
      | (None, w3) \<Rightarrow> (None, w3))))"

text \<open>
  \<open>Report\<close> and \<open>StreamDiagnostics\<close> wake the retriever (a change of the connection) and upload
  the marshalled report.
\<close>

definition comm_Report ::
  "'w DirectorClient \<Rightarrow> (Snapshot_report \<Rightarrow> go_error + byte list) \<Rightarrow> RPCComm \<Rightarrow> Snapshot_report \<Rightarrow>
   string \<Rightarrow> 'w \<Rightarrow> RPCComm \<times> go_error option \<times> 'w" where
  "comm_Report client marshal c report apiKey w =
     (let c' = wake c in
      case marshal report of
        Inl err \<Rightarrow> (c', Some (ErrWrap ''json.Marshal: '' err), w)
      | Inr data \<Rightarrow> (c', upload ''ReportStream'' (cl_ReportStream client (getHeaders c' apiKey))
          (cl_ReportStream_Send client) (cl_ReportStream_CloseAndRecv client) data w))"

definition comm_StreamDiagnostics ::
  "'w DirectorClient \<Rightarrow> (Diagnostics_report \<Rightarrow> go_error + byte list) \<Rightarrow> RPCComm \<Rightarrow>
   Diagnostics_report \<Rightarrow> string \<Rightarrow> 'w \<Rightarrow> RPCComm \<times> go_error option \<times> 'w" where
  "comm_StreamDiagnostics client marshal c report apiKey w =
     (let c' = wake c in
      case marshal report of
        Inl err \<Rightarrow> (c', Some (ErrWrap ''json.Marshal: '' err), w)
      | Inr data \<Rightarrow> (c', upload ''ReportDiagnosticsStream''
          (cl_StreamDiagnostics client (getHeaders c' apiKey))
          (cl_StreamDiagnostics_Send client) (cl_StreamDiagnostics_CloseAndRecv client) data w))"

lemma report_wakes:
  "fst (comm_Report client m c r k w) = wake c"
  "fst (comm_StreamDiagnostics client m' c r' k w) = wake c"
  by (simp_all add: comm_Report_def comm_StreamDiagnostics_def Let_def split: sum.split)

text \<open>The mutex makes the whole of \<open>StreamMetrics\<close> one step.\<close>

definition comm_StreamMetrics ::
  "'w DirectorClient \<Rightarrow> RPCComm \<Rightarrow> StreamMetricsMessage \<Rightarrow> string \<Rightarrow> 'w rpc" where
  "comm_StreamMetrics client c metrics apiKey w =
     (case cl_StreamMetrics client (getHeaders c apiKey) w of
        (Some err, w1) \<Rightarrow> (Some err, w1)
      | (None, w1) \<Rightarrow>
     (case cl_StreamMetrics_Send client metrics w1 of
        (Some err, w2) \<Rightarrow> (Some err, w2)
      | (None, w2) \<Rightarrow> cl_StreamMetrics_CloseSend client w2))"

section \<open>What an upload sends\<close>

text \<open>The chunks of a text, and the loop over them.\<close>

function chunks :: "'a list \<Rightarrow> 'a list list" where
  "chunks data = (if data = [] then [] else take CHUNKSIZE data # chunks (drop CHUNKSIZE data))"
  by pat_completeness auto
termination by (relation "measure length") (auto simp: CHUNKSIZE_def)

declare chunks.simps [simp del]

fun send_all :: "(byte list \<Rightarrow> 'w rpc) \<Rightarrow> byte list list \<Rightarrow> 'w rpc" where
  "send_all send [] w = (None, w)"
| "send_all send (c # cs) w =
     (case send c w of (Some err, w1) \<Rightarrow> (Some err, w1) | (None, w1) \<Rightarrow> send_all send cs w1)"

lemma chunk_slice:
  "(if i + CHUNKSIZE < length data then slice i (i + CHUNKSIZE) data else drop i data) =
     take CHUNKSIZE (drop i data)"
  by (simp add: slice_def)

lemma send_from_chunks: "send_from send data i w = send_all send (chunks (drop i data)) w"
proof (induction send data i w rule: send_from.induct)
  case (1 send data i w)
  show ?case
  proof (cases "i < length data")
    case True
    then have ch: "chunks (drop i data) =
        take CHUNKSIZE (drop i data) # chunks (drop (i + CHUNKSIZE) data)"
      by (subst chunks.simps) (simp add: add.commute)
    show ?thesis
    proof (cases "send (take CHUNKSIZE (drop i data)) w")
      case (Pair e w1)
      then show ?thesis
        using 1 [OF True refl refl] True
        by (subst send_from.simps) (simp add: ch chunk_slice Let_def split: option.splits)
    qed
  next
    case False
    then show ?thesis by (subst send_from.simps) (simp add: chunks.simps)
  qed
qed

lemma concat_chunks: "concat (chunks data) = data"
proof (induction data rule: chunks.induct)
  case (1 data)
  then show ?case by (subst chunks.simps) simp
qed

lemma chunks_size: "c \<in> set (chunks data) \<Longrightarrow> c \<noteq> [] \<and> length c \<le> CHUNKSIZE"
proof (induction data rule: chunks.induct)
  case (1 data)
  from 1(2) have ne: "data \<noteq> []" by (subst (asm) chunks.simps) (auto split: if_splits)
  with 1(2) have "c = take CHUNKSIZE data \<or> c \<in> set (chunks (drop CHUNKSIZE data))"
    by (subst (asm) chunks.simps) simp
  then show ?case using 1(1) [OF ne] ne by (auto simp: CHUNKSIZE_def)
qed

lemma length_chunks: "length (chunks data) = (length data + CHUNKSIZE - 1) div CHUNKSIZE"
proof (induction data rule: chunks.induct)
  case (1 data)
  show ?case
  proof (cases "data = []")
    case True
    then show ?thesis by (simp add: chunks.simps CHUNKSIZE_def)
  next
    case False
    have "length (chunks data) = Suc ((length data - CHUNKSIZE + CHUNKSIZE - 1) div CHUNKSIZE)"
      using 1 False by (subst chunks.simps) simp
    also have "\<dots> = (length data + CHUNKSIZE - 1) div CHUNKSIZE"
    proof (cases "length data \<le> CHUNKSIZE")
      case True
      then have "(length data + CHUNKSIZE - 1) div CHUNKSIZE = 1"
        using False by (intro div_nat_eqI) (auto simp: CHUNKSIZE_def Suc_le_eq)
      then show ?thesis using True by (simp add: CHUNKSIZE_def)
    next
      case False
      then show ?thesis by (simp add: CHUNKSIZE_def)
    qed
    finally show ?thesis .
  qed
qed

lemma send_all_observed:
  assumes "\<And>c w. obs (snd (send c w)) = obs w @ [c]" and "send_all send cs w = (e, w')"
  shows "\<exists>n \<le> length cs. obs w' = obs w @ take n cs \<and> (e = None \<longrightarrow> n = length cs)"
  using assms(2)
proof (induction cs arbitrary: w)
  case Nil
  then show ?case by simp
next
  case (Cons c cs)
  obtain e1 w1 where s: "send c w = (e1, w1)" by fastforce
  then have w1: "obs w1 = obs w @ [c]" using assms(1) [of c w] by simp
  show ?case
  proof (cases e1)
    case None
    with Cons.prems s have "send_all send cs w1 = (e, w')" by simp
    from Cons.IH [OF this] obtain n where "n \<le> length cs" "obs w' = obs w1 @ take n cs"
      "e = None \<longrightarrow> n = length cs" by blast
    then show ?thesis by (intro exI [of _ "Suc n"]) (simp add: w1)
  next
    case (Some err)
    with Cons.prems s have "w' = w1" "e = Some err" by auto
    then show ?thesis by (intro exI [of _ 1]) (simp add: w1)
  qed
qed

text \<open>A transport as far as an upload goes: sending a chunk appends it, the other calls send nothing.\<close>

definition transmits ::
  "('w \<Rightarrow> byte list list) \<Rightarrow> 'w rpc \<Rightarrow> (byte list \<Rightarrow> 'w rpc) \<Rightarrow> 'w rpc \<Rightarrow> bool" where
  "transmits obs open_stream send close \<longleftrightarrow>
     keeps obs open_stream \<and> keeps obs close \<and> (\<forall>c w. obs (snd (send c w)) = obs w @ [c])"

lemma upload_observed:
  assumes "transmits obs open_stream send close" and "upload what open_stream send close data w = (e, w')"
  shows "\<exists>n \<le> length (chunks data). obs w' = obs w @ take n (chunks data) \<and> (e = None \<longrightarrow> n = length (chunks data))"
proof -
  from assms(1) have k: "keeps obs open_stream" "keeps obs close"
    and s: "\<And>c w. obs (snd (send c w)) = obs w @ [c]" by (simp_all add: transmits_def)
  obtain e1 w1 where o: "open_stream w = (e1, w1)" by fastforce
  show ?thesis
  proof (cases e1)
    case (Some err)
    then show ?thesis using assms(2) o keepsD [OF k(1) o] by (intro exI [of _ 0]) (auto simp: upload_def)
  next
    case None
    obtain e2 w2 where f: "send_from send data 0 w1 = (e2, w2)" by fastforce
    then have "send_all send (chunks data) w1 = (e2, w2)" by (simp add: send_from_chunks)
    from send_all_observed [OF s this] obtain n where n: "n \<le> length (chunks data)"
      "obs w2 = obs w1 @ take n (chunks data)" "e2 = None \<longrightarrow> n = length (chunks data)" by blast
    have w1: "obs w1 = obs w" by (rule keepsD [OF k(1) o])
    obtain e3 w3 where c: "close w2 = (e3, w3)" by fastforce
    then have w3: "obs w3 = obs w2" by (rule keepsD [OF k(2)])
    have "obs w' = obs w2" "e2 = None \<or> e \<noteq> None"
      using assms(2) o None f c w3 by (auto simp: upload_def split: option.splits)
    with n w1 show ?thesis by auto
  qed
qed

section \<open>The retriever\<close>

text \<open>
  \<open>retrieveLoop\<close> with \<open>retrieve\<close> inlined. \<open>Opening\<close> is the call of \<open>Retrieve\<close>, \<open>Receiving\<close> the
  call of \<open>Recv\<close>, \<open>Holding\<close> the first \<open>select\<close> (the channel of directives or cancellation),
  \<open>Waiting\<close> the second one (a wake-up or cancellation). The other events are the agent's: a
  report wakes, the agent takes a directive, \<open>Close\<close> cancels. Where both cases of a \<open>select\<close>
  are ready, either step is possible, as in Go.
\<close>

datatype retr_pc = Opening | Receiving | Holding "Directive option" | Waiting | Exited

datatype retr_event =
    OpenOk | OpenErr | Recv "Directive option" | RecvErr | Deliver | Drop | Restart | Exit
  | Wake | Take "Directive option" | Cancel

type_synonym retr_state = "retr_pc \<times> RPCComm"

inductive retr_step :: "retr_state \<Rightarrow> retr_event \<Rightarrow> retr_state \<Rightarrow> bool" where
  open_ok: "retr_step (Opening, c) OpenOk (Receiving, c)"
| open_err: "retr_step (Opening, c) OpenErr (Waiting, c)"
| recv: "retr_step (Receiving, c) (Recv d) (Holding d, c)"
| recv_err: "retr_step (Receiving, c) RecvErr (Waiting, c)"
| deliver: "length (cc_directives c) < 1 \<Longrightarrow>
    retr_step (Holding d, c) Deliver (Receiving, c\<lparr>cc_directives := cc_directives c @ [d]\<rparr>)"
| drop_held: "cc_retCancelled c \<Longrightarrow> retr_step (Holding d, c) Drop (Waiting, c)"
| restart: "cc_rptWake c \<Longrightarrow> retr_step (Waiting, c) Restart (Opening, c\<lparr>cc_rptWake := False\<rparr>)"
| exit: "cc_retCancelled c \<Longrightarrow> retr_step (Waiting, c) Exit (Exited, c)"
| wake_up: "retr_step (pc, c) Wake (pc, wake c)"
| take_one: "cc_directives c = d # ds \<Longrightarrow>
    retr_step (pc, c) (Take d) (pc, c\<lparr>cc_directives := ds\<rparr>)"
| cancel: "retr_step (pc, c) Cancel (pc, Close c)"

inductive_cases retr_stepE: "retr_step s e s'"
inductive_simps retr_step_pc_simps:
  "retr_step (Opening, c) e s'" "retr_step (Receiving, c) e s'" "retr_step (Waiting, c) e s'"
  "retr_step (Exited, c) e s'"

inductive retr_run :: "retr_state \<Rightarrow> retr_event list \<Rightarrow> retr_state \<Rightarrow> bool" where
  run_Nil: "retr_run s [] s"
| run_snoc: "retr_run s tr s' \<Longrightarrow> retr_step s' e s'' \<Longrightarrow> retr_run s (tr @ [e]) s''"

text \<open>What a trace received, delivered to the agent, and how often it opened a stream.\<close>

definition received :: "retr_event list \<Rightarrow> Directive option list" where
  "received tr = concat (map (\<lambda>e. case e of Recv d \<Rightarrow> [d] | _ \<Rightarrow> []) tr)"

definition taken :: "retr_event list \<Rightarrow> Directive option list" where
  "taken tr = concat (map (\<lambda>e. case e of Take d \<Rightarrow> [d] | _ \<Rightarrow> []) tr)"

definition opens :: "retr_event list \<Rightarrow> nat" where
  "opens tr = length (filter (\<lambda>e. e = OpenOk \<or> e = OpenErr) tr)"

definition wakes :: "retr_event list \<Rightarrow> nat" where
  "wakes tr = length (filter (\<lambda>e. e = Wake) tr)"

fun held :: "retr_pc \<Rightarrow> Directive option list" where
  "held (Holding d) = [d]"
| "held pc = []"

lemma retr_trace_simps [simp]:
  "received [] = []" "taken [] = []" "opens [] = 0" "wakes [] = 0"
  "received (tr @ [e]) = received tr @ (case e of Recv d \<Rightarrow> [d] | _ \<Rightarrow> [])"
  "taken (tr @ [e]) = taken tr @ (case e of Take d \<Rightarrow> [d] | _ \<Rightarrow> [])"
  "opens (tr @ [e]) = opens tr + (if e = OpenOk \<or> e = OpenErr then 1 else 0)"
  "wakes (tr @ [e]) = wakes tr + (if e = Wake then 1 else 0)"
  by (simp_all add: received_def taken_def opens_def wakes_def)

text \<open>
  The accounting invariant. The dropped directives (only after a cancellation) are the ones
  that are neither taken nor buffered nor held; the number of opened streams is bounded by the
  wake-ups, so that an idle agent does not hammer the Director.
\<close>

lemma retr_run_accounting:
  assumes "retr_run (Opening, c) tr s" and "cc_directives c = []" and "\<not> cc_rptWake c"
    and "\<not> cc_retCancelled c"
  shows "length (cc_directives (snd s)) \<le> 1 \<and>
    (Cancel \<notin> set tr \<longrightarrow> \<not> cc_retCancelled (snd s) \<and>
       received tr = taken tr @ cc_directives (snd s) @ held (fst s)) \<and>
    opens tr + (if fst s = Opening then 1 else 0) + (if cc_rptWake (snd s) then 1 else 0)
      \<le> 1 + wakes tr \<and>
    (fst s = Exited \<longrightarrow> cc_retCancelled (snd s))"
  using assms
proof (induction "(Opening, c)" tr s rule: retr_run.induct)
  case run_Nil
  then show ?case by simp
next
  case (run_snoc tr s' e s'')
  then show ?case
    by (elim retr_stepE; cases s'; auto simp: wake_def Close_def split: if_splits)
qed

section \<open>Properties\<close>

text \<open>
  C7: A report reaches the Director in one piece or not at all as a success: the chunks sent are,
  in order, the beginning of the marshalled report, none is empty or larger than 65532 bytes, and
  when the report is said to be sent they are all of it, in as few chunks as that size allows.
\<close>

theorem report_upload:
  assumes "transmits obs (cl_ReportStream client (getHeaders c apiKey)) (cl_ReportStream_Send client)
      (cl_ReportStream_CloseAndRecv client)"
    and "marshal report = Inr data"
    and "comm_Report client marshal c report apiKey w = (c', err, w')"
  shows "\<exists>cs rest. obs w' = obs w @ cs \<and> data = concat cs @ rest \<and>
    (\<forall>x \<in> set cs. x \<noteq> [] \<and> length x \<le> 65532) \<and>
    (err = None \<longrightarrow> rest = [] \<and> length cs = (length data + 65531) div 65532)"
proof -
  have "upload ''ReportStream'' (cl_ReportStream client (getHeaders c apiKey))
      (cl_ReportStream_Send client) (cl_ReportStream_CloseAndRecv client) data w = (err, w')"
    using assms(2,3) by (simp add: comm_Report_def getHeaders_def wake_def)
  from upload_observed [OF assms(1) this] obtain n where n: "n \<le> length (chunks data)"
    "obs w' = obs w @ take n (chunks data)" "err = None \<longrightarrow> n = length (chunks data)" by blast
  have "concat (take n (chunks data)) @ concat (drop n (chunks data)) = concat (chunks data)"
    by (metis append_take_drop_id concat_append)
  then have split: "data = concat (take n (chunks data)) @ concat (drop n (chunks data))"
    by (simp only: concat_chunks)
  have size: "\<forall>x \<in> set (take n (chunks data)). x \<noteq> [] \<and> length x \<le> 65532"
    using chunks_size [of _ data] set_take_subset [of n "chunks data"] by (auto simp: CHUNKSIZE_def)
  have all: "err = None \<longrightarrow> concat (drop n (chunks data)) = [] \<and>
      length (take n (chunks data)) = (length data + 65531) div 65532"
    using n(1,3) by (simp add: length_chunks CHUNKSIZE_def add.commute)
  from n(2) split size all show ?thesis by blast
qed

text \<open>A Director that keeps the chunks it receives and fails from the third on.\<close>

definition keeping_client :: "byte list list DirectorClient" where
  "keeping_client = \<lparr>cl_ReportCommandResult = (\<lambda>h r w. (None, w)), cl_ReportStream = (\<lambda>h w. (None, w)),
     cl_ReportStream_Send = (\<lambda>c w. (if 2 \<le> length w then Some (ErrText ''closed'') else None, w @ [c])),
     cl_ReportStream_CloseAndRecv = (\<lambda>w. (None, w)), cl_StreamDiagnostics = (\<lambda>h w. (None, w)),
     cl_StreamDiagnostics_Send = (\<lambda>c w. (None, w @ [c])),
     cl_StreamDiagnostics_CloseAndRecv = (\<lambda>w. (None, w)), cl_StreamMetrics = (\<lambda>h w. (None, w)),
     cl_StreamMetrics_Send = (\<lambda>m w. (None, w)), cl_StreamMetrics_CloseSend = (\<lambda>w. (None, w))\<rparr>"

definition fresh_comm :: RPCComm where
  "fresh_comm = \<lparr>cc_address = ''h:1'', cc_creds = Insecure, cc_connClosed = False, cc_retCancelled = False,
     cc_retHeaders = [], cc_rptWake = False, cc_agentID = None, cc_directives = [], cc_extraHeaders = []\<rparr>"

definition big_report :: "byte list" where
  "big_report = replicate 65533 7"

lemma report_upload_witness:
  "\<forall>r. \<exists>cs. snd (snd (comm_Report keeping_client (\<lambda>r. Inr big_report) fresh_comm r ''k'' [])) = cs \<and>
    concat cs = big_report \<and> length cs = 2"
proof
  fix r
  have t: "transmits id (cl_ReportStream keeping_client (getHeaders fresh_comm ''k''))
      (cl_ReportStream_Send keeping_client) (cl_ReportStream_CloseAndRecv keeping_client)"
    by (simp add: transmits_def keeps_def keeping_client_def)
  obtain c' err cs where run: "comm_Report keeping_client (\<lambda>r. Inr big_report) fresh_comm r ''k'' [] = (c', err, cs)"
    by (cases "comm_Report keeping_client (\<lambda>r. Inr big_report) fresh_comm r ''k'' []")
  have two: "chunks big_report = [replicate 65532 7, [7]]"
    by (subst chunks.simps, subst chunks.simps, subst chunks.simps)
      (simp add: big_report_def CHUNKSIZE_def drop_replicate)
  have "err = None"
    using run by (auto simp: comm_Report_def upload_def send_from_chunks two keeping_client_def)
  with report_upload [OF t refl run] run
  show "\<exists>cs. snd (snd (comm_Report keeping_client (\<lambda>r. Inr big_report) fresh_comm r ''k'' [])) = cs \<and>
    concat cs = big_report \<and> length cs = 2" by (auto simp: big_report_def)
qed

text \<open>
  C8: On a connection just made, the directives the agent takes are exactly the ones received, in
  order and without loss or repetition, as long as the connection is not closed; at most one waits
  in the channel; the stream is opened at most once more than reports woke the retriever; and the
  retriever ends only when the connection was closed.
\<close>

theorem retriever_accounting:
  assumes "NewComm dial connInfo agentID apiKey extraHeaders w = (Inr c, w')"
    and "retr_run (Opening, c) tr (pc, c')"
  shows "length (cc_directives c') \<le> 1 \<and>
    (Cancel \<notin> set tr \<longrightarrow> pc \<noteq> Exited \<and> received tr = taken tr @ cc_directives c' @ held pc) \<and>
    opens tr \<le> 1 + wakes tr"
proof -
  from assms(1) have "cc_directives c = []" "\<not> cc_rptWake c" "\<not> cc_retCancelled c"
    by (auto simp: NewComm_def Let_def split: option.splits prod.splits)
  from retr_run_accounting [OF assms(2) this] show ?thesis by auto
qed

lemma retriever_accounting_witness:
  "\<exists>c c'. fst (NewComm (\<lambda>a cr w. (None, w)) \<lparr>ci_hostname = ''h'', ci_port = ''1'', ci_secure = False\<rparr>
      None ''k'' [] ()) = Inr c \<and>
    retr_run (Opening, c) [OpenOk, Recv None, Deliver, Take None, RecvErr] (Waiting, c') \<and>
    received [OpenOk, Recv None, Deliver, Take None, RecvErr] =
      taken [OpenOk, Recv None, Deliver, Take None, RecvErr] @ cc_directives c'"
proof -
  let ?info = "\<lparr>ci_hostname = ''h'', ci_port = ''1'', ci_secure = False\<rparr>"
  obtain c where c: "NewComm (\<lambda>a cr w. (None, w)) ?info None ''k'' [] () = (Inr c, ())"
    and d: "cc_directives c = []"
    by (auto simp: NewComm_def Let_def)
  let ?c1 = "c\<lparr>cc_directives := [None]\<rparr>"
  have c0: "c\<lparr>cc_directives := []\<rparr> = c" using d by (cases c) simp
  have steps: "retr_step (Opening, c) OpenOk (Receiving, c)" "retr_step (Receiving, c) (Recv None) (Holding None, c)"
    "retr_step (Holding None, c) Deliver (Receiving, ?c1)"
    "retr_step (Receiving, ?c1) (Take None) (Receiving, c)" "retr_step (Receiving, c) RecvErr (Waiting, c)"
    using deliver [of c None] take_one [of ?c1 None "[]" Receiving] d
    by (simp_all add: open_ok recv recv_err c0)
  have run: "retr_run (Opening, c) ([] @ [OpenOk] @ [Recv None] @ [Deliver] @ [Take None] @ [RecvErr]) (Waiting, c)"
    using run_snoc [OF run_snoc [OF run_snoc [OF run_snoc [OF run_snoc [OF run_Nil steps(1)] steps(2)]
        steps(3)] steps(4)] steps(5)] by simp
  from retriever_accounting [OF c this] c run show ?thesis by (auto simp: d)
qed

end
