(* ===== verification/K8s_Types.thy ===== *)
theory K8s_Types
  imports Go_Base
begin

text \<open>
  The Kubernetes, emissary and Argo objects the agent handles, with the fields its code reads or
  writes. Everything else an object carries is one opaque \<open>_Rest\<close> field, so that "unchanged"
  includes it.
\<close>

section \<open>Objects\<close>

record ObjectMeta =
  om_Name :: string
  om_Namespace :: string
  om_UID :: string
  om_ResourceVersion :: string
  om_CreationTimestamp :: string
  om_ManagedFields :: "string list"
  om_Rest :: string

record KObject =
  ko_Kind :: string
  ko_APIVersion :: string
  ko_Meta :: ObjectMeta

abbreviation GetName :: "'a KObject_scheme \<Rightarrow> string" where "GetName x \<equiv> om_Name (ko_Meta x)"
abbreviation GetNamespace :: "'a KObject_scheme \<Rightarrow> string" where
  "GetNamespace x \<equiv> om_Namespace (ko_Meta x)"
abbreviation GetUID :: "'a KObject_scheme \<Rightarrow> string" where "GetUID x \<equiv> om_UID (ko_Meta x)"

record Pod = KObject +
  pod_Phase :: string
  pod_Rest :: string

record ConfigMap = KObject +
  cm_Data :: "(string, string) gomap"

record Deployment = KObject +
  dep_Rest :: string

record Endpoints = KObject +
  ep_Rest :: string

record ServicePort =
  sp_Name :: string
  sp_Protocol :: string
  sp_Port :: int32

record Service = KObject +
  svc_ClusterIP :: string
  svc_Ports :: "ServicePort list"
  svc_Rest :: string

record Unstructured = KObject +
  un_Rest :: string

section \<open>Ingresses\<close>

text \<open>The load balancer status and TLS blocks have the same shape in both API versions.\<close>

record PortStatus =
  ps_Port :: int32
  ps_Error :: "string option"
  ps_Protocol :: string

record LoadBalancerIngress =
  lb_IP :: string
  lb_Hostname :: string
  lb_Ports :: "PortStatus list"

record IngressTLS =
  tls_Hosts :: "string list"
  tls_SecretName :: string

text \<open>\<open>networking/v1\<close>: a backend names a service or a resource, each of which may be nil.\<close>

record ServiceBackendPort =
  bp_Name :: string
  bp_Number :: int32

record IngressServiceBackend =
  isb_Name :: string
  isb_Port :: ServiceBackendPort

record NetBackend =
  nb_Service :: "IngressServiceBackend option"
  nb_Resource :: "string option"

record NetPath =
  np_Path :: string
  np_PathType :: "string option"
  np_Backend :: NetBackend

record NetRule =
  nr_Host :: string
  nr_HTTP :: "NetPath list option"

record NetIngress = KObject +
  ni_IngressClassName :: "string option"
  ni_DefaultBackend :: "NetBackend option"
  ni_TLS :: "IngressTLS list"
  ni_Rules :: "NetRule list"
  ni_LoadBalancer :: "LoadBalancerIngress list"

text \<open>\<open>extensions/v1beta1\<close>.\<close>

datatype IntOrString = IntVal int32 | StrVal string

record ExtBackend =
  eb_ServiceName :: string
  eb_ServicePort :: IntOrString
  eb_Resource :: "string option"

record ExtPath =
  xp_Path :: string
  xp_PathType :: "string option"
  xp_Backend :: ExtBackend

record ExtRule =
  xr_Host :: string
  xr_HTTP :: "ExtPath list option"

record IngressSpec =
  is_IngressClassName :: "string option"
  is_Backend :: "ExtBackend option"
  is_TLS :: "IngressTLS list"
  is_Rules :: "ExtRule list"

record ExtIngress = KObject +
  xi_Spec :: IngressSpec
  xi_LoadBalancer :: "LoadBalancerIngress list"

section \<open>Mappings\<close>

record MappingDocs =
  md_Path :: string
  md_URL :: string
  md_DisplayName :: string
  md_Ignored :: "bool option"

record Mapping = KObject +
  m_Hostname :: string
  m_DeprecatedHost :: string
  m_Prefix :: string
  m_Service :: string
  m_Rewrite :: "string option"
  m_Headers :: "(string, string) gomap"
  m_Docs :: "MappingDocs option"

section \<open>Snapshots\<close>

record ObjectReference =
  ref_Kind :: string
  ref_Namespace :: string
  ref_Name :: string
  ref_UID :: string
  ref_APIVersion :: string
  ref_ResourceVersion :: string

record APIDoc =
  ad_Data :: "byte list"
  ad_Kind :: string
  ad_APIVersion :: string
  ad_Name :: string
  ad_TargetRef :: "ObjectReference option"

record KubernetesSnapshot =
  ks_Pods :: "Pod list"
  ks_ConfigMaps :: "ConfigMap list"
  ks_Deployments :: "Deployment list"
  ks_Endpoints :: "Endpoints list"
  ks_Services :: "Service option list"
  ks_Ingresses :: "ExtIngress list"
  ks_Mappings :: "Mapping option list"
  ks_ArgoRollouts :: "Unstructured list"
  ks_ArgoApplications :: "Unstructured list"

definition empty_kubernetes :: KubernetesSnapshot where
  "empty_kubernetes = \<lparr>ks_Pods = [], ks_ConfigMaps = [], ks_Deployments = [], ks_Endpoints = [],
     ks_Services = [], ks_Ingresses = [], ks_Mappings = [], ks_ArgoRollouts = [],
     ks_ArgoApplications = []\<rparr>"

record AmbassadorMetaInfo =
  ami_ClusterID :: string
  ami_Rest :: string

record Snapshot =
  sn_AmbassadorMeta :: "AmbassadorMetaInfo option"
  sn_Kubernetes :: "KubernetesSnapshot option"
  sn_APIDocs :: "APIDoc list"
  sn_Rest :: string

section \<open>Runtime objects\<close>

text \<open>\<open>runtime.Object\<close>: the types an object modifier distinguishes, and any other.\<close>

datatype runtime_object =
    RPod Pod | RService Service | RConfigMap ConfigMap | REndpoints Endpoints
  | RDeployment Deployment | RExtIngress ExtIngress | RNetIngress NetIngress
  | ROther "unit KObject_scheme"

type_synonym ObjectModifier = "runtime_object \<Rightarrow> runtime_object"

text \<open>
  A modifier changes the object it is given in place, so its result is read back at the type
  the object had.
\<close>

definition modify_pod :: "ObjectModifier option \<Rightarrow> Pod \<Rightarrow> Pod" where
  "modify_pod om x = (case om of None \<Rightarrow> x
     | Some f \<Rightarrow> (case f (RPod x) of RPod y \<Rightarrow> y | _ \<Rightarrow> x))"

definition modify_cmap :: "ObjectModifier option \<Rightarrow> ConfigMap \<Rightarrow> ConfigMap" where
  "modify_cmap om x = (case om of None \<Rightarrow> x
     | Some f \<Rightarrow> (case f (RConfigMap x) of RConfigMap y \<Rightarrow> y | _ \<Rightarrow> x))"

definition modify_deploy :: "ObjectModifier option \<Rightarrow> Deployment \<Rightarrow> Deployment" where
  "modify_deploy om x = (case om of None \<Rightarrow> x
     | Some f \<Rightarrow> (case f (RDeployment x) of RDeployment y \<Rightarrow> y | _ \<Rightarrow> x))"

definition modify_endpoints :: "ObjectModifier option \<Rightarrow> Endpoints \<Rightarrow> Endpoints" where
  "modify_endpoints om x = (case om of None \<Rightarrow> x
     | Some f \<Rightarrow> (case f (REndpoints x) of REndpoints y \<Rightarrow> y | _ \<Rightarrow> x))"

definition modify_service :: "ObjectModifier option \<Rightarrow> Service \<Rightarrow> Service" where
  "modify_service om x = (case om of None \<Rightarrow> x
     | Some f \<Rightarrow> (case f (RService x) of RService y \<Rightarrow> y | _ \<Rightarrow> x))"

definition modify_ingress :: "ObjectModifier option \<Rightarrow> ExtIngress \<Rightarrow> ExtIngress" where
  "modify_ingress om x = (case om of None \<Rightarrow> x
     | Some f \<Rightarrow> (case f (RExtIngress x) of RExtIngress y \<Rightarrow> y | _ \<Rightarrow> x))"

lemmas modify_defs = modify_pod_def modify_cmap_def modify_deploy_def modify_endpoints_def
  modify_service_def modify_ingress_def

text \<open>The agent's own modifier (\<open>objectModifier\<close> of \<open>pkg/agent/agent.go\<close>).\<close>

definition set_type :: "string \<Rightarrow> string \<Rightarrow> 'a KObject_scheme \<Rightarrow> 'a KObject_scheme" where
  "set_type kind version x =
     x\<lparr>ko_Kind := kind, ko_APIVersion := version, ko_Meta := (ko_Meta x)\<lparr>om_ManagedFields := []\<rparr>\<rparr>"

fun objectModifier :: "runtime_object \<Rightarrow> runtime_object" where
  "objectModifier (RPod x) = RPod (set_type ''Pod'' ''v1'' x)"
| "objectModifier (RService x) = RService (set_type ''Service'' ''v1'' x)"
| "objectModifier (RConfigMap x) = RConfigMap (set_type ''ConfigMap'' ''v1'' x)"
| "objectModifier (REndpoints x) = REndpoints (set_type ''Endpoint'' ''v1'' x)"
| "objectModifier (RDeployment x) = RDeployment (set_type ''Deployment'' ''apps/v1'' x)"
| "objectModifier (RExtIngress x) = RExtIngress (set_type ''Ingress'' ''extensions/v1beta1'' x)"
| "objectModifier (RNetIngress x) = RNetIngress (set_type ''Ingress'' ''networking.k8s.io/v1'' x)"
| "objectModifier (ROther x) = ROther x"

lemma set_type_frame [frame_simps]:
  "GetName (set_type k v x) = GetName x" "GetNamespace (set_type k v x) = GetNamespace x"
  "GetUID (set_type k v x) = GetUID x" "om_ManagedFields (ko_Meta (set_type k v x)) = []"
  "om_Rest (ko_Meta (set_type k v x)) = om_Rest (ko_Meta x)"
  "ko_Kind (set_type k v x) = k" "ko_APIVersion (set_type k v x) = v"
  "KObject.more (set_type k v x) = KObject.more x"
  by (simp_all add: set_type_def)

lemma objectModifier_idem: "objectModifier (objectModifier x) = objectModifier x"
  by (cases x) (simp_all add: set_type_def)

end
