(* ===== verification/Cluster_Identity.thy ===== *)
theory Cluster_Identity
  imports Api_Messages K8s_Types Env_Config
begin

text \<open>
  Who the agent reports as: the identity in a report (\<open>pkg/agent/report.go\<close>) and the cluster
  ID of a cluster without emissary (\<open>pkg/agent/cluster.go\<close>). The Kubernetes API and the UUID
  library are parameters.
\<close>

definition new_identity :: "string \<Rightarrow> string \<Rightarrow> Identity" where
  "new_identity clusterID host =
     \<lparr>idt_AccountId = '''', idt_Version = '''', idt_Hostname = host, idt_License = '''',
      idt_ClusterId = clusterID, idt_Label = ''''\<rparr>"

definition GetIdentity :: "AmbassadorMetaInfo option \<Rightarrow> string \<Rightarrow> Identity option" where
  "GetIdentity ambassadorMeta ambHost =
     (case ambassadorMeta of
        None \<Rightarrow> None
      | Some meta \<Rightarrow>
          if ami_ClusterID meta = '''' then None else Some (new_identity (ami_ClusterID meta) ambHost))"

text \<open>The diagnostics of emissary: the cluster ID of the system block is what the agent reads.\<close>

record Diagnostics_System =
  dsy_ClusterID :: string
  dsy_Rest :: string

record Diagnostics =
  dgn_System :: "Diagnostics_System option"
  dgn_Rest :: string

definition GetIdentityFromDiagnostics :: "Diagnostics_System option \<Rightarrow> string \<Rightarrow> Identity option" where
  "GetIdentityFromDiagnostics ambSystem ambHost =
     (case ambSystem of
        None \<Rightarrow> None
      | Some sys \<Rightarrow>
          if dsy_ClusterID sys = '''' then None else Some (new_identity (dsy_ClusterID sys) ambHost))"

text \<open>\<open>newSHA1\<close> is \<open>uuid.NewSHA1(uuid.NameSpaceURL, _).String()\<close>.\<close>

definition clusterIDFromRootID :: "(string \<Rightarrow> string) \<Rightarrow> Env \<Rightarrow> string \<Rightarrow> string" where
  "clusterIDFromRootID newSHA1 a rootID =
     ToLower (newSHA1 (''d6e_id://'' @ rootID @ ''/'' @ AmbassadorID a))"

definition getClusterID ::
  "(string \<Rightarrow> string) \<Rightarrow> (string \<Rightarrow> go_error + string) \<Rightarrow> Env \<Rightarrow> string \<Rightarrow> string" where
  "getClusterID newSHA1 namespace_UID a nsName =
     (if ClusterID a \<noteq> '''' then ClusterID a
      else (let rootID = (case namespace_UID nsName of
                  Inl err \<Rightarrow> ''00000000-0000-0000-0000-000000000000''
                | Inr uid \<Rightarrow> uid)
            in clusterIDFromRootID newSHA1 a rootID))"

lemma GetIdentity_Some:
  "GetIdentity meta host = Some i \<longleftrightarrow>
     (\<exists>m. meta = Some m \<and> ami_ClusterID m \<noteq> '''' \<and> i = new_identity (ami_ClusterID m) host)"
  by (auto simp: GetIdentity_def split: option.splits)

lemma GetIdentityFromDiagnostics_Some:
  "GetIdentityFromDiagnostics sys host = Some i \<longleftrightarrow>
     (\<exists>m. sys = Some m \<and> dsy_ClusterID m \<noteq> '''' \<and> i = new_identity (dsy_ClusterID m) host)"
  by (auto simp: GetIdentityFromDiagnostics_def split: option.splits)

end
