(* ===== verification/Watchers.thy ===== *)
theory Watchers
  imports K8s_Types
begin

text \<open>
  The watchers that fill a snapshot (\<open>pkg/agent/watchers\<close>): the core watchers (pods,
  configmaps, deployments, endpoints), the fallback watchers (services, ingresses) and the
  conversion of \<open>networking/v1\<close> ingresses to \<open>extensions/v1beta1\<close>. A group of informers is
  third-party code and a parameter: its list, start and cancel operations on the world. The
  interface \<open>SnapshotWatcher\<close> is the locale \<open>snapshot_watcher\<close>.
\<close>

section \<open>Watcher groups\<close>

text \<open>\<open>List\<close> returns a list and an error, both of which the caller sees.\<close>

record ('w, 'a) WatcherGroup =
  wg_List :: "'w \<Rightarrow> ('a list \<times> go_error option) \<times> 'w"
  wg_EnsureStarted :: "'w \<Rightarrow> 'w"
  wg_Cancel :: "'w \<Rightarrow> 'w"

definition allowedNamespace :: "string \<Rightarrow> bool" where
  "allowedNamespace namespace \<longleftrightarrow> namespace \<noteq> ''kube-system''"

section \<open>Core watchers\<close>

record 'w CoreWatchers =
  cw_cmapsWatchers :: "('w, ConfigMap) WatcherGroup"
  cw_deployWatchers :: "('w, Deployment) WatcherGroup"
  cw_podWatchers :: "('w, Pod) WatcherGroup"
  cw_endpointWatchers :: "('w, Endpoints) WatcherGroup"
  cw_om :: "ObjectModifier option"

text \<open>One group per kind, one watcher per namespace; no namespace means the whole cluster.\<close>

definition watched_namespaces :: "string list \<Rightarrow> string list" where
  "watched_namespaces namespaces = (if length namespaces = 0 then namespaces @ [''''] else namespaces)"

definition NewCoreWatchers ::
  "(string list \<Rightarrow> ('w, ConfigMap) WatcherGroup) \<Rightarrow> (string list \<Rightarrow> ('w, Deployment) WatcherGroup) \<Rightarrow>
   (string list \<Rightarrow> ('w, Pod) WatcherGroup) \<Rightarrow> (string list \<Rightarrow> ('w, Endpoints) WatcherGroup) \<Rightarrow>
   string list \<Rightarrow> ObjectModifier option \<Rightarrow> 'w CoreWatchers" where
  "NewCoreWatchers cmaps deploys pods endpts namespaces om =
     (let nss = watched_namespaces namespaces in
      \<lparr>cw_cmapsWatchers = cmaps nss, cw_deployWatchers = deploys nss, cw_podWatchers = pods nss,
       cw_endpointWatchers = endpts nss, cw_om = om\<rparr>)"

definition loadPods :: "'w CoreWatchers \<Rightarrow> 'w \<Rightarrow> Pod list \<times> 'w" where
  "loadPods w s =
     (case wg_List (cw_podWatchers w) s of
        ((_, Some err), s1) \<Rightarrow> ([], s1)
      | ((pods, None), s1) \<Rightarrow>
          ([modify_pod (cw_om w) pod. pod \<leftarrow> pods,
              allowedNamespace (GetNamespace pod) \<and> pod_Phase pod \<noteq> ''Succeeded''], s1))"

definition loadCmaps :: "'w CoreWatchers \<Rightarrow> 'w \<Rightarrow> ConfigMap list \<times> 'w" where
  "loadCmaps w s =
     (case wg_List (cw_cmapsWatchers w) s of
        ((_, Some err), s1) \<Rightarrow> ([], s1)
      | ((cmaps, None), s1) \<Rightarrow>
          ([modify_cmap (cw_om w) cmap. cmap \<leftarrow> cmaps, allowedNamespace (GetNamespace cmap)], s1))"

definition loadDeploys :: "'w CoreWatchers \<Rightarrow> 'w \<Rightarrow> Deployment list \<times> 'w" where
  "loadDeploys w s =
     (case wg_List (cw_deployWatchers w) s of
        ((_, Some err), s1) \<Rightarrow> ([], s1)
      | ((deploys, None), s1) \<Rightarrow>
          ([modify_deploy (cw_om w) deploy. deploy \<leftarrow> deploys,
              allowedNamespace (GetNamespace deploy)], s1))"

definition loadEndpoints :: "'w CoreWatchers \<Rightarrow> 'w \<Rightarrow> Endpoints list \<times> 'w" where
  "loadEndpoints w s =
     (case wg_List (cw_endpointWatchers w) s of
        ((_, Some err), s1) \<Rightarrow> ([], s1)
      | ((endpts, None), s1) \<Rightarrow>
          ([modify_endpoints (cw_om w) endpt. endpt \<leftarrow> endpts,
              allowedNamespace (GetNamespace endpt)], s1))"

text \<open>The first assignment dereferences \<open>snapshot.Kubernetes\<close>: nil panics.\<close>

definition CoreWatchers_LoadSnapshot ::
  "'w CoreWatchers \<Rightarrow> Snapshot \<Rightarrow> 'w \<Rightarrow> ('w, Snapshot \<times> 'w) outcome" where
  "CoreWatchers_LoadSnapshot w snapshot s =
     (let (pods, s1) = loadPods w s in
      case sn_Kubernetes snapshot of
        None \<Rightarrow> Panic s1
      | Some k \<Rightarrow>
          (let (cmaps, s2) = loadCmaps w s1;
               (deploys, s3) = loadDeploys w s2;
               (endpts, s4) = loadEndpoints w s3
           in Ret (snapshot\<lparr>sn_Kubernetes := Some (k\<lparr>ks_Pods := pods, ks_ConfigMaps := cmaps,
                      ks_Deployments := deploys, ks_Endpoints := endpts\<rparr>)\<rparr>, s4)))"

definition CoreWatchers_EnsureStarted :: "'w CoreWatchers \<Rightarrow> 'w \<Rightarrow> 'w" where
  "CoreWatchers_EnsureStarted w s =
     wg_EnsureStarted (cw_endpointWatchers w) (wg_EnsureStarted (cw_podWatchers w)
       (wg_EnsureStarted (cw_deployWatchers w) (wg_EnsureStarted (cw_cmapsWatchers w) s)))"

definition CoreWatchers_Cancel :: "'w CoreWatchers \<Rightarrow> 'w \<Rightarrow> 'w" where
  "CoreWatchers_Cancel w s =
     wg_Cancel (cw_endpointWatchers w) (wg_Cancel (cw_podWatchers w)
       (wg_Cancel (cw_deployWatchers w) (wg_Cancel (cw_cmapsWatchers w) s)))"

section \<open>Converting ingresses\<close>

text \<open>
  The conversions of \<open>networkWatcher\<close>. \<open>None\<close> is a nil dereference: a backend without a
  service (one that names a resource), a rule without an \<open>http\<close> part.
\<close>

definition convertStatus :: "NetIngress \<Rightarrow> LoadBalancerIngress list" where
  "convertStatus ing =
     map (\<lambda>lbi. \<lparr>lb_IP = lb_IP lbi, lb_Hostname = lb_Hostname lbi,
                 lb_Ports = map (\<lambda>port. \<lparr>ps_Port = ps_Port port, ps_Error = ps_Error port,
                                        ps_Protocol = ps_Protocol port\<rparr>) (lb_Ports lbi)\<rparr>)
       (ni_LoadBalancer ing)"

definition convertIngressBackend :: "NetBackend \<Rightarrow> ExtBackend option" where
  "convertIngressBackend backend =
     (case nb_Service backend of
        None \<Rightarrow> None
      | Some svc \<Rightarrow>
          (let pt = isb_Port svc;
               servicePort = (if bp_Name pt \<noteq> '''' then StrVal (bp_Name pt) else IntVal (bp_Number pt))
           in Some \<lparr>eb_ServiceName = isb_Name svc, eb_ServicePort = servicePort,
                    eb_Resource = nb_Resource backend\<rparr>))"

definition convertPath :: "NetPath \<Rightarrow> ExtPath option" where
  "convertPath path =
     map_option (\<lambda>b. \<lparr>xp_Path = np_Path path, xp_PathType = np_PathType path, xp_Backend = b\<rparr>)
       (convertIngressBackend (np_Backend path))"

definition convertRule :: "NetRule \<Rightarrow> ExtRule option" where
  "convertRule rule =
     (case nr_HTTP rule of
        None \<Rightarrow> None
      | Some paths \<Rightarrow>
          map_option (\<lambda>ps. \<lparr>xr_Host = nr_Host rule, xr_HTTP = Some ps\<rparr>) (those (map convertPath paths)))"

definition convertSpec :: "NetIngress \<Rightarrow> IngressSpec option" where
  "convertSpec ing =
     (case those (map convertRule (ni_Rules ing)) of
        None \<Rightarrow> None
      | Some rules \<Rightarrow>
          (let tlss = map (\<lambda>tls. \<lparr>tls_Hosts = tls_Hosts tls, tls_SecretName = tls_SecretName tls\<rparr>)
                        (ni_TLS ing)
           in case ni_DefaultBackend ing of
                None \<Rightarrow> Some \<lparr>is_IngressClassName = ni_IngressClassName ing, is_Backend = None,
                             is_TLS = tlss, is_Rules = rules\<rparr>
              | Some b \<Rightarrow>
                  map_option (\<lambda>b'. \<lparr>is_IngressClassName = ni_IngressClassName ing,
                      is_Backend = Some b', is_TLS = tlss, is_Rules = rules\<rparr>)
                    (convertIngressBackend b)))"

definition convertIngress :: "NetIngress \<Rightarrow> ExtIngress option" where
  "convertIngress ing =
     map_option (\<lambda>spec. \<lparr>ko_Kind = ''Ingress'', ko_APIVersion = ''extensions/v1beta1'',
                         ko_Meta = ko_Meta ing, xi_Spec = spec, xi_LoadBalancer = convertStatus ing\<rparr>)
       (convertSpec ing)"

section \<open>Ingress watchers\<close>

datatype 'w ingressWatcher =
    NetworkWatcher "('w, NetIngress) WatcherGroup" "ObjectModifier option"
  | LegacyWatcher "('w, ExtIngress) WatcherGroup"

fun ingress_List ::
  "'w ingressWatcher \<Rightarrow> 'w \<Rightarrow> ('w, (ExtIngress list \<times> go_error option) \<times> 'w) outcome" where
  "ingress_List (NetworkWatcher g om) s =
     (case wg_List g s of
        ((_, Some err), s1) \<Rightarrow> Ret (([], Some err), s1)
      | ((ingresses, None), s1) \<Rightarrow>
          (case those (map convertIngress ingresses) of
             None \<Rightarrow> Panic s1
           | Some convs \<Rightarrow> Ret ((map (modify_ingress om) convs, None), s1)))"
| "ingress_List (LegacyWatcher g) s = Ret (wg_List g s)"

fun ingress_EnsureStarted :: "'w ingressWatcher \<Rightarrow> 'w \<Rightarrow> 'w" where
  "ingress_EnsureStarted (NetworkWatcher g om) s = wg_EnsureStarted g s"
| "ingress_EnsureStarted (LegacyWatcher g) s = wg_EnsureStarted g s"

fun ingress_Cancel :: "'w ingressWatcher \<Rightarrow> 'w \<Rightarrow> 'w" where
  "ingress_Cancel (NetworkWatcher g om) s = wg_Cancel g s"
| "ingress_Cancel (LegacyWatcher g) s = wg_Cancel g s"

text \<open>The list call of the API discovery is a parameter, given the namespace.\<close>

definition isNetworkingAPIAvailable ::
  "(string \<Rightarrow> 'w \<Rightarrow> go_error option \<times> 'w) \<Rightarrow> string list \<Rightarrow> 'w \<Rightarrow> bool \<times> 'w" where
  "isNetworkingAPIAvailable listIngresses namespaces s =
     (let ns = (case namespaces of [] \<Rightarrow> '''' | n # _ \<Rightarrow> n) in
      case listIngresses ns s of
        (Some err, s1) \<Rightarrow> (\<not> IsNotFound err, s1)
      | (None, s1) \<Rightarrow> (True, s1))"

definition getIngressWatcher ::
  "(string \<Rightarrow> 'w \<Rightarrow> go_error option \<times> 'w) \<Rightarrow> (string list \<Rightarrow> ('w, NetIngress) WatcherGroup) \<Rightarrow>
   (string list \<Rightarrow> ('w, ExtIngress) WatcherGroup) \<Rightarrow> string list \<Rightarrow> ObjectModifier option \<Rightarrow> 'w \<Rightarrow>
   'w ingressWatcher \<times> 'w" where
  "getIngressWatcher listIngresses net legacy namespaces om s =
     (case isNetworkingAPIAvailable listIngresses namespaces s of
        (True, s1) \<Rightarrow> (NetworkWatcher (net namespaces) om, s1)
      | (False, s1) \<Rightarrow> (LegacyWatcher (legacy namespaces), s1))"

section \<open>Fallback watchers\<close>

record 'w FallbackWatchers =
  fw_serviceWatchers :: "('w, Service) WatcherGroup"
  fw_ingressWatchers :: "'w ingressWatcher"
  fw_om :: "ObjectModifier option"

definition NewFallbackWatcher ::
  "(string \<Rightarrow> 'w \<Rightarrow> go_error option \<times> 'w) \<Rightarrow> (string list \<Rightarrow> ('w, Service) WatcherGroup) \<Rightarrow>
   (string list \<Rightarrow> ('w, NetIngress) WatcherGroup) \<Rightarrow> (string list \<Rightarrow> ('w, ExtIngress) WatcherGroup) \<Rightarrow>
   string list \<Rightarrow> ObjectModifier option \<Rightarrow> 'w \<Rightarrow> 'w FallbackWatchers \<times> 'w" where
  "NewFallbackWatcher listIngresses services net legacy namespaces om s =
     (let nss = watched_namespaces namespaces;
          (iw, s1) = getIngressWatcher listIngresses net legacy nss om s
      in (\<lparr>fw_serviceWatchers = services nss, fw_ingressWatchers = iw, fw_om = om\<rparr>, s1))"

definition FallbackWatchers_EnsureStarted :: "'w FallbackWatchers \<Rightarrow> 'w \<Rightarrow> 'w" where
  "FallbackWatchers_EnsureStarted w s =
     ingress_EnsureStarted (fw_ingressWatchers w) (wg_EnsureStarted (fw_serviceWatchers w) s)"

definition FallbackWatchers_Cancel :: "'w FallbackWatchers \<Rightarrow> 'w \<Rightarrow> 'w" where
  "FallbackWatchers_Cancel w s =
     ingress_Cancel (fw_ingressWatchers w) (wg_Cancel (fw_serviceWatchers w) s)"

text \<open>
  The service list is stored even when its error is set; the ingress list is stored only
  without an error.
\<close>

definition FallbackWatchers_LoadSnapshot ::
  "'w FallbackWatchers \<Rightarrow> Snapshot \<Rightarrow> 'w \<Rightarrow> ('w, Snapshot \<times> 'w) outcome" where
  "FallbackWatchers_LoadSnapshot w snapshot s =
     (let ((services, err), s1) = wg_List (fw_serviceWatchers w) s in
      case sn_Kubernetes snapshot of
        None \<Rightarrow> Panic s1
      | Some k \<Rightarrow>
          (let k1 = k\<lparr>ks_Services := map (\<lambda>svc. Some (modify_service (fw_om w) svc)) services\<rparr> in
           bind_outcome (ingress_List (fw_ingressWatchers w) s1) (\<lambda>((ingresses, err), s2).
             case err of
               Some e \<Rightarrow> Ret (snapshot\<lparr>sn_Kubernetes := Some k1\<rparr>, s2)
             | None \<Rightarrow>
                 Ret (snapshot\<lparr>sn_Kubernetes := Some (k1\<lparr>ks_Ingresses :=
                        map (modify_ingress (fw_om w)) ingresses\<rparr>)\<rparr>, s2))))"

section \<open>The interface\<close>

text \<open>
  What the agent relies on when it calls a \<open>SnapshotWatcher\<close>: loading needs a Kubernetes part,
  keeps it, and touches nothing the other producers of the snapshot own (identity, mappings,
  Argo objects, API documents). A total watcher never panics on a snapshot with a Kubernetes
  part.
\<close>

definition same_foreign :: "KubernetesSnapshot \<Rightarrow> KubernetesSnapshot \<Rightarrow> bool" where
  "same_foreign k k' \<longleftrightarrow> ks_Mappings k' = ks_Mappings k \<and> ks_ArgoRollouts k' = ks_ArgoRollouts k \<and>
     ks_ArgoApplications k' = ks_ArgoApplications k"

lemma same_foreign_refl [simp]: "same_foreign k k"
  by (simp add: same_foreign_def)

lemma same_foreign_trans: "same_foreign k k' \<Longrightarrow> same_foreign k' k'' \<Longrightarrow> same_foreign k k''"
  by (simp add: same_foreign_def)

locale snapshot_watcher =
  fixes load :: "Snapshot \<Rightarrow> 'w \<Rightarrow> ('w, Snapshot \<times> 'w) outcome"
  assumes load_nil: "sn_Kubernetes sn = None \<Longrightarrow> \<exists>w'. load sn w = Panic w'"
    and load_frame: "load sn w = Ret (sn', w') \<Longrightarrow>
      \<exists>k k'. sn_Kubernetes sn = Some k \<and> sn' = sn\<lparr>sn_Kubernetes := Some k'\<rparr> \<and> same_foreign k k'"
begin

lemma load_meta:
  "load sn w = Ret (sn', w') \<Longrightarrow> sn_AmbassadorMeta sn' = sn_AmbassadorMeta sn \<and>
     sn_APIDocs sn' = sn_APIDocs sn \<and> sn_Rest sn' = sn_Rest sn \<and> sn_Kubernetes sn' \<noteq> None"
  by (drule load_frame) auto

lemma load_twice:
  assumes "load sn w = Ret (sn1, w1)" and "load sn1 w1 = Ret (sn2, w2)"
  shows "\<exists>k k2. sn_Kubernetes sn = Some k \<and> sn2 = sn\<lparr>sn_Kubernetes := Some k2\<rparr> \<and> same_foreign k k2"
  using load_frame [OF assms(1)] load_frame [OF assms(2)] same_foreign_trans by fastforce

end

locale total_watcher = snapshot_watcher load
  for load :: "Snapshot \<Rightarrow> 'w \<Rightarrow> ('w, Snapshot \<times> 'w) outcome" +
  assumes load_total: "sn_Kubernetes sn \<noteq> None \<Longrightarrow> returns (load sn w)"
begin

lemma load_returns_iff: "returns (load sn w) \<longleftrightarrow> sn_Kubernetes sn \<noteq> None"
  using load_total load_nil by (metis returns.simps(2))

end

interpretation core: total_watcher "CoreWatchers_LoadSnapshot w" for w :: "'w CoreWatchers"
  by unfold_locales
    (auto simp: CoreWatchers_LoadSnapshot_def same_foreign_def split: prod.splits option.splits)

interpretation fallback: snapshot_watcher "FallbackWatchers_LoadSnapshot w"
  for w :: "'w FallbackWatchers"
proof
  fix sn :: Snapshot and s
  assume "sn_Kubernetes sn = None"
  then show "\<exists>s'. FallbackWatchers_LoadSnapshot w sn s = Panic s'"
    by (auto simp: FallbackWatchers_LoadSnapshot_def split: prod.splits)
next
  fix sn :: Snapshot and s sn' s'
  assume "FallbackWatchers_LoadSnapshot w sn s = Ret (sn', s')"
  then show "\<exists>k k'. sn_Kubernetes sn = Some k \<and> sn' = sn\<lparr>sn_Kubernetes := Some k'\<rparr> \<and> same_foreign k k'"
    by (auto simp: FallbackWatchers_LoadSnapshot_def bind_outcome_Ret_iff same_foreign_def Let_def
        split: prod.splits option.splits)
qed

section \<open>What is loaded\<close>

lemma modify_objectModifier [simp]:
  "modify_pod (Some objectModifier) p = set_type ''Pod'' ''v1'' p"
  "modify_cmap (Some objectModifier) c = set_type ''ConfigMap'' ''v1'' c"
  "modify_deploy (Some objectModifier) d = set_type ''Deployment'' ''apps/v1'' d"
  "modify_endpoints (Some objectModifier) e = set_type ''Endpoint'' ''v1'' e"
  "modify_service (Some objectModifier) s = set_type ''Service'' ''v1'' s"
  "modify_ingress (Some objectModifier) i = set_type ''Ingress'' ''extensions/v1beta1'' i"
  by (simp_all add: modify_defs)

lemma modify_None [simp]:
  "modify_pod None p = p" "modify_cmap None c = c" "modify_deploy None d = d"
  "modify_endpoints None e = e" "modify_service None s = s" "modify_ingress None i = i"
  by (simp_all add: modify_defs)

lemma those_eq_Some: "those xs = Some ys \<longleftrightarrow> xs = map Some ys"
  by (induction xs arbitrary: ys) (auto split: option.splits)

lemma those_eq_None: "those xs = None \<longleftrightarrow> None \<in> set xs"
  by (induction xs) (auto split: option.splits)

lemma convertStatus_id: "convertStatus ing = ni_LoadBalancer ing"
proof -
  have "map (\<lambda>port. \<lparr>ps_Port = ps_Port port, ps_Error = ps_Error port,
      ps_Protocol = ps_Protocol port\<rparr>) ps = (ps :: PortStatus list)" for ps
    by (induction ps) simp_all
  then show ?thesis unfolding convertStatus_def by (intro map_idI) simp
qed

text \<open>The ingresses the conversion accepts: every backend names a service, every rule has paths.\<close>

definition backend_ok :: "NetBackend \<Rightarrow> bool" where
  "backend_ok b \<longleftrightarrow> nb_Service b \<noteq> None"

definition rule_ok :: "NetRule \<Rightarrow> bool" where
  "rule_ok r \<longleftrightarrow> (case nr_HTTP r of None \<Rightarrow> False | Some ps \<Rightarrow> (\<forall>p \<in> set ps. backend_ok (np_Backend p)))"

definition ingress_ok :: "NetIngress \<Rightarrow> bool" where
  "ingress_ok i \<longleftrightarrow> (\<forall>r \<in> set (ni_Rules i). rule_ok r) \<and>
     (case ni_DefaultBackend i of None \<Rightarrow> True | Some b \<Rightarrow> backend_ok b)"

lemma convertIngressBackend_None: "convertIngressBackend b = None \<longleftrightarrow> \<not> backend_ok b"
  by (auto simp: convertIngressBackend_def backend_ok_def Let_def split: option.splits)

lemma convertPath_None: "convertPath p = None \<longleftrightarrow> \<not> backend_ok (np_Backend p)"
  by (simp add: convertPath_def convertIngressBackend_None)

lemma convertRule_None: "convertRule r = None \<longleftrightarrow> \<not> rule_ok r"
  by (auto simp: convertRule_def rule_ok_def those_eq_None convertPath_None image_iff
      eq_commute [of None] split: option.splits)

lemma convertSpec_None: "convertSpec i = None \<longleftrightarrow> \<not> ingress_ok i"
proof (cases "those (map convertRule (ni_Rules i))")
  case None
  then have "\<exists>r \<in> set (ni_Rules i). \<not> rule_ok r"
    by (auto simp: those_eq_None image_iff eq_commute [of None] convertRule_None)
  with None show ?thesis by (auto simp: convertSpec_def ingress_ok_def)
next
  case (Some rules)
  then have "None \<notin> set (map convertRule (ni_Rules i))" by (metis those_eq_None option.distinct(1))
  then have "\<forall>r \<in> set (ni_Rules i). rule_ok r"
    by (auto simp: image_iff eq_commute [of None] convertRule_None)
  with Some show ?thesis
    by (auto simp: convertSpec_def ingress_ok_def convertIngressBackend_None split: option.splits)
qed

lemma convertIngress_None: "convertIngress i = None \<longleftrightarrow> \<not> ingress_ok i"
  by (simp add: convertIngress_def convertSpec_None)

section \<open>What the conversion keeps\<close>

definition path_facts :: "NetPath \<Rightarrow> string \<times> string option \<times> string" where
  "path_facts p = (np_Path p, np_PathType p,
     case nb_Service (np_Backend p) of None \<Rightarrow> '''' | Some svc \<Rightarrow> isb_Name svc)"

definition ext_path_facts :: "ExtPath \<Rightarrow> string \<times> string option \<times> string" where
  "ext_path_facts p = (xp_Path p, xp_PathType p, eb_ServiceName (xp_Backend p))"

lemma convertPath_facts: "convertPath p = Some q \<Longrightarrow> ext_path_facts q = path_facts p"
  by (auto simp: convertPath_def convertIngressBackend_def path_facts_def ext_path_facts_def Let_def
      split: option.splits)

lemma map_eq_Some_facts:
  assumes "map f xs = map Some ys" and "\<And>x y. f x = Some y \<Longrightarrow> g y = h x"
  shows "map g ys = map h xs"
  using assms(1)
proof (induction xs arbitrary: ys)
  case (Cons x xs)
  then show ?case using assms(2) by (cases ys) auto
qed simp

lemma convertRule_facts:
  assumes "convertRule r = Some q"
  shows "(xr_Host q, map_option (map ext_path_facts) (xr_HTTP q)) =
    (nr_Host r, map_option (map path_facts) (nr_HTTP r))"
proof -
  from assms obtain ps qs where "nr_HTTP r = Some ps" "map convertPath ps = map Some qs"
    "xr_Host q = nr_Host r" "xr_HTTP q = Some qs"
    by (auto simp: convertRule_def those_eq_Some split: option.splits)
  then show ?thesis
    using map_eq_Some_facts [of convertPath ps qs ext_path_facts path_facts, OF _ convertPath_facts]
    by simp
qed

section \<open>Properties\<close>


definition one_pod_watchers :: "unit CoreWatchers" where
  "one_pod_watchers =
     (let pod = (\<lambda>ns ph. \<lparr>ko_Kind = '''', ko_APIVersion = '''',
            ko_Meta = \<lparr>om_Name = ''p'', om_Namespace = ns, om_UID = ''u'', om_ResourceVersion = ''1'',
              om_CreationTimestamp = '''', om_ManagedFields = [''kubectl''], om_Rest = ''''\<rparr>,
            pod_Phase = ph, pod_Rest = ''''\<rparr>)
      in \<lparr>cw_cmapsWatchers = \<lparr>wg_List = (\<lambda>w. (([], None), w)), wg_EnsureStarted = id, wg_Cancel = id\<rparr>,
          cw_deployWatchers = \<lparr>wg_List = (\<lambda>w. (([], None), w)), wg_EnsureStarted = id, wg_Cancel = id\<rparr>,
          cw_podWatchers = \<lparr>wg_List = (\<lambda>w. (([pod ''kube-system'' ''Running'', pod ''ns'' ''Running'',
              pod ''ns'' ''Succeeded''], None), w)), wg_EnsureStarted = id, wg_Cancel = id\<rparr>,
          cw_endpointWatchers = \<lparr>wg_List = (\<lambda>w. (([], Some (ErrText ''down'')), w)), wg_EnsureStarted = id,
              wg_Cancel = id\<rparr>,
          cw_om = Some objectModifier\<rparr>)"


text \<open>
  C36: Listing the ingresses of the current API panics exactly when some ingress of the cluster has
  a backend that names a resource instead of a service, or a rule without paths; both are valid
  in Kubernetes.
\<close>

theorem ingress_list_returns:
  "returns (ingress_List (NetworkWatcher g om) s) =
    (case wg_List g s of ((_, Some err), _) \<Rightarrow> True | ((ingresses, None), _) \<Rightarrow> list_all ingress_ok ingresses)"
proof -
  obtain l err s1 where l: "wg_List g s = ((l, err), s1)" by (metis prod.collapse)
  have "those (map convertIngress l) = None \<longleftrightarrow> \<not> list_all ingress_ok l"
    by (auto simp: those_eq_None list_all_iff image_iff eq_commute [of None] convertIngress_None)
  then show ?thesis using l by (cases err) (auto split: option.splits)
qed


definition sample_ingress :: NetIngress where
  "sample_ingress = \<lparr>ko_Kind = ''Ingress'', ko_APIVersion = ''networking.k8s.io/v1'',
     ko_Meta = \<lparr>om_Name = ''i'', om_Namespace = ''ns'', om_UID = ''u'', om_ResourceVersion = ''1'',
       om_CreationTimestamp = '''', om_ManagedFields = [], om_Rest = ''''\<rparr>,
     ni_IngressClassName = None, ni_DefaultBackend = None, ni_TLS = [],
     ni_Rules = [\<lparr>nr_Host = ''h'', nr_HTTP = Some [\<lparr>np_Path = ''/a'', np_PathType = None,
       np_Backend = \<lparr>nb_Service = Some \<lparr>isb_Name = ''s'', isb_Port = \<lparr>bp_Name = '''', bp_Number = 80\<rparr>\<rparr>,
                     nb_Resource = None\<rparr>\<rparr>]\<rparr>],
     ni_LoadBalancer = []\<rparr>"


end
