(* ===== verification/Argo_Watch.thy ===== *)
theory Argo_Watch
  imports K8s_Types
begin

text \<open>
  Argo rollouts and applications: the stores of \<open>pkg/agent/argo.go\<close>, the callbacks and the
  shared client of \<open>pkg/agent/k8s.go\<close>, and the discovery rounds of \<open>argoWatch\<close> in
  \<open>pkg/agent/agent.go\<close>. The contract the two stores share is the locale \<open>argo_store\<close>.
\<close>

section \<open>Callbacks\<close>

definition CallbackEventAdded :: string where "CallbackEventAdded = ''ADDED''"
definition CallbackEventDeleted :: string where "CallbackEventDeleted = ''DELETED''"
definition CallbackEventUpdated :: string where "CallbackEventUpdated = ''UPDATED''"

lemmas event_type_defs = CallbackEventAdded_def CallbackEventDeleted_def CallbackEventUpdated_def

text \<open>An element of the informer's cache: an \<open>Unstructured\<close>, or a value of another type.\<close>

datatype cache_object = CUnstructured Unstructured | COther string

record GenericCallback =
  cb_EventType :: string
  cb_Obj :: "Unstructured option"
  cb_Sotw :: "cache_object list"

text \<open>What the informer hands to the delete handler.\<close>

datatype deleted_object =
    DeletedFinalStateUnknown "Unstructured option" | DeletedUnstructured Unstructured | DeletedOther

fun deleted_obj :: "deleted_object \<Rightarrow> Unstructured option" where
  "deleted_obj (DeletedFinalStateUnknown old) = old"
| "deleted_obj (DeletedUnstructured old) = Some old"
| "deleted_obj DeletedOther = None"

definition on_add :: "Unstructured \<Rightarrow> cache_object list \<Rightarrow> GenericCallback" where
  "on_add obj sotw = \<lparr>cb_EventType = CallbackEventAdded, cb_Obj = Some obj, cb_Sotw = sotw\<rparr>"

definition on_update :: "Unstructured \<Rightarrow> Unstructured \<Rightarrow> cache_object list \<Rightarrow> GenericCallback" where
  "on_update oldObj newObj sotw =
     \<lparr>cb_EventType = CallbackEventUpdated, cb_Obj = Some newObj, cb_Sotw = sotw\<rparr>"

definition on_delete :: "deleted_object \<Rightarrow> cache_object list \<Rightarrow> GenericCallback" where
  "on_delete obj sotw =
     \<lparr>cb_EventType = CallbackEventDeleted, cb_Obj = deleted_obj obj, cb_Sotw = sotw\<rparr>"

section \<open>Deltas\<close>

datatype DeltaType = ObjectAdd | ObjectUpdate | ObjectDelete

record Delta =
  dl_APIVersion :: string
  dl_Kind :: string
  dl_Name :: string
  dl_Namespace :: string
  dl_CreationTimestamp :: string
  dl_DeltaType :: "DeltaType option"

text \<open>An unknown event type leaves the zero value, here \<open>None\<close>.\<close>

definition toKatesDeltaType :: "string \<Rightarrow> DeltaType option" where
  "toKatesDeltaType t =
     (if t = CallbackEventAdded then Some ObjectAdd
      else if t = CallbackEventUpdated then Some ObjectUpdate
      else if t = CallbackEventDeleted then Some ObjectDelete
      else None)"

definition toDelta :: "Unstructured \<Rightarrow> string \<Rightarrow> Delta" where
  "toDelta obj t =
     \<lparr>dl_APIVersion = ko_APIVersion obj, dl_Kind = ko_Kind obj, dl_Name = GetName obj,
      dl_Namespace = GetNamespace obj, dl_CreationTimestamp = om_CreationTimestamp (ko_Meta obj),
      dl_DeltaType = toKatesDeltaType t\<rparr>"

fun toUntructuredMap_from ::
  "(string, Unstructured) gomap \<Rightarrow> cache_object list \<Rightarrow> go_error + (string, Unstructured) gomap" where
  "toUntructuredMap_from results [] = Inr results"
| "toUntructuredMap_from results (CUnstructured u # objs) =
     toUntructuredMap_from (AList.update (GetUID u) u results) objs"
| "toUntructuredMap_from results (COther t # objs) =
     Inl (ErrText (''toUntructuredSlice error: obj is '' @ t @ '': expected unstructured.Unstructured''))"

definition toUntructuredMap ::
  "cache_object list \<Rightarrow> go_error + (string, Unstructured) gomap" where
  "toUntructuredMap objs = toUntructuredMap_from [] objs"

section \<open>The stores\<close>

text \<open>A nil map is \<open>None\<close>. A callback without an object is a nil dereference.\<close>

record RolloutStore =
  rs_deltas :: "Delta list"
  rs_sotw :: "(string, Unstructured) gomap option"

record ApplicationStore =
  as_deltas :: "Delta list"
  as_sotw :: "(string, Unstructured) gomap option"

definition NewRolloutStore :: RolloutStore where
  "NewRolloutStore = \<lparr>rs_deltas = [], rs_sotw = None\<rparr>"

definition NewApplicationStore :: ApplicationStore where
  "NewApplicationStore = \<lparr>as_deltas = [], as_sotw = None\<rparr>"

definition RolloutStore_Deltas :: "RolloutStore \<Rightarrow> Delta list" where
  "RolloutStore_Deltas s = rs_deltas s"

definition ApplicationStore_Deltas :: "ApplicationStore \<Rightarrow> Delta list" where
  "ApplicationStore_Deltas a = as_deltas a"

type_synonym uid_range = "(string \<times> Unstructured) list \<Rightarrow> (string \<times> Unstructured) list"

definition RolloutStore_StateOfWorld :: "uid_range \<Rightarrow> RolloutStore \<Rightarrow> Unstructured list" where
  "RolloutStore_StateOfWorld ord a =
     (case rs_sotw a of None \<Rightarrow> [] | Some m \<Rightarrow> map snd (ord m))"

definition ApplicationStore_StateOfWorld :: "uid_range \<Rightarrow> ApplicationStore \<Rightarrow> Unstructured list" where
  "ApplicationStore_StateOfWorld ord a =
     (case as_sotw a of None \<Rightarrow> [] | Some m \<Rightarrow> map snd (ord m))"

definition sotw_event ::
  "string \<Rightarrow> Unstructured \<Rightarrow> (string, Unstructured) gomap \<Rightarrow> (string, Unstructured) gomap" where
  "sotw_event t obj m =
     (if t = CallbackEventAdded \<or> t = CallbackEventUpdated then AList.update (GetUID obj) obj m
      else if t = CallbackEventDeleted then AList.delete (GetUID obj) m
      else m)"

text \<open>
  The receiver after the call, and the error. With an error the code returns a nil store; the
  receiver is unchanged.
\<close>

definition RolloutStore_FromCallback ::
  "RolloutStore \<Rightarrow> GenericCallback \<Rightarrow> (unit, RolloutStore \<times> go_error option) outcome" where
  "RolloutStore_FromCallback r callback =
     (case (case rs_sotw r of None \<Rightarrow> toUntructuredMap (cb_Sotw callback) | Some m \<Rightarrow> Inr m) of
        Inl err \<Rightarrow> Ret (r, Some err)
      | Inr m \<Rightarrow>
          (case cb_Obj callback of
             None \<Rightarrow> Panic ()
           | Some obj \<Rightarrow>
               Ret (r\<lparr>rs_deltas := rs_deltas r @ [toDelta obj (cb_EventType callback)],
                      rs_sotw := Some (sotw_event (cb_EventType callback) obj m)\<rparr>, None)))"

definition ApplicationStore_FromCallback ::
  "ApplicationStore \<Rightarrow> GenericCallback \<Rightarrow> (unit, ApplicationStore \<times> go_error option) outcome" where
  "ApplicationStore_FromCallback a callback =
     (case (case as_sotw a of None \<Rightarrow> toUntructuredMap (cb_Sotw callback) | Some m \<Rightarrow> Inr m) of
        Inl err \<Rightarrow> Ret (a, Some err)
      | Inr m \<Rightarrow>
          (case cb_Obj callback of
             None \<Rightarrow> Panic ()
           | Some obj \<Rightarrow>
               Ret (a\<lparr>as_deltas := as_deltas a @ [toDelta obj (cb_EventType callback)],
                      as_sotw := Some (sotw_event (cb_EventType callback) obj m)\<rparr>, None)))"

section \<open>The watch goroutines\<close>

text \<open>
  One round of \<open>argoRolloutWatch\<close> and \<open>argoApplicationWatch\<close>: the local store, and the store
  published to the agent, which is nil after an error.
\<close>

definition argoRolloutWatch_step ::
  "RolloutStore \<Rightarrow> GenericCallback \<Rightarrow> (unit, RolloutStore \<times> RolloutStore option) outcome" where
  "argoRolloutWatch_step rolloutStore callback =
     bind_outcome (RolloutStore_FromCallback rolloutStore callback) (\<lambda>(r, err).
       Ret (r, (case err of None \<Rightarrow> Some r | Some e \<Rightarrow> None)))"

definition argoApplicationWatch_step ::
  "ApplicationStore \<Rightarrow> GenericCallback \<Rightarrow> (unit, ApplicationStore \<times> ApplicationStore option) outcome" where
  "argoApplicationWatch_step applicationStore callback =
     bind_outcome (ApplicationStore_FromCallback applicationStore callback) (\<lambda>(a, err).
       Ret (a, (case err of None \<Rightarrow> Some a | Some e \<Rightarrow> None)))"

fun argoRolloutWatch ::
  "RolloutStore \<Rightarrow> RolloutStore option \<Rightarrow> GenericCallback list \<Rightarrow>
   (unit, RolloutStore \<times> RolloutStore option) outcome" where
  "argoRolloutWatch local published [] = Ret (local, published)"
| "argoRolloutWatch local published (cb # cbs) =
     bind_outcome (argoRolloutWatch_step local cb) (\<lambda>(l, p). argoRolloutWatch l p cbs)"

fun argoApplicationWatch ::
  "ApplicationStore \<Rightarrow> ApplicationStore option \<Rightarrow> GenericCallback list \<Rightarrow>
   (unit, ApplicationStore \<times> ApplicationStore option) outcome" where
  "argoApplicationWatch local published [] = Ret (local, published)"
| "argoApplicationWatch local published (cb # cbs) =
     bind_outcome (argoApplicationWatch_step local cb) (\<lambda>(l, p). argoApplicationWatch l p cbs)"

section \<open>The contract of an Argo store\<close>

text \<open>
  The cluster's own state is a map from UID to object; an event is a type and an object. A
  store that has a map follows the events; a store without one first takes the listing of the
  callback.
\<close>

type_synonym cluster = "string \<rightharpoonup> Unstructured"

definition cluster_event :: "string \<times> Unstructured \<Rightarrow> cluster \<Rightarrow> cluster" where
  "cluster_event e c =
     (if fst e = CallbackEventAdded \<or> fst e = CallbackEventUpdated then c(GetUID (snd e) \<mapsto> snd e)
      else if fst e = CallbackEventDeleted then c(GetUID (snd e) := None)
      else c)"

definition cluster_run :: "(string \<times> Unstructured) list \<Rightarrow> cluster \<Rightarrow> cluster" where
  "cluster_run es c = fold cluster_event es c"

definition event_ok :: "string \<times> Unstructured \<Rightarrow> bool" where
  "event_ok e \<longleftrightarrow> fst e \<in> {CallbackEventAdded, CallbackEventUpdated, CallbackEventDeleted}"

text \<open>A listing of the cache shows a cluster state when it holds exactly its objects.\<close>

definition lists :: "cache_object list \<Rightarrow> cluster \<Rightarrow> bool" where
  "lists l c \<longleftrightarrow> (\<exists>us. l = map CUnstructured us \<and>
     (\<forall>k. c k = (case filter (\<lambda>u. GetUID u = k) us of [] \<Rightarrow> None | ys \<Rightarrow> Some (last ys))))"

definition callback_of :: "string \<times> Unstructured \<Rightarrow> cache_object list \<Rightarrow> GenericCallback" where
  "callback_of e l = \<lparr>cb_EventType = fst e, cb_Obj = Some (snd e), cb_Sotw = l\<rparr>"

lemma cluster_run_simps [simp]:
  "cluster_run [] c = c" "cluster_run (e # es) c = cluster_run es (cluster_event e c)"
  "cluster_run (es @ fs) c = cluster_run fs (cluster_run es c)"
  by (simp_all add: cluster_run_def)

text \<open>Replaying a history over a state its prefix already reached changes nothing in the end.\<close>

lemma cluster_run_untouched:
  "k \<notin> (GetUID \<circ> snd) ` set es \<Longrightarrow> cluster_run es c k = c k"
  by (induction es arbitrary: c) (auto simp: cluster_event_def)

lemma cluster_run_touched:
  assumes "k \<in> (GetUID \<circ> snd) ` set es" and "\<forall>e \<in> set es. event_ok e"
  shows "cluster_run es c k = cluster_run es c' k"
  using assms
proof (induction es arbitrary: c c')
  case Nil
  then show ?case by simp
next
  case (Cons e es)
  show ?case
  proof (cases "k \<in> (GetUID \<circ> snd) ` set es")
    case True
    with Cons show ?thesis by simp
  next
    case False
    with Cons.prems have "k = GetUID (snd e)" and "event_ok e" by auto
    then have "cluster_event e c k = cluster_event e c' k"
      by (auto simp: cluster_event_def event_ok_def)
    with False show ?thesis by (simp add: cluster_run_untouched)
  qed
qed

lemma cluster_run_replay:
  assumes "\<forall>e \<in> set (es @ fs). event_ok e"
  shows "cluster_run (es @ fs) (cluster_run es c) = cluster_run (es @ fs) c"
proof
  fix k
  show "cluster_run (es @ fs) (cluster_run es c) k = cluster_run (es @ fs) c k"
  proof (cases "k \<in> (GetUID \<circ> snd) ` set (es @ fs)")
    case True
    then show ?thesis using assms by (rule cluster_run_touched)
  next
    case False
    moreover from False have "cluster_run es c k = c k"
      by (intro cluster_run_untouched) auto
    ultimately show ?thesis using cluster_run_untouched by metis
  qed
qed

lemma toUntructuredMap_lists:
  "lists l c \<Longrightarrow> \<exists>m. toUntructuredMap l = Inr m \<and> gomap_wf m \<and> map_of m = c"
proof -
  assume "lists l c"
  then obtain us where l: "l = map CUnstructured us"
    and c: "\<And>k. c k = (case filter (\<lambda>u. GetUID u = k) us of [] \<Rightarrow> None | ys \<Rightarrow> Some (last ys))"
    by (auto simp: lists_def)
  have "toUntructuredMap_from m (map CUnstructured us) = Inr (put_all (\<lambda>u. GetUID u) us m)" for m
    by (induction us arbitrary: m) simp_all
  then have "toUntructuredMap l = Inr (put_all (\<lambda>u. GetUID u) us [])"
    by (simp add: toUntructuredMap_def l)
  moreover have "map_of (put_all (\<lambda>u. GetUID u) us []) = c"
    by (auto simp: map_of_put_all c fun_eq_iff split: list.split)
  ultimately show ?thesis by (simp add: gomap_wf_put_all)
qed

lemma sotw_event_cluster:
  "gomap_wf m \<Longrightarrow> gomap_wf (sotw_event t obj m) \<and>
     map_of (sotw_event t obj m) = cluster_event (t, obj) (map_of m)"
  by (auto simp: sotw_event_def cluster_event_def fun_eq_iff map_of_update_iff map_of_delete_iff)

text \<open>
  A store shows a cluster when its map holds exactly the objects of the cluster. Running a
  list of callbacks stops at the first error or panic.
\<close>

definition shows_cluster :: "(string, Unstructured) gomap option \<Rightarrow> cluster \<Rightarrow> bool" where
  "shows_cluster sm c \<longleftrightarrow> (\<exists>m. sm = Some m \<and> gomap_wf m \<and> map_of m = c)"

fun replay ::
  "('s \<Rightarrow> GenericCallback \<Rightarrow> (unit, 's \<times> go_error option) outcome) \<Rightarrow> 's \<Rightarrow>
   GenericCallback list \<Rightarrow> 's option" where
  "replay f s [] = Some s"
| "replay f s (cb # cbs) = (case f s cb of Ret (s', None) \<Rightarrow> replay f s' cbs | _ \<Rightarrow> None)"

locale argo_store =
  fixes sotw :: "'s \<Rightarrow> (string, Unstructured) gomap option"
    and from_callback :: "'s \<Rightarrow> GenericCallback \<Rightarrow> (unit, 's \<times> go_error option) outcome"
    and world :: "uid_range \<Rightarrow> 's \<Rightarrow> Unstructured list"
  assumes has_map: "sotw s = Some m \<Longrightarrow> cb_Obj cb = Some obj \<Longrightarrow>
      \<exists>s'. from_callback s cb = Ret (s', None) \<and> sotw s' = Some (sotw_event (cb_EventType cb) obj m)"
    and first_map: "sotw s = None \<Longrightarrow> cb_Obj cb = Some obj \<Longrightarrow> toUntructuredMap (cb_Sotw cb) = Inr m \<Longrightarrow>
      \<exists>s'. from_callback s cb = Ret (s', None) \<and> sotw s' = Some (sotw_event (cb_EventType cb) obj m)"
    and world_map: "world ord s = (case sotw s of None \<Rightarrow> [] | Some m \<Rightarrow> map snd (ord m))"
begin

lemma step_shows:
  assumes "shows_cluster (sotw s) c"
  shows "\<exists>s'. from_callback s (callback_of e l) = Ret (s', None) \<and> shows_cluster (sotw s') (cluster_event e c)"
proof -
  from assms obtain m where m: "sotw s = Some m" "gomap_wf m" "map_of m = c"
    by (auto simp: shows_cluster_def)
  obtain t obj where e: "e = (t, obj)" by (cases e)
  from has_map [OF m(1), of "callback_of e l" obj] e obtain s' where
    "from_callback s (callback_of e l) = Ret (s', None)" "sotw s' = Some (sotw_event t obj m)"
    by (auto simp: callback_of_def)
  with sotw_event_cluster [OF m(2), of t obj] m(3) e show ?thesis
    by (auto simp: shows_cluster_def)
qed

lemma run_shows:
  assumes "shows_cluster (sotw s) c" and "length ls = length es"
  shows "\<exists>s'. replay from_callback s (map2 callback_of es ls) = Some s' \<and> shows_cluster (sotw s') (cluster_run es c)"
  using assms(2,1)
proof (induction ls es arbitrary: s c rule: list_induct2)
  case Nil
  then show ?case by simp
next
  case (Cons l ls e es)
  from step_shows [OF Cons.prems, of e l] obtain s1 where
    s1: "from_callback s (callback_of e l) = Ret (s1, None)" "shows_cluster (sotw s1) (cluster_event e c)"
    by blast
  from Cons.IH [OF s1(2)] s1(1) show ?case by auto
qed

text \<open>
  Eventual consistency: the listing taken at the first callback may run ahead of that callback
  (it shows the state after a longer prefix of the history); once every event of the history
  was handled, the store shows the state of the cluster.
\<close>

lemma run_consistent:
  assumes new: "sotw s = None" and es: "es @ fs = e # rest" and ok: "\<forall>x \<in> set (es @ fs). event_ok x"
    and l: "lists l (cluster_run es c)" and len: "length ls = length rest"
  shows "\<exists>s'. replay from_callback s (map2 callback_of (e # rest) (l # ls)) = Some s' \<and>
    shows_cluster (sotw s') (cluster_run (es @ fs) c)"
proof -
  from toUntructuredMap_lists [OF l] obtain m where
    m: "toUntructuredMap l = Inr m" "gomap_wf m" "map_of m = cluster_run es c" by blast
  obtain t obj where e: "e = (t, obj)" by (cases e)
  from first_map [OF new, of "callback_of e l" obj m] m(1) e obtain s1 where
    s1: "from_callback s (callback_of e l) = Ret (s1, None)" "sotw s1 = Some (sotw_event t obj m)"
    by (auto simp: callback_of_def)
  with sotw_event_cluster [OF m(2), of t obj] m(3) e
  have "shows_cluster (sotw s1) (cluster_event e (cluster_run es c))"
    by (auto simp: shows_cluster_def)
  from run_shows [OF this len] obtain s' where
    "replay from_callback s1 (map2 callback_of rest ls) = Some s'"
    "shows_cluster (sotw s') (cluster_run rest (cluster_event e (cluster_run es c)))" by blast
  moreover have "cluster_run rest (cluster_event e (cluster_run es c)) = cluster_run (es @ fs) c"
    using cluster_run_replay [OF ok, of c] es by simp
  ultimately show ?thesis using s1(1) by simp
qed

lemma world_shows:
  assumes "shows_cluster (sotw s) c" and "range_ok ord" and "\<forall>k u. c k = Some u \<longrightarrow> GetUID u = k"
  shows "set (world ord s) = ran c \<and> distinct (map (\<lambda>u. GetUID u) (world ord s))"
proof -
  from assms(1) obtain m where m: "sotw s = Some m" "gomap_wf m" "map_of m = c"
    by (auto simp: shows_cluster_def)
  have w: "world ord s = map snd (ord m)" by (simp add: world_map m(1))
  have mem: "(k, u) \<in> set m \<longleftrightarrow> c k = Some u" for k u
    using gomap_mem_iff [OF m(2)] m(3) by simp
  have "set (world ord s) = ran c"
  proof (intro set_eqI)
    fix u
    have "u \<in> set (world ord s) \<longleftrightarrow> (\<exists>k. (k, u) \<in> set m)"
      by (force simp: w range_ok_set [OF assms(2)])
    then show "u \<in> set (world ord s) \<longleftrightarrow> u \<in> ran c" by (simp add: mem ran_def)
  qed
  moreover have "map (\<lambda>u. GetUID u) (world ord s) = map fst (ord m)"
    using range_ok_set [OF assms(2)] assms(3) mem by (auto simp: w)
  ultimately show ?thesis
    using m(2) range_ok_map_distinct [OF assms(2), where f = fst] by (simp add: gomap_wf_def)
qed

end

interpretation rollouts: argo_store rs_sotw RolloutStore_FromCallback RolloutStore_StateOfWorld
  by unfold_locales (auto simp: RolloutStore_FromCallback_def RolloutStore_StateOfWorld_def)

interpretation applications:
  argo_store as_sotw ApplicationStore_FromCallback ApplicationStore_StateOfWorld
  by unfold_locales (auto simp: ApplicationStore_FromCallback_def ApplicationStore_StateOfWorld_def)

text \<open>The watch goroutine publishes the store that \<open>run\<close> computes.\<close>

lemma argoRolloutWatch_run:
  "replay RolloutStore_FromCallback s (cb # cbs) = Some s' \<Longrightarrow> argoRolloutWatch s p (cb # cbs) = Ret (s', Some s')"
proof (induction cbs arbitrary: s p cb)
  case Nil
  then show ?case
    by (auto simp: argoRolloutWatch_step_def split: outcome.splits prod.splits option.splits)
next
  case (Cons a cbs)
  from Cons.prems obtain s1 where s1: "RolloutStore_FromCallback s cb = Ret (s1, None)"
    and r: "replay RolloutStore_FromCallback s1 (a # cbs) = Some s'"
    by (auto split: outcome.splits prod.splits option.splits)
  from Cons.IH [OF r, of "Some s1"] s1 show ?case
    by (simp add: argoRolloutWatch_step_def)
qed

section \<open>The shared client\<close>

text \<open>
  \<open>DynamicClient\<close> serves several watches. The state of the world around it: the client's
  \<open>done\<close> flag, the channels that are closed, and per channel the callbacks received. A handler
  sends under the client's lock, so a send is one step; the goroutine of a watch closes its
  channel when its context ends, and sets the flag of the client.
\<close>

record DynamicClient =
  dc_done :: bool
  dc_closed :: "nat \<Rightarrow> bool"
  dc_received :: "nat \<Rightarrow> GenericCallback list"

definition NewDynamicClient :: DynamicClient where
  "NewDynamicClient = \<lparr>dc_done = False, dc_closed = (\<lambda>_. False), dc_received = (\<lambda>_. [])\<rparr>"

text \<open>A send on a closed channel panics.\<close>

definition sendCallback :: "nat \<Rightarrow> GenericCallback \<Rightarrow> DynamicClient \<Rightarrow>
    (unit, DynamicClient) outcome" where
  "sendCallback ch callback dc =
     (if dc_done dc then Ret dc
      else if dc_closed dc ch then Panic ()
      else Ret (dc\<lparr>dc_received := (dc_received dc)(ch := dc_received dc ch @ [callback])\<rparr>))"

definition watch_cancelled :: "nat \<Rightarrow> DynamicClient \<Rightarrow> DynamicClient" where
  "watch_cancelled ch dc = dc\<lparr>dc_done := True, dc_closed := (dc_closed dc)(ch := True)\<rparr>"

datatype client_event = Fire nat GenericCallback | WatchCancelled nat

fun client_step :: "client_event \<Rightarrow> DynamicClient \<Rightarrow> (unit, DynamicClient) outcome" where
  "client_step (Fire ch cb) dc = sendCallback ch cb dc"
| "client_step (WatchCancelled ch) dc = Ret (watch_cancelled ch dc)"

fun client_run :: "client_event list \<Rightarrow> DynamicClient \<Rightarrow> (unit, DynamicClient) outcome" where
  "client_run [] dc = Ret dc"
| "client_run (e # es) dc = bind_outcome (client_step e dc) (client_run es)"

definition client_inv :: "DynamicClient \<Rightarrow> bool" where
  "client_inv dc \<longleftrightarrow> (\<forall>ch. dc_closed dc ch \<longrightarrow> dc_done dc)"

lemma client_inv_new: "client_inv NewDynamicClient"
  by (simp add: client_inv_def NewDynamicClient_def)

lemma client_step_inv:
  "client_inv dc \<Longrightarrow> \<exists>dc'. client_step e dc = Ret dc' \<and> client_inv dc' \<and>
     (dc_done dc \<longrightarrow> dc_done dc' \<and> dc_received dc' = dc_received dc)"
  by (cases e) (auto simp: sendCallback_def watch_cancelled_def client_inv_def)

lemma client_run_inv:
  "client_inv dc \<Longrightarrow> \<exists>dc'. client_run es dc = Ret dc' \<and> client_inv dc' \<and>
     (dc_done dc \<longrightarrow> dc_done dc' \<and> dc_received dc' = dc_received dc)"
proof (induction es arbitrary: dc)
  case Nil
  then show ?case by simp
next
  case (Cons e es)
  from client_step_inv [OF Cons.prems] obtain dc1 where
    dc1: "client_step e dc = Ret dc1" "client_inv dc1"
    "dc_done dc \<longrightarrow> dc_done dc1 \<and> dc_received dc1 = dc_received dc" by blast
  from Cons.IH [OF dc1(2)] dc1 show ?case by auto
qed

lemma client_run_append:
  "client_run (es @ fs) dc = bind_outcome (client_run es dc) (client_run fs)"
proof (induction es arbitrary: dc)
  case Nil
  then show ?case by simp
next
  case (Cons e es)
  then show ?case by (cases "client_step e dc") simp_all
qed

section \<open>Discovery rounds\<close>

text \<open>
  One pass of the loop of \<open>argoWatch\<close>: it starts the watch of a resource that the cluster has
  and that is not watched, and cancels the watch of a resource that went away.
\<close>

record GroupVersionResource =
  gvr_GroupVersion :: string
  gvr_Resource :: string

record APIResourceList =
  rl_GroupVersion :: string
  rl_APIResources :: "string list"

fun hasResource :: "APIResourceList list \<Rightarrow> GroupVersionResource \<Rightarrow> bool" where
  "hasResource [] r = False"
| "hasResource (rl # rls) r =
     (if gvr_GroupVersion r = rl_GroupVersion rl \<and> gvr_Resource r \<in> set (rl_APIResources rl)
      then True else hasResource rls r)"

definition rolloutGvr :: GroupVersionResource where
  "rolloutGvr = \<lparr>gvr_GroupVersion = ''argoproj.io/v1alpha1'', gvr_Resource = ''rollouts''\<rparr>"

definition applicationGvr :: GroupVersionResource where
  "applicationGvr = \<lparr>gvr_GroupVersion = ''argoproj.io/v1alpha1'', gvr_Resource = ''applications''\<rparr>"

datatype argo_action = StartRollouts | CancelRollouts | StartApplications | CancelApplications

record argo_watch =
  aw_cancelRollout :: bool
  aw_cancelApplication :: bool

definition argoWatch_round ::
  "APIResourceList list \<Rightarrow> argo_watch \<Rightarrow> argo_watch \<times> argo_action list \<times> nat" where
  "argoWatch_round resourcesLists aw =
     (let hasR = hasResource resourcesLists rolloutGvr;
          hasA = hasResource resourcesLists applicationGvr;
          acts = (if hasR \<and> \<not> aw_cancelRollout aw then [StartRollouts]
                  else if \<not> hasR \<and> aw_cancelRollout aw then [CancelRollouts] else []) @
                 (if hasA \<and> \<not> aw_cancelApplication aw then [StartApplications]
                  else if \<not> hasA \<and> aw_cancelApplication aw then [CancelApplications] else []);
          aw' = \<lparr>aw_cancelRollout = hasR, aw_cancelApplication = hasA\<rparr>;
          minutes = (if hasR \<and> hasA then 30 else 1)
      in (aw', acts, minutes))"

lemma hasResource_iff:
  "hasResource rls r \<longleftrightarrow>
     (\<exists>rl \<in> set rls. rl_GroupVersion rl = gvr_GroupVersion r \<and> gvr_Resource r \<in> set (rl_APIResources rl))"
  by (induction rls) auto

lemma argoApplicationWatch_run:
  "replay ApplicationStore_FromCallback s (cb # cbs) = Some s' \<Longrightarrow>
   argoApplicationWatch s p (cb # cbs) = Ret (s', Some s')"
proof (induction cbs arbitrary: s p cb)
  case Nil
  then show ?case
    by (auto simp: argoApplicationWatch_step_def split: outcome.splits prod.splits option.splits)
next
  case (Cons a cbs)
  from Cons.prems obtain s1 where s1: "ApplicationStore_FromCallback s cb = Ret (s1, None)"
    and r: "replay ApplicationStore_FromCallback s1 (a # cbs) = Some s'"
    by (auto split: outcome.splits prod.splits option.splits)
  from Cons.IH [OF r, of "Some s1"] s1 show ?case
    by (simp add: argoApplicationWatch_step_def)
qed

section \<open>Properties\<close>

text \<open>
  C4: After the callbacks of a history of events, the rollout store the agent publishes holds
  exactly the rollouts of the cluster at the end of the history, although the listing it starts
  from may already include later events than the first callback. The same holds for the
  applications.
\<close>

theorem argo_eventually_consistent:
  assumes "es @ fs = e # rest" and "\<forall>x \<in> set (es @ fs). event_ok x"
    and "lists l (cluster_run es c)" and "length ls = length rest"
  shows "\<exists>r a. argoRolloutWatch NewRolloutStore None (map2 callback_of (e # rest) (l # ls)) = Ret (r, Some r) \<and>
    shows_cluster (rs_sotw r) (cluster_run (es @ fs) c) \<and>
    argoApplicationWatch NewApplicationStore None (map2 callback_of (e # rest) (l # ls)) = Ret (a, Some a) \<and>
    shows_cluster (as_sotw a) (cluster_run (es @ fs) c)"
proof -
  from rollouts.run_consistent [OF _ assms, of NewRolloutStore] obtain r where
    r: "replay RolloutStore_FromCallback NewRolloutStore (map2 callback_of (e # rest) (l # ls)) = Some r"
    "shows_cluster (rs_sotw r) (cluster_run (es @ fs) c)" by (auto simp: NewRolloutStore_def)
  from applications.run_consistent [OF _ assms, of NewApplicationStore] obtain a where
    a: "replay ApplicationStore_FromCallback NewApplicationStore (map2 callback_of (e # rest) (l # ls)) = Some a"
    "shows_cluster (as_sotw a) (cluster_run (es @ fs) c)" by (auto simp: NewApplicationStore_def)
  have cb: "map2 callback_of (e # rest) (l # ls) = callback_of e l # map2 callback_of rest ls" by simp
  show ?thesis
    using r a argoRolloutWatch_run [OF r(1) [unfolded cb], of None]
      argoApplicationWatch_run [OF a(1) [unfolded cb], of None]
    unfolding cb by blast
qed

definition sample_rollout_object :: "string \<Rightarrow> Unstructured" where
  "sample_rollout_object uid = \<lparr>ko_Kind = ''Rollout'', ko_APIVersion = ''argoproj.io/v1alpha1'',
     ko_Meta = \<lparr>om_Name = ''r'', om_Namespace = ''ns'', om_UID = uid, om_ResourceVersion = ''1'',
       om_CreationTimestamp = '''', om_ManagedFields = [], om_Rest = ''''\<rparr>, un_Rest = ''''\<rparr>"

lemma argo_eventually_consistent_witness:
  "\<exists>r. argoRolloutWatch NewRolloutStore None
      [callback_of (''ADDED'', sample_rollout_object ''u'') [CUnstructured (sample_rollout_object ''u'')],
       callback_of (''DELETED'', sample_rollout_object ''u'') []] = Ret (r, Some r) \<and>
    shows_cluster (rs_sotw r) Map.empty"
proof -
  let ?o = "sample_rollout_object ''u''"
  have key: "cluster_run [(''ADDED'', ?o), (''DELETED'', ?o)] Map.empty = Map.empty"
    by (simp add: cluster_event_def event_type_defs)
  have ok: "event_ok (''ADDED'', ?o)" "event_ok (''DELETED'', ?o)"
    by (simp_all add: event_ok_def event_type_defs)
  have "lists [CUnstructured ?o] (cluster_run [(''ADDED'', ?o)] Map.empty)"
    unfolding lists_def
    by (intro exI [of _ "[?o]"])
      (simp add: cluster_event_def event_type_defs sample_rollout_object_def)
  from argo_eventually_consistent [of "[(''ADDED'', ?o)]" "[(''DELETED'', ?o)]" "(''ADDED'', ?o)"
      "[(''DELETED'', ?o)]", OF _ _ this, of "[[]]"] ok key
  obtain r where "argoRolloutWatch NewRolloutStore None (map2 callback_of [(''ADDED'', ?o), (''DELETED'', ?o)]
      [[CUnstructured ?o], []]) = Ret (r, Some r)" "shows_cluster (rs_sotw r) Map.empty"
    by auto
  then show ?thesis by (auto simp del: argoRolloutWatch.simps)
qed

text \<open>
  C39: Once the watch of one resource is cancelled, no callback reaches any watch of the shared
  client any more, the watch of the other resource included, however long it goes on; nothing
  panics, the events are silently lost.
\<close>

theorem cancelled_watch_silences_all:
  "\<exists>dc dc'. client_run es NewDynamicClient = Ret dc \<and>
     client_run (es @ WatchCancelled ch # fs) NewDynamicClient = Ret dc' \<and>
     dc_received dc' = dc_received dc"
proof -
  from client_run_inv [OF client_inv_new, of es] obtain dc where
    dc: "client_run es NewDynamicClient = Ret dc" "client_inv dc" by blast
  have inv: "client_inv (watch_cancelled ch dc)" using dc(2) by (simp add: client_inv_def watch_cancelled_def)
  from client_run_inv [OF inv, of fs] obtain dc' where
    "client_run fs (watch_cancelled ch dc) = Ret dc'" "dc_received dc' = dc_received (watch_cancelled ch dc)"
    by (auto simp: watch_cancelled_def)
  with dc show ?thesis by (simp add: client_run_append watch_cancelled_def)
qed

end
