(* ===== verification/Api_Docs.thy ===== *)
theory Api_Docs
  imports K8s_Types Go_Url
begin

text \<open>
  The store of API documents (\<open>pkg/agent/api_docs.go\<close>): which mappings carry documents, the
  schedule of the scrapes, the scrape itself, the difference calculator that decides what to
  delete, and the conversion to the snapshot. The HTTP client and the OpenAPI library are
  parameters.
\<close>

section \<open>Which mappings are processed\<close>

fun getProcessableMappings_from :: "Mapping option list \<Rightarrow> Mapping list" where
  "getProcessableMappings_from [] = []"
| "getProcessableMappings_from (None # ms) = getProcessableMappings_from ms"
| "getProcessableMappings_from (Some mapping # ms) =
     (case m_Docs mapping of
        None \<Rightarrow> getProcessableMappings_from ms
      | Some docs \<Rightarrow>
          if md_Ignored docs = Some True then getProcessableMappings_from ms
          else mapping # getProcessableMappings_from ms)"

definition getProcessableMappingsFromSnapshot :: "Snapshot option \<Rightarrow> Mapping list" where
  "getProcessableMappingsFromSnapshot snapshot =
     (case snapshot of
        None \<Rightarrow> []
      | Some sn \<Rightarrow> (case sn_Kubernetes sn of
          None \<Rightarrow> []
        | Some k \<Rightarrow> getProcessableMappings_from (ks_Mappings k)))"

section \<open>Request headers\<close>

record Header =
  hd_Name :: string
  hd_Value :: string

definition buildMappingRequestHeaders ::
  "((string \<times> string) list \<Rightarrow> (string \<times> string) list) \<Rightarrow> (string, string) gomap \<Rightarrow> Header list" where
  "buildMappingRequestHeaders ord mappingHeaders =
     [\<lparr>hd_Name = fst kv, hd_Value = snd kv\<rparr>. kv \<leftarrow> ord mappingHeaders, fst kv \<noteq> '':authority'']"

section \<open>The difference calculator\<close>

type_synonym mappingDocMap = "(string, bool) gomap"

record docMappingRef =
  dm_Ref :: "ObjectReference option"
  dm_Name :: string

record docsDiffCalculator =
  dd_previous :: mappingDocMap
  dd_current :: mappingDocMap

text \<open>A known mapping without a reference is a nil dereference.\<close>

fun known_map :: "docMappingRef list \<Rightarrow> mappingDocMap \<Rightarrow> mappingDocMap option" where
  "known_map [] km = Some km"
| "known_map (m # ms) km =
     (case dm_Ref m of
        None \<Rightarrow> None
      | Some r \<Rightarrow> known_map ms (AList.update (ref_UID r) True km))"

definition newMappingDocsCalculator :: "docMappingRef list \<Rightarrow> docsDiffCalculator option" where
  "newMappingDocsCalculator known =
     map_option (\<lambda>knownMap. \<lparr>dd_previous = knownMap, dd_current = []\<rparr>) (known_map known [])"

type_synonym doc_range = "(string \<times> bool) list \<Rightarrow> (string \<times> bool) list"

definition newRound :: "doc_range \<Rightarrow> docsDiffCalculator \<Rightarrow> string list \<times> docsDiffCalculator" where
  "newRound ord d =
     ([fst previousRef. previousRef \<leftarrow> ord (dd_previous d),
         map_of (dd_current d) (fst previousRef) \<noteq> Some True],
      \<lparr>dd_previous = dd_current d, dd_current = []\<rparr>)"

definition docsDiff_add :: "docMappingRef option \<Rightarrow> docsDiffCalculator \<Rightarrow> docsDiffCalculator" where
  "docsDiff_add dm d =
     (case dm of
        None \<Rightarrow> d
      | Some m \<Rightarrow> (case dm_Ref m of
          None \<Rightarrow> d
        | Some r \<Rightarrow> d\<lparr>dd_current := AList.update (ref_UID r) True (dd_current d)\<rparr>))"

section \<open>The in-memory store\<close>

record openAPIDoc =
  oad_JSON :: "byte list"
  oad_Type :: string
  oad_Version :: string

record docsRef =
  dr_docMappingRef :: "docMappingRef option"
  dr_openAPIDoc :: "openAPIDoc option"

type_synonym docsRefMap = "(string, docsRef) gomap"

definition store_add :: "ObjectReference \<Rightarrow> string \<Rightarrow> openAPIDoc \<Rightarrow> docsRefMap \<Rightarrow> docsRefMap" where
  "store_add r name doc entries =
     AList.update (ref_UID r)
       \<lparr>dr_docMappingRef = Some \<lparr>dm_Ref = Some r, dm_Name = name\<rparr>, dr_openAPIDoc = Some doc\<rparr> entries"

definition deleteRefUID :: "string \<Rightarrow> docsRefMap \<Rightarrow> docsRefMap" where
  "deleteRefUID mappingRefUID entries =
     fold (\<lambda>entryUID es. if mappingRefUID = entryUID then AList.delete entryUID es else es)
       (map fst entries) entries"

type_synonym store_range = "(string \<times> docsRef) list \<Rightarrow> (string \<times> docsRef) list"

definition getAll :: "store_range \<Rightarrow> docsRefMap \<Rightarrow> docsRef list" where
  "getAll ord entries = map snd (ord entries)"

fun toAPIDocs :: "docsRef list \<Rightarrow> APIDoc list" where
  "toAPIDocs [] = []"
| "toAPIDocs (doc # docs) =
     (case (dr_docMappingRef doc, dr_openAPIDoc doc) of
        (Some m, Some d) \<Rightarrow>
          \<lparr>ad_Data = oad_JSON d, ad_Kind = oad_Type d, ad_APIVersion = oad_Version d,
           ad_Name = dm_Name m, ad_TargetRef = dm_Ref m\<rparr> # toAPIDocs docs
      | _ \<Rightarrow> toAPIDocs docs)"

definition deleteOld ::
  "doc_range \<Rightarrow> docsDiffCalculator \<Rightarrow> docsRefMap \<Rightarrow> docsDiffCalculator \<times> docsRefMap" where
  "deleteOld ord d store =
     (case newRound ord d of (uids, d') \<Rightarrow> (d', fold deleteRefUID uids store))"

section \<open>Reading a document\<close>

text \<open>
  The OpenAPI library: load version 3, validate, read version 2, convert 2 to 3; the servers of
  a document (nil, or a list of URLs that may be nil), replacing them, and marshalling.
\<close>

record ('d, 'e) OpenAPI =
  oa_load :: "byte list \<Rightarrow> go_error + 'd"
  oa_validate :: "'d \<Rightarrow> go_error option"
  oa_unmarshal2 :: "byte list \<Rightarrow> go_error + 'e"
  oa_toV3 :: "'e \<Rightarrow> go_error + 'd"
  oa_servers :: "'d \<Rightarrow> string option list option"
  oa_set_server :: "string \<Rightarrow> 'd \<Rightarrow> 'd"
  oa_marshal :: "'d \<Rightarrow> go_error + byte list"

definition parseToOpenAPIV3 :: "('d, 'e) OpenAPI \<Rightarrow> byte list \<Rightarrow> go_error + 'd" where
  "parseToOpenAPIV3 oa docBytes =
     (case oa_load oa docBytes of
        Inl err \<Rightarrow> Inl (ErrWrap ''failed to load OAS doc: '' err)
      | Inr v3Doc \<Rightarrow>
          (case oa_validate oa v3Doc of
             None \<Rightarrow> Inr v3Doc
           | Some v3Err \<Rightarrow>
               (case oa_unmarshal2 oa docBytes of
                  Inl err \<Rightarrow> Inl (ErrText (''failed to unmarshal doc to OAS2 after OAS3 validation failure, v2: ''
                               @ Error v3Err @ '', v3: '' @ Error err))
                | Inr v2Doc \<Rightarrow>
                    (case oa_toV3 oa v2Doc of
                       Inl err \<Rightarrow> Inl (ErrText (''failed to convert OAS2 after OAS3 validation failure, v2: ''
                                    @ Error v3Err @ '', v3: '' @ Error err))
                     | Inr v3Doc2 \<Rightarrow>
                         (case oa_validate oa v3Doc2 of
                            None \<Rightarrow> Inr v3Doc2
                          | Some err \<Rightarrow>
                              Inl (ErrText (''failed to validate either original or converted OAS3 contracts, v2: ''
                                @ Error v3Err @ '', v3: '' @ Error err)))))))"

text \<open>\<open>path.Clean\<close> and \<open>path.Join\<close>: the stack of path elements is kept in reverse.\<close>

fun clean_elements :: "bool \<Rightarrow> string list \<Rightarrow> string list \<Rightarrow> string list" where
  "clean_elements rooted stack [] = rev stack"
| "clean_elements rooted stack (e # es) =
     (if e = '''' \<or> e = ''.'' then clean_elements rooted stack es
      else if e = ''..'' then
        (case stack of
           t # ts \<Rightarrow> if t = ''..'' then clean_elements rooted (e # stack) es
                     else clean_elements rooted ts es
         | [] \<Rightarrow> clean_elements rooted (if rooted then [] else [e]) es)
      else clean_elements rooted (e # stack) es)"

fun join_slash :: "string list \<Rightarrow> string" where
  "join_slash [] = ''''"
| "join_slash [e] = e"
| "join_slash (e # es) = e @ ''/'' @ join_slash es"

definition Clean :: "string \<Rightarrow> string" where
  "Clean p =
     (if p = '''' then ''.''
      else (let rooted = HasPrefix p ''/'';
                body = join_slash (clean_elements rooted [] (Split p (CHR ''/'')))
            in if rooted then ''/'' @ body else if body = '''' then ''.'' else body))"

definition Join :: "string list \<Rightarrow> string" where
  "Join elems =
     (let es = filter (\<lambda>e. e \<noteq> '''') elems in if es = [] then '''' else Clean (join_slash es))"

text \<open>
  \<open>newOpenAPI\<close>. \<open>doc.Servers[0]\<close> is read when the list is not nil: a list without elements
  panics.
\<close>

definition server_path :: "string option list option \<Rightarrow> string option" where
  "server_path servers =
     (case servers of
        None \<Rightarrow> Some ''''
      | Some [] \<Rightarrow> None
      | Some (None # _) \<Rightarrow> Some ''''
      | Some (Some currentServerURL # _) \<Rightarrow>
          (case Parse currentServerURL of Inl _ \<Rightarrow> Some '''' | Inr u \<Rightarrow> Some (url_Path u)))"

definition base_path :: "string \<Rightarrow> string \<Rightarrow> string \<Rightarrow> bool \<Rightarrow> string" where
  "base_path path prefix existingPrefix keepExistingPrefix =
     (if prefix \<noteq> '''' then
        (let prefixTrim = TrimRight prefix (CHR ''/'');
             existingPrefixTrim = TrimRight existingPrefix (CHR ''/'')
         in if existingPrefix \<noteq> '''' \<and> keepExistingPrefix \<and> prefixTrim \<noteq> existingPrefixTrim \<and>
               \<not> HasSuffix prefixTrim existingPrefixTrim
            then Join [path, prefix, existingPrefix]
            else Join [path, prefix])
      else existingPrefix)"

definition newOpenAPI ::
  "('d, 'e) OpenAPI \<Rightarrow> byte list \<Rightarrow> string \<Rightarrow> string \<Rightarrow> bool \<Rightarrow>
   (unit, openAPIDoc option) outcome" where
  "newOpenAPI oa docBytes baseURL prefix keepExistingPrefix =
     (case parseToOpenAPIV3 oa docBytes of
        Inl err \<Rightarrow> Ret None
      | Inr doc \<Rightarrow>
          (case server_path (oa_servers oa doc) of
             None \<Rightarrow> Panic ()
           | Some existingPrefix \<Rightarrow>
               (let doc' = (case Parse baseURL of
                      Inl _ \<Rightarrow> doc
                    | Inr base \<Rightarrow> oa_set_server oa (url_String (base\<lparr>url_Path :=
                        base_path (url_Path base) prefix existingPrefix keepExistingPrefix\<rparr>)) doc)
                in case oa_marshal oa doc' of
                     Inl err \<Rightarrow> Ret None
                   | Inr docJSON \<Rightarrow>
                       Ret (Some \<lparr>oad_JSON = docJSON, oad_Type = ''OpenAPI'', oad_Version = ''v3''\<rparr>))))"

section \<open>Where the documents of a mapping are\<close>

text \<open>
  \<open>extractQueryableDocsURL\<close> in its steps: the path, the URL with a host, the namespace appended
  to a host without a dot, and the scheme. The second assignment to the host reads back the
  host name just set.
\<close>

definition docs_path :: "Mapping \<Rightarrow> MappingDocs \<Rightarrow> string" where
  "docs_path mapping docs =
     (if md_Path docs \<noteq> '''' then
        ReplaceDoubleSlash ((case m_Rewrite mapping of None \<Rightarrow> ''/'' | Some r \<Rightarrow> r) @ md_Path docs)
      else md_Path docs)"

definition with_host :: "Mapping \<Rightarrow> string \<Rightarrow> URL \<Rightarrow> URL" where
  "with_host mapping path u =
     (if url_Host u = '''' then
        (let u1 = u\<lparr>url_Host := m_Service mapping, url_Path := path, url_Scheme := '''',
                    url_Opaque := ''''\<rparr>
         in ResolveReference u1 u1)
      else u)"

definition with_namespace :: "Mapping \<Rightarrow> URL \<Rightarrow> URL" where
  "with_namespace mapping u =
     (if \<not> Contains (Hostname u) ''.'' then
        (let servicePort = Port u;
             u1 = u\<lparr>url_Host := Hostname u @ ''.'' @ GetNamespace mapping\<rparr>
         in if servicePort \<noteq> '''' then u1\<lparr>url_Host := Hostname u1 @ '':'' @ servicePort\<rparr> else u1)
      else u)"

definition with_scheme :: "URL \<Rightarrow> URL" where
  "with_scheme u = (if url_Scheme u = '''' then u\<lparr>url_Scheme := ''http''\<rparr> else u)"

definition extractQueryableDocsURL :: "Mapping \<Rightarrow> MappingDocs \<Rightarrow> go_error + URL" where
  "extractQueryableDocsURL mapping docs =
     (let path = docs_path mapping docs in
      case Parse (m_Service mapping @ path) of
        Inl err \<Rightarrow> Inl err
      | Inr u \<Rightarrow> Inr (with_scheme (with_namespace mapping (with_host mapping path u))))"

section \<open>Scraping\<close>

text \<open>The HTTP client: bytes, or nil bytes, or an error.\<close>

type_synonym 'w http_get =
  "URL \<Rightarrow> string \<Rightarrow> Header list \<Rightarrow> 'w \<Rightarrow> (go_error + byte list option) \<times> 'w"

definition getDoc ::
  "'w http_get \<Rightarrow> ('d, 'e) OpenAPI \<Rightarrow> URL \<Rightarrow> string \<Rightarrow> Header list \<Rightarrow> string \<Rightarrow> string \<Rightarrow> bool \<Rightarrow> 'w \<Rightarrow>
   ('w, openAPIDoc option \<times> 'w) outcome" where
  "getDoc get oa queryURL queryHost queryHeaders publicHost prefix keepExistingPrefix w =
     (case get queryURL queryHost queryHeaders w of
        (Inl err, w1) \<Rightarrow> Ret (None, w1)
      | (Inr None, w1) \<Rightarrow> Ret (None, w1)
      | (Inr (Some b), w1) \<Rightarrow>
          (case newOpenAPI oa b publicHost prefix keepExistingPrefix of
             Ret d \<Rightarrow> Ret (d, w1) | Panic _ \<Rightarrow> Panic w1))"

definition mapping_ref :: "Mapping \<Rightarrow> ObjectReference" where
  "mapping_ref mapping =
     \<lparr>ref_Kind = ko_Kind mapping, ref_Namespace = GetNamespace mapping, ref_Name = GetName mapping,
      ref_UID = GetUID mapping, ref_APIVersion = ko_APIVersion mapping,
      ref_ResourceVersion = om_ResourceVersion (ko_Meta mapping)\<rparr>"

definition mapping_displayName :: "Mapping \<Rightarrow> MappingDocs \<Rightarrow> string" where
  "mapping_displayName mapping docs =
     (if md_DisplayName docs = '''' then GetName mapping @ ''.'' @ GetNamespace mapping
      else md_DisplayName docs)"

definition mapping_hostname :: "Mapping \<Rightarrow> string" where
  "mapping_hostname mapping =
     (if m_Hostname mapping = '''' \<or> m_Hostname mapping = ''*'' then m_DeprecatedHost mapping
      else m_Hostname mapping)"

type_synonym header_range = "(string \<times> string) list \<Rightarrow> (string \<times> string) list"

text \<open>
  One mapping of the loop; a mapping without documents is a nil dereference.
\<close>

definition scrape_doc ::
  "header_range \<Rightarrow> 'w http_get \<Rightarrow> ('d, 'e) OpenAPI \<Rightarrow> Mapping \<Rightarrow>
   MappingDocs \<Rightarrow> 'w \<Rightarrow> ('w, openAPIDoc option \<times> 'w) outcome" where
  "scrape_doc hord get oa mapping docs w =
     (let headers = buildMappingRequestHeaders hord (m_Headers mapping);
          host = mapping_hostname mapping
      in if md_URL docs \<noteq> '''' then
           (case Parse (md_URL docs) of
              Inl err \<Rightarrow> Ret (None, w)
            | Inr parsedURL \<Rightarrow> getDoc get oa parsedURL '''' headers host '''' False w)
         else
           (case extractQueryableDocsURL mapping docs of
              Inl err \<Rightarrow> Ret (None, w)
            | Inr url \<Rightarrow> getDoc get oa url host headers host (m_Prefix mapping) True w))"

fun scrape_loop ::
  "header_range \<Rightarrow> 'w http_get \<Rightarrow> ('d, 'e) OpenAPI \<Rightarrow>
   Mapping list \<Rightarrow> docsDiffCalculator \<Rightarrow> docsRefMap \<Rightarrow> 'w \<Rightarrow>
   ('w, docsDiffCalculator \<times> docsRefMap \<times> 'w) outcome" where
  "scrape_loop hord get oa [] d store w = Ret (d, store, w)"
| "scrape_loop hord get oa (mapping # ms) d store w =
     (case m_Docs mapping of
        None \<Rightarrow> Panic w
      | Some docs \<Rightarrow>
          (let name = mapping_displayName mapping docs;
               r = mapping_ref mapping;
               d1 = docsDiff_add (Some \<lparr>dm_Ref = Some r, dm_Name = name\<rparr>) d
           in bind_outcome (scrape_doc hord get oa mapping docs w) (\<lambda>(doc, w1).
                scrape_loop hord get oa ms d1
                  (case doc of None \<Rightarrow> store | Some x \<Rightarrow> store_add r name x store) w1)))"

text \<open>
  The store of documents; the deferred function deletes what was not seen in this round. (After
  a panic it runs too, but the process ends.)
\<close>

record APIDocsStore =
  ds_DontProcessSnapshotBeforeTime :: int
  ds_store :: docsRefMap
  ds_docsDiff :: docsDiffCalculator

definition NewAPIDocsStore :: APIDocsStore where
  "NewAPIDocsStore = \<lparr>ds_DontProcessSnapshotBeforeTime = 0, ds_store = [],
                      ds_docsDiff = the (newMappingDocsCalculator [])\<rparr>"

definition scrape ::
  "doc_range \<Rightarrow> header_range \<Rightarrow> 'w http_get \<Rightarrow> ('d, 'e) OpenAPI \<Rightarrow>
   Mapping list \<Rightarrow> APIDocsStore \<Rightarrow> 'w \<Rightarrow> ('w, APIDocsStore \<times> 'w) outcome" where
  "scrape ord hord get oa mappings a w =
     bind_outcome (scrape_loop hord get oa mappings (ds_docsDiff a) (ds_store a) w)
       (\<lambda>(d, store, w1). case deleteOld ord d store of
          (d', store') \<Rightarrow> Ret (a\<lparr>ds_docsDiff := d', ds_store := store'\<rparr>, w1))"

section \<open>Scheduling\<close>

text \<open>
  What \<open>ProcessSnapshot\<close> decides at time \<open>now\<close> (nanoseconds since the epoch): nothing, a scrape
  before it returns, or a scrape in a new goroutine.
\<close>

datatype scrape_plan = NoScrape | ScrapeNow "Mapping list" | ScrapeLater "Mapping list"

definition one_minute :: int where "one_minute = 60000000000"

definition plan_ProcessSnapshot ::
  "store_range \<Rightarrow> int \<Rightarrow> Snapshot option \<Rightarrow> APIDocsStore \<Rightarrow> APIDocsStore \<times> scrape_plan" where
  "plan_ProcessSnapshot sord now snapshot a =
     (let emptyStore = (length (getAll sord (ds_store a)) = 0);
          mappings = getProcessableMappingsFromSnapshot snapshot
      in if length mappings = 0 \<and> emptyStore then (a, NoScrape)
         else if now < ds_DontProcessSnapshotBeforeTime a then (a, NoScrape)
         else (a\<lparr>ds_DontProcessSnapshotBeforeTime := now + one_minute\<rparr>,
               if emptyStore then ScrapeNow mappings else ScrapeLater mappings))"

text \<open>
  \<open>ProcessSnapshot\<close>: the store after it, the mappings a new goroutine is to scrape, and the world.
\<close>

definition APIDocs_ProcessSnapshot ::
  "doc_range \<Rightarrow> header_range \<Rightarrow> store_range \<Rightarrow> 'w http_get \<Rightarrow> ('d, 'e) OpenAPI \<Rightarrow> int \<Rightarrow>
   Snapshot option \<Rightarrow> APIDocsStore \<Rightarrow> 'w \<Rightarrow>
   ('w, APIDocsStore \<times> Mapping list option \<times> 'w) outcome" where
  "APIDocs_ProcessSnapshot ord hord sord get oa now snapshot a w =
     (case plan_ProcessSnapshot sord now snapshot a of
        (a1, NoScrape) \<Rightarrow> Ret (a1, None, w)
      | (a1, ScrapeNow ms) \<Rightarrow>
          bind_outcome (scrape ord hord get oa ms a1 w) (\<lambda>(a2, w2). Ret (a2, None, w2))
      | (a1, ScrapeLater ms) \<Rightarrow> Ret (a1, Some ms, w))"

definition APIDocs_StateOfWorld :: "store_range \<Rightarrow> APIDocsStore \<Rightarrow> APIDoc list" where
  "APIDocs_StateOfWorld sord a = toAPIDocs (getAll sord (ds_store a))"

section \<open>Lemmas\<close>

lemma getProcessable_docs:
  "m \<in> set (getProcessableMappings_from ms) \<longleftrightarrow>
     Some m \<in> set ms \<and> (\<exists>d. m_Docs m = Some d \<and> md_Ignored d \<noteq> Some True)"
  by (induction ms rule: getProcessableMappings_from.induct) (auto split: option.splits)

lemma deleteRefUID_map_of: "map_of (deleteRefUID uid entries) = (map_of entries)(uid := None)"
proof -
  have keep: "map_of es uid = None \<Longrightarrow>
      map_of (fold (\<lambda>e es. if uid = e then AList.delete e es else es) ks es) = map_of es" for ks es
    by (induction ks arbitrary: es) (auto simp: delete_conv' fun_upd_idem)
  have all: "map_of (fold (\<lambda>e es. if uid = e then AList.delete e es else es) ks es) =
      (if uid \<in> set ks then (map_of es)(uid := None) else map_of es)" for ks es
  proof (induction ks arbitrary: es)
    case Nil
    then show ?case by simp
  next
    case (Cons k ks)
    show ?case
    proof (cases "uid = k")
      case True
      then show ?thesis using keep [of "AList.delete k es" ks] by (simp add: delete_conv')
    next
      case False
      then show ?thesis by (simp add: Cons.IH)
    qed
  qed
  show ?thesis
    unfolding deleteRefUID_def all [of "map fst entries" entries]
    by (auto simp: fun_upd_idem map_of_eq_None_iff)
qed

lemma fold_deleteRefUID:
  "map_of (fold deleteRefUID uids entries) k = (if k \<in> set uids then None else map_of entries k)"
  by (induction uids arbitrary: entries) (auto simp: deleteRefUID_map_of)

text \<open>
  The contract between calculator and store over one round: with \<open>seen\<close> the UIDs added, the
  store keeps what was seen or was not in the previous round.
\<close>

definition diff_inv :: "docsDiffCalculator \<Rightarrow> docsRefMap \<Rightarrow> bool" where
  "diff_inv d store \<longleftrightarrow> dom (map_of store) \<subseteq> dom (map_of (dd_previous d)) \<union> dom (map_of (dd_current d)) \<and>
     (\<forall>k b. map_of (dd_current d) k = Some b \<longrightarrow> b)"

definition between_rounds :: "APIDocsStore \<Rightarrow> bool" where
  "between_rounds a \<longleftrightarrow> diff_inv (ds_docsDiff a) (ds_store a) \<and> dd_current (ds_docsDiff a) = []"

lemma between_rounds_new: "between_rounds NewAPIDocsStore"
  by (simp add: between_rounds_def diff_inv_def NewAPIDocsStore_def newMappingDocsCalculator_def)

lemma deleteOld_spec:
  assumes "diff_inv d store" and "range_ok ord" and "deleteOld ord d store = (d', store')"
  shows "map_of store' = map_of store |` dom (map_of (dd_current d)) \<and>
    d' = \<lparr>dd_previous = dd_current d, dd_current = []\<rparr> \<and> diff_inv d' store'"
proof -
  define uids where
    "uids = [fst p. p \<leftarrow> ord (dd_previous d), map_of (dd_current d) (fst p) \<noteq> Some True]"
  from assms(3) have d': "d' = \<lparr>dd_previous = dd_current d, dd_current = []\<rparr>"
    and st: "store' = fold deleteRefUID uids store"
    by (auto simp: deleteOld_def newRound_def uids_def)
  have old: "k \<in> set uids \<longleftrightarrow>
      k \<in> dom (map_of (dd_previous d)) \<and> k \<notin> dom (map_of (dd_current d))" for k
  proof -
    have cur: "map_of (dd_current d) k \<noteq> Some True \<longleftrightarrow> k \<notin> dom (map_of (dd_current d))"
      using assms(1) by (cases "map_of (dd_current d) k") (auto simp: diff_inv_def)
    have "set (ord (dd_previous d)) = set (dd_previous d)" by (rule range_ok_set [OF assms(2)])
    then have "k \<in> set uids \<longleftrightarrow>
        k \<in> fst ` set (dd_previous d) \<and> map_of (dd_current d) k \<noteq> Some True"
      by (auto simp: uids_def)
    then show ?thesis unfolding cur by (simp add: dom_map_of_conv_image_fst)
  qed
  have eq: "map_of store' k = (map_of store |` dom (map_of (dd_current d))) k" for k
  proof (cases "k \<in> dom (map_of (dd_current d))")
    case True
    then show ?thesis by (simp add: st fold_deleteRefUID old)
  next
    case False
    moreover have "map_of store k = None" if "k \<notin> dom (map_of (dd_previous d))"
      using that False assms(1) by (auto simp: diff_inv_def)
    ultimately show ?thesis by (auto simp: st fold_deleteRefUID old)
  qed
  then have "map_of store' = map_of store |` dom (map_of (dd_current d))" by blast
  with d' show ?thesis by (auto simp: diff_inv_def restrict_map_def split: if_splits)
qed

lemma scrape_loop_dom:
  assumes "scrape_loop hord get oa ms d store w = Ret (d', store', w')"
    and "\<forall>k b. map_of (dd_current d) k = Some b \<longrightarrow> b"
  shows "dd_previous d' = dd_previous d \<and>
    dom (map_of (dd_current d')) = dom (map_of (dd_current d)) \<union> (\<lambda>m. GetUID m) ` set ms \<and>
    (\<forall>k b. map_of (dd_current d') k = Some b \<longrightarrow> b) \<and>
    dom (map_of store') \<subseteq> dom (map_of store) \<union> (\<lambda>m. GetUID m) ` set ms \<and>
    dom (map_of store) \<subseteq> dom (map_of store') \<and>
    (\<forall>k. k \<notin> (\<lambda>m. GetUID m) ` set ms \<longrightarrow> map_of store' k = map_of store k)"
  using assms
proof (induction ms arbitrary: d store w)
  case Nil
  then show ?case by simp
next
  case (Cons m ms)
  let ?r = "mapping_ref m"
  obtain docs where docs: "m_Docs m = Some docs" using Cons.prems(1) by (cases "m_Docs m") auto
  from Cons.prems(1) docs obtain r where
    scr: "scrape_doc hord get oa m docs w = Ret r"
    by (cases "scrape_doc hord get oa m docs w") (auto simp: Let_def)
  obtain doc w1 where r: "r = (doc, w1)" by (cases r)
  from Cons.prems(1) docs scr r have
    run: "scrape_loop hord get oa ms
      (docsDiff_add (Some \<lparr>dm_Ref = Some ?r, dm_Name = mapping_displayName m docs\<rparr>) d)
      (case doc of None \<Rightarrow> store | Some x \<Rightarrow> store_add ?r (mapping_displayName m docs) x store) w1 =
      Ret (d', store', w')"
    by (simp add: Let_def)
  have uid: "ref_UID ?r = GetUID m" by (simp add: mapping_ref_def)
  have inv: "\<forall>k b. map_of (dd_current (docsDiff_add (Some \<lparr>dm_Ref = Some ?r,
      dm_Name = mapping_displayName m docs\<rparr>) d)) k = Some b \<longrightarrow> b"
    using Cons.prems(2) by (auto simp: docsDiff_add_def map_of_update_iff)
  from Cons.IH [OF run inv] show ?case
    by (cases doc) (auto simp: docsDiff_add_def store_add_def uid update_conv' dom_if)
qed

lemma scrape_between_rounds:
  assumes inv: "between_rounds a" and ord: "range_ok ord"
    and run: "scrape ord hord get oa ms a w = Ret (a', w')"
  shows "between_rounds a' \<and> dom (map_of (ds_store a')) \<subseteq> (\<lambda>m. GetUID m) ` set ms \<and>
    (\<forall>k \<in> (\<lambda>m. GetUID m) ` set ms. map_of (ds_store a) k \<noteq> None \<longrightarrow> map_of (ds_store a') k \<noteq> None)"
proof -
  from run obtain t where
    loop0: "scrape_loop hord get oa ms (ds_docsDiff a) (ds_store a) w = Ret t"
    by (cases "scrape_loop hord get oa ms (ds_docsDiff a) (ds_store a) w")
      (auto simp: scrape_def)
  obtain d store w1 where t: "t = (d, store, w1)" by (cases t)
  obtain d1 st1 where del0: "deleteOld ord d store = (d1, st1)" by fastforce
  from run loop0 t del0 have a': "a' = a\<lparr>ds_docsDiff := d1, ds_store := st1\<rparr>" and "w1 = w'"
    by (auto simp: scrape_def)
  with loop0 t have
    loop: "scrape_loop hord get oa ms (ds_docsDiff a) (ds_store a) w = Ret (d, store, w')"
    by simp
  from del0 a' have del: "deleteOld ord d store = (ds_docsDiff a', ds_store a')" by simp
  have cur: "dd_current (ds_docsDiff a) = []" using inv by (simp add: between_rounds_def)
  have "\<forall>k b. map_of (dd_current (ds_docsDiff a)) k = Some b \<longrightarrow> b" using cur by simp
  note dom = scrape_loop_dom [OF loop this]
  have "dom (map_of (ds_store a)) \<subseteq> dom (map_of (dd_previous (ds_docsDiff a)))"
    using cur inv by (auto simp: diff_inv_def between_rounds_def)
  then have old: "dom (map_of (ds_store a)) \<subseteq> dom (map_of (dd_previous d))"
    by (simp only: conjunct1 [OF dom])
  have domcur: "dom (map_of (dd_current d)) = (\<lambda>m. GetUID m) ` set ms"
    and new: "dom (map_of store) \<subseteq> dom (map_of (ds_store a)) \<union> (\<lambda>m. GetUID m) ` set ms"
    using conjunct1 [OF conjunct2 [OF dom]] conjunct1 [OF conjunct2 [OF conjunct2 [OF conjunct2 [OF dom]]]]
    by (simp_all add: cur)
  have sub: "dom (map_of store) \<subseteq> dom (map_of (dd_previous d)) \<union> dom (map_of (dd_current d))"
    unfolding domcur by (rule order_trans [OF new Un_mono [OF old subset_refl]])
  have "\<forall>k b. map_of (dd_current d) k = Some b \<longrightarrow> b" 
    by (rule conjunct1 [OF conjunct2 [OF conjunct2 [OF dom]]])
  with sub have "diff_inv d store" unfolding diff_inv_def by (rule conjI)
  from deleteOld_spec [OF this ord del]
  have st: "map_of (ds_store a') = map_of store |` dom (map_of (dd_current d))"
    and d': "ds_docsDiff a' = \<lparr>dd_previous = dd_current d, dd_current = []\<rparr>"
    and inv': "diff_inv (ds_docsDiff a') (ds_store a')" by blast+
  show ?thesis
  proof (intro conjI ballI impI)
    show "between_rounds a'" using inv' d' by (simp add: between_rounds_def)
    show "dom (map_of (ds_store a')) \<subseteq> (\<lambda>m. GetUID m) ` set ms"
      using st domcur by auto
  next
    fix k
    assume k: "k \<in> (\<lambda>m. GetUID m) ` set ms" and "map_of (ds_store a) k \<noteq> None"
    then have "k \<in> dom (map_of store)" using dom cur by auto
    with k st domcur show "map_of (ds_store a') k \<noteq> None" by (auto simp: restrict_map_def)
  qed
qed

end
