(* ===== verification/Agent_State.thy ===== *)
theory Agent_State
  imports Rollouts Secrets Comm Cluster_Identity Watchers Argo_Watch Api_Docs
begin

text \<open>
  The state of the agent (\<open>type Agent\<close> in \<open>pkg/agent/agent.go\<close>), its constructor and its
  setters. The embedded \<open>Env\<close> is the parent record. A connection is a reference: \<open>ag_comm\<close> and
  \<open>ag_newDirective\<close> hold the index of a connection of \<open>ag_comms\<close>, the ones dialled so far,
  because the channel of directives of a closed connection stays in use until a new one is
  dialled. The channels \<open>reportComplete\<close> and \<open>diagnosticsReportComplete\<close>, which no code of the
  agent receives from, are left out.
\<close>

record 'w BasicDirectiveHandler =
  dh_DefaultMinReportPeriod :: duration
  dh_rolloutsGetterFactory :: "'w rolloutsGetterFactory option"
  dh_secretsGetterFactory :: "('w, byte list) secretsGetterFactory option"

record 'w Agent = Env +
  ag_comm :: "nat option"
  ag_agentID :: "Identity option"
  ag_newDirective :: "nat option"
  ag_directiveHandler :: "'w BasicDirectiveHandler"
  ag_ambassadorAPIKeyEnvVarValue :: string
  ag_reportingStopped :: bool
  ag_lastDirectiveID :: string
  ag_reportToSend :: "Snapshot_report option"
  ag_reportRunning :: bool
  ag_apiDocsStore :: "APIDocsStore option"
  ag_rolloutStore :: "RolloutStore option"
  ag_applicationStore :: "ApplicationStore option"
  ag_rpcExtraHeaders :: "string list"
  ag_reportDiagnosticsAllowed :: bool
  ag_diagnosticsReportingStopped :: bool
  ag_diagnosticsReportRunning :: bool
  ag_emissaryPresent :: bool
  ag_clusterId :: string
  ag_clusterDomain :: string
  ag_coreWatchers :: "'w CoreWatchers option"
  ag_fallbackWatcher :: "'w FallbackWatchers option"
  ag_currentSnapshot :: "Snapshot option"
  ag_comms :: "RPCComm list"

section \<open>The cluster domain\<close>

text \<open>
  \<open>getClusterDomain\<close>: \<open>get_ip\<close> is the lookup of the agent's own service (its cluster IP),
  \<open>is_ip\<close> is \<open>net.ParseIP\<close> and \<open>lookups\<close> the answers of the three reverse lookups. The slice
  expression \<open>name[len(desiredMatch) : len(name)-1]\<close> panics when its bounds cross.
\<close>

definition defaultDomain :: string where "defaultDomain = ''cluster.local''"

fun domain_from_names :: "string \<Rightarrow> string list \<Rightarrow> (unit, string option) outcome" where
  "domain_from_names desiredMatch [] = Ret None"
| "domain_from_names desiredMatch (name # names) =
     (if HasPrefix name desiredMatch then
        (if length name - 1 < length desiredMatch then Panic ()
         else Ret (Some (slice (length desiredMatch) (length name - 1) name)))
      else domain_from_names desiredMatch names)"

fun domain_from_lookups :: "string \<Rightarrow> (go_error + string list) list \<Rightarrow> (unit, string) outcome" where
  "domain_from_lookups desiredMatch [] = Ret defaultDomain"
| "domain_from_lookups desiredMatch (Inl err # rest) = domain_from_lookups desiredMatch rest"
| "domain_from_lookups desiredMatch (Inr names # rest) =
     bind_outcome (domain_from_names desiredMatch names) (\<lambda>r.
       case r of Some d \<Rightarrow> Ret d | None \<Rightarrow> domain_from_lookups desiredMatch rest)"

definition getClusterDomain ::
  "(string \<Rightarrow> string \<Rightarrow> go_error + string) \<Rightarrow> (string \<Rightarrow> bool) \<Rightarrow>
   (string \<Rightarrow> nat \<Rightarrow> go_error + string list) \<Rightarrow> Env \<Rightarrow> (unit, string) outcome" where
  "getClusterDomain get_ip is_ip LookupAddr env =
     (let qn = AgentServiceName env @ ''.'' @ AgentNamespace env in
      case get_ip (AgentNamespace env) (AgentServiceName env) of
        Inl err \<Rightarrow> Ret defaultDomain
      | Inr addr \<Rightarrow>
          if \<not> is_ip addr then Ret defaultDomain
          else domain_from_lookups (qn @ ''.svc.'') (map (LookupAddr addr) [0, 1, 2]))"

section \<open>Constructor\<close>

definition new_rpcExtraHeaders :: "Env \<Rightarrow> string list" where
  "new_rpcExtraHeaders env =
     (if RpcInterceptHeaderKey env \<noteq> '''' \<and> RpcInterceptHeaderValue env \<noteq> ''''
      then [RpcInterceptHeaderKey env, RpcInterceptHeaderValue env] else [])"

text \<open>
  The fields the literal does not name are zero. The watchers are built by the functions of
  package \<open>watchers\<close> from the given groups.
\<close>

definition NewAgent ::
  "'w BasicDirectiveHandler option \<Rightarrow> 'w rolloutsGetterFactory option \<Rightarrow>
   ('w, byte list) secretsGetterFactory option \<Rightarrow> 'w CoreWatchers \<Rightarrow> 'w FallbackWatchers \<Rightarrow>
   string \<Rightarrow> Env \<Rightarrow> 'w Agent" where
  "NewAgent directiveHandler rolloutsGetterFactory secretsGetterFactory coreWatchers fallbackWatcher
     clusterDomain env =
     Env.extend env
       \<lparr>ag_comm = None, ag_agentID = None, ag_newDirective = None,
        ag_directiveHandler = (case directiveHandler of
            Some dh \<Rightarrow> dh
          | None \<Rightarrow> \<lparr>dh_DefaultMinReportPeriod = defaultMinReportPeriod,
                     dh_rolloutsGetterFactory = rolloutsGetterFactory,
                     dh_secretsGetterFactory = secretsGetterFactory\<rparr>),
        ag_ambassadorAPIKeyEnvVarValue = AmbassadorAPIKey env,
        ag_reportingStopped = False, ag_lastDirectiveID = '''', ag_reportToSend = None,
        ag_reportRunning = False, ag_apiDocsStore = None, ag_rolloutStore = None,
        ag_applicationStore = None, ag_rpcExtraHeaders = new_rpcExtraHeaders env,
        ag_reportDiagnosticsAllowed = False, ag_diagnosticsReportingStopped = False,
        ag_diagnosticsReportRunning = False, ag_emissaryPresent = False, ag_clusterId = '''',
        ag_clusterDomain = clusterDomain, ag_coreWatchers = Some coreWatchers,
        ag_fallbackWatcher = Some fallbackWatcher, ag_currentSnapshot = None, ag_comms = []\<rparr>"

section \<open>Setters\<close>

definition StopReporting :: "'w Agent \<Rightarrow> 'w Agent" where
  "StopReporting a = a\<lparr>ag_reportingStopped := True\<rparr>"

definition StartReporting :: "'w Agent \<Rightarrow> 'w Agent" where
  "StartReporting a = a\<lparr>ag_reportingStopped := False\<rparr>"

definition SetMinReportPeriod :: "duration \<Rightarrow> 'w Agent \<Rightarrow> 'w Agent" where
  "SetMinReportPeriod dur a = a\<lparr>MinReportPeriod := dur\<rparr>"

definition SetLastDirectiveID :: "string \<Rightarrow> 'w Agent \<Rightarrow> 'w Agent" where
  "SetLastDirectiveID ident a = a\<lparr>ag_lastDirectiveID := ident\<rparr>"

definition SetReportDiagnosticsAllowed :: "bool \<Rightarrow> 'w Agent \<Rightarrow> 'w Agent" where
  "SetReportDiagnosticsAllowed b a = a\<lparr>ag_reportDiagnosticsAllowed := b\<rparr>"

text \<open>The agent \<open>main\<close> makes.\<close>

definition main_agent ::
  "'w rolloutsGetterFactory option \<Rightarrow> ('w, byte list) secretsGetterFactory option \<Rightarrow> 'w CoreWatchers \<Rightarrow>
   'w FallbackWatchers \<Rightarrow> string \<Rightarrow> Env \<Rightarrow> 'w Agent" where
  "main_agent rf sf cw fw clusterDomain env =
     SetReportDiagnosticsAllowed (AESReportDiagnostics env) (NewAgent None rf sf cw fw clusterDomain env)"

text \<open>The error of \<open>Close\<close> is ignored.\<close>

definition ClearComm :: "'w Agent \<Rightarrow> 'w Agent" where
  "ClearComm a =
     (case ag_comm a of
        None \<Rightarrow> a
      | Some i \<Rightarrow> a\<lparr>ag_comms := (ag_comms a)[i := Close (ag_comms a ! i)], ag_comm := None\<rparr>)"

lemmas setter_defs [step_defs] = StopReporting_def StartReporting_def SetMinReportPeriod_def
  SetLastDirectiveID_def SetReportDiagnosticsAllowed_def

section \<open>Well-formedness\<close>

text \<open>
  References point to connections that were dialled; the current connection is open, every
  other one is closed, and the channel of directives the agent reads belongs to the current
  connection while there is one.
\<close>

definition comm_wf :: "'w Agent \<Rightarrow> bool" where
  "comm_wf a \<longleftrightarrow>
     (\<forall>i. ag_comm a = Some i \<longrightarrow> i < length (ag_comms a) \<and> ag_newDirective a = Some i) \<and>
     (\<forall>i. ag_newDirective a = Some i \<longrightarrow> i < length (ag_comms a)) \<and>
     (\<forall>i < length (ag_comms a). cc_retCancelled (ag_comms a ! i) = (ag_comm a \<noteq> Some i) \<and>
        cc_connClosed (ag_comms a ! i) = (ag_comm a \<noteq> Some i))"

lemma comm_wf_NewAgent: "comm_wf (NewAgent dh rf sf cw fw d env)"
  by (simp add: comm_wf_def NewAgent_def Env.defs)

lemma comm_wf_main_agent: "comm_wf (main_agent rf sf cw fw d env)"
  by (simp add: comm_wf_def main_agent_def SetReportDiagnosticsAllowed_def NewAgent_def Env.defs)

lemma ClearComm_frame [frame_simps]:
  "ag_comm (ClearComm a) = None" "ag_reportingStopped (ClearComm a) = ag_reportingStopped a"
  "ag_reportRunning (ClearComm a) = ag_reportRunning a"
  "ag_diagnosticsReportRunning (ClearComm a) = ag_diagnosticsReportRunning a"
  "MinReportPeriod (ClearComm a) = MinReportPeriod a"
  "AmbassadorAPIKey (ClearComm a) = AmbassadorAPIKey a"
  "ag_newDirective (ClearComm a) = ag_newDirective a"
  "ag_reportToSend (ClearComm a) = ag_reportToSend a"
  "ag_agentID (ClearComm a) = ag_agentID a"
  "ag_currentSnapshot (ClearComm a) = ag_currentSnapshot a"
  "ag_diagnosticsReportingStopped (ClearComm a) = ag_diagnosticsReportingStopped a"
  "ag_directiveHandler (ClearComm a) = ag_directiveHandler a"
  "ag_emissaryPresent (ClearComm a) = ag_emissaryPresent a"
  "ag_reportDiagnosticsAllowed (ClearComm a) = ag_reportDiagnosticsAllowed a"
  by (simp_all add: ClearComm_def split: option.splits)

lemma comm_wf_ClearComm: "comm_wf a \<Longrightarrow> comm_wf (ClearComm a)"
  by (auto simp: comm_wf_def ClearComm_def Close_def nth_list_update split: option.splits)

lemma comm_wf_update:
  assumes "comm_wf a" and "cc_retCancelled c = cc_retCancelled (ag_comms a ! i)"
    and "cc_connClosed c = cc_connClosed (ag_comms a ! i)"
  shows "comm_wf (a\<lparr>ag_comms := (ag_comms a)[i := c]\<rparr>)"
proof (cases "i < length (ag_comms a)")
  case True
  then show ?thesis using assms by (auto simp: comm_wf_def nth_list_update)
next
  case False
  then show ?thesis using assms(1) by (simp add: comm_wf_def)
qed

end
