(* ===== verification/Sample_Agent.thy ===== *)
theory Sample_Agent
  imports Agent_State
begin

text \<open>
  A concrete agent, for the witnesses: an environment, watchers whose lists are empty, a
  Director that accepts everything, and an agent that is connected to it.
\<close>

definition sample_url :: URL where
  "sample_url = empty_URL\<lparr>url_Scheme := ''http'', url_Host := ''ambassador-admin.ambassador:8005'',
                          url_Path := ''/snapshot-external''\<rparr>"

definition sample_env :: Env where
  "sample_env =
     \<lparr>LogLevel = 4, AESSnapshotURL = sample_url,
      AESDiagnosticsURL = sample_url\<lparr>url_Path := ''/ambassador/v0/diag/''\<rparr>,
      AESReportDiagnostics = True, ScoutID = '''', ClusterID = ''c1'', AmbassadorID = ''default'',
      AmbassadorAPIKey = ''key'',
      ConnAddress = \<lparr>ci_hostname = defaultHostname, ci_port = defaultPort, ci_secure = True\<rparr>,
      AgentNamespace = ''ambassador'', AgentServiceName = ''agent'',
      AgentConfigResourceName = ''cloud-token'', AgentWatchFieldSelector = '''',
      MinReportPeriod = defaultMinReportPeriod, NamespacesToWatch = [], RpcInterceptHeaderKey = '''',
      RpcInterceptHeaderValue = '''', ServerHost = '''', ServerPort = 80\<rparr>"

definition empty_group :: "('w, 'a) WatcherGroup" where
  "empty_group = \<lparr>wg_List = (\<lambda>w. (([], None), w)), wg_EnsureStarted = (\<lambda>w. w), wg_Cancel = (\<lambda>w. w)\<rparr>"

definition sample_core :: "'w CoreWatchers" where
  "sample_core = \<lparr>cw_cmapsWatchers = empty_group, cw_deployWatchers = empty_group,
                  cw_podWatchers = empty_group, cw_endpointWatchers = empty_group,
                  cw_om = Some objectModifier\<rparr>"

definition sample_fallback :: "'w FallbackWatchers" where
  "sample_fallback = \<lparr>fw_serviceWatchers = empty_group, fw_ingressWatchers = LegacyWatcher empty_group,
                      fw_om = Some objectModifier\<rparr>"

definition sample_agent :: "'w Agent" where
  "sample_agent = main_agent None None sample_core sample_fallback ''cluster.local'' sample_env"

definition sample_conn :: RPCComm where
  "sample_conn = \<lparr>cc_address = ''app.getambassador.io:443'', cc_creds = TLS ''app.getambassador.io'',
                  cc_connClosed = False, cc_retCancelled = False, cc_retHeaders = [],
                  cc_rptWake = False, cc_agentID = None, cc_directives = [], cc_extraHeaders = []\<rparr>"

definition connected_agent :: "'w Agent" where
  "connected_agent = sample_agent\<lparr>ag_comms := [sample_conn], ag_comm := Some 0, ag_newDirective := Some 0\<rparr>"

text \<open>The Director: \<open>note\<close> is what happens to the world when a command result arrives.\<close>

definition sample_client :: "(CommandResult \<Rightarrow> 'w \<Rightarrow> 'w) \<Rightarrow> 'w DirectorClient" where
  "sample_client note =
     \<lparr>cl_ReportCommandResult = (\<lambda>h r w. (None, note r w)), cl_ReportStream = (\<lambda>h w. (None, w)),
      cl_ReportStream_Send = (\<lambda>b w. (None, w)), cl_ReportStream_CloseAndRecv = (\<lambda>w. (None, w)),
      cl_StreamDiagnostics = (\<lambda>h w. (None, w)), cl_StreamDiagnostics_Send = (\<lambda>b w. (None, w)),
      cl_StreamDiagnostics_CloseAndRecv = (\<lambda>w. (None, w)), cl_StreamMetrics = (\<lambda>h w. (None, w)),
      cl_StreamMetrics_Send = (\<lambda>m w. (None, w)), cl_StreamMetrics_CloseSend = (\<lambda>w. (None, w))\<rparr>"

lemma sample_agent_fields [simp]:
  "ag_comm sample_agent = None" "ag_comms sample_agent = []" "ag_newDirective sample_agent = None"
  "ag_reportingStopped sample_agent = False" "ag_reportRunning sample_agent = False"
  "ag_reportToSend sample_agent = None" "ag_diagnosticsReportRunning sample_agent = False"
  "ag_diagnosticsReportingStopped sample_agent = False" "ag_emissaryPresent sample_agent = False"
  "ag_apiDocsStore sample_agent = None" "ag_rolloutStore sample_agent = None"
  "ag_applicationStore sample_agent = None" "ag_rpcExtraHeaders sample_agent = []"
  "ag_ambassadorAPIKeyEnvVarValue sample_agent = ''key''" "AmbassadorAPIKey sample_agent = ''key''"
  "ag_coreWatchers sample_agent = Some sample_core"
  "ag_fallbackWatcher sample_agent = Some sample_fallback"
  "MinReportPeriod sample_agent = defaultMinReportPeriod"
  "AESSnapshotURL sample_agent = sample_url" "AgentNamespace sample_agent = ''ambassador''"
  "AgentConfigResourceName sample_agent = ''cloud-token''" "ClusterID sample_agent = ''c1''"
  "ConnAddress sample_agent = \<lparr>ci_hostname = defaultHostname, ci_port = defaultPort, ci_secure = True\<rparr>"
  "Env.truncate sample_agent = sample_env"
  by (simp_all add: sample_agent_def main_agent_def SetReportDiagnosticsAllowed_def NewAgent_def Env.defs sample_env_def new_rpcExtraHeaders_def)

lemma connected_agent_fields [simp]:
  "ag_comm connected_agent = Some 0" "ag_comms connected_agent = [sample_conn]"
  "ag_newDirective connected_agent = Some 0" "ag_reportingStopped connected_agent = False"
  "ag_reportRunning connected_agent = False" "AmbassadorAPIKey connected_agent = ''key''"
  "MinReportPeriod connected_agent = defaultMinReportPeriod"
  by (simp_all add: connected_agent_def)

lemma sample_client_simps [simp]:
  "cl_ReportCommandResult (sample_client note) h r w = (None, note r w)"
  "cl_ReportStream (sample_client note) h w = (None, w)"
  "cl_ReportStream_Send (sample_client note) b w = (None, w)"
  "cl_ReportStream_CloseAndRecv (sample_client note) w = (None, w)"
  by (simp_all add: sample_client_def)

end
