(* ===== verification/Directives.thy ===== *)
theory Directives
  imports Sample_Agent
begin

text \<open>
  The handling of a directive (\<open>pkg/agent/directive_handler.go\<close>): the reporting switch, the
  minimum report period and the commands, whose results are reported to the Director. The
  interface \<open>DirectiveHandler\<close> of the code is the locale \<open>directive_handler\<close>; it is
  interpreted on \<open>BasicDirectiveHandler\<close>.
\<close>

text \<open>What the handler calls: the clients of the connections, JSON, and the order of a \<open>range\<close>.\<close>

record 'w HandlerCalls =
  hc_client :: "nat \<Rightarrow> 'w DirectorClient"
  hc_marshal :: "patch_op list \<Rightarrow> go_error + byte list"
  hc_ord :: secret_range

section \<open>The handler\<close>

text \<open>\<open>a.comm\<close> is called without a test: a nil connection panics.\<close>

definition command_result :: "string \<Rightarrow> go_error option \<Rightarrow> CommandResult" where
  "command_result commandID cmdError =
     (case cmdError of
        None \<Rightarrow> \<lparr>cr_CommandId = commandID, cr_Success = True, cr_Message = ''''\<rparr>
      | Some err \<Rightarrow> \<lparr>cr_CommandId = commandID, cr_Success = False, cr_Message = Error err\<rparr>)"

definition reportCommandResult ::
  "'w HandlerCalls \<Rightarrow> string \<Rightarrow> go_error option \<Rightarrow> 'w Agent \<Rightarrow> 'w \<Rightarrow> ('w, 'w) outcome" where
  "reportCommandResult hc commandID cmdError a w =
     (case ag_comm a of
        None \<Rightarrow> Panic w
      | Some i \<Rightarrow>
          Ret (snd (comm_ReportCommandResult (hc_client hc i) (ag_comms a ! i)
            (command_result commandID cmdError) (AmbassadorAPIKey a) w)))"

definition handleSecretSyncCommand ::
  "'w HandlerCalls \<Rightarrow> 'w BasicDirectiveHandler \<Rightarrow> SecretSyncCommand option \<Rightarrow> 'w Agent \<Rightarrow> 'w \<Rightarrow>
   ('w, 'w) outcome" where
  "handleSecretSyncCommand hc dh cmdSchema a w =
     (case dh_secretsGetterFactory dh of
        None \<Rightarrow> Ret w
      | Some factory \<Rightarrow>
          (let name = SecretSyncCommand_GetName cmdSchema;
               namespace = SecretSyncCommand_GetNamespace cmdSchema;
               action = SecretSyncCommand_GetAction cmdSchema;
               commandID = SecretSyncCommand_GetCommandId cmdSchema;
               secret = SecretSyncCommand_GetSecret cmdSchema
           in if name = '''' then Ret w
              else if namespace = '''' then Ret w
              else if commandID = '''' then Ret w
              else
                (let cmd = \<lparr>sc_name = name, sc_namespace = namespace,
                            sc_action = name_of SecretSyncCommand_Action_name action,
                            sc_secret = secret\<rparr>
                 in bind_outcome (secret_RunWithClientFactory (hc_ord hc) (hc_marshal hc) cmd factory w)
                      (\<lambda>(err, w1). reportCommandResult hc commandID err a w1))))"

definition handleRolloutCommand ::
  "'w HandlerCalls \<Rightarrow> 'w BasicDirectiveHandler \<Rightarrow> RolloutCommand option \<Rightarrow> 'w Agent \<Rightarrow> 'w \<Rightarrow>
   ('w, 'w) outcome" where
  "handleRolloutCommand hc dh cmdSchema a w =
     (case dh_rolloutsGetterFactory dh of
        None \<Rightarrow> Ret w
      | Some factory \<Rightarrow>
          (let rolloutName = RolloutCommand_GetName cmdSchema;
               namespace = RolloutCommand_GetNamespace cmdSchema;
               action = RolloutCommand_GetAction cmdSchema;
               commandID = RolloutCommand_GetCommandId cmdSchema
           in if rolloutName = '''' then Ret w
              else if namespace = '''' then Ret w
              else if commandID = '''' then Ret w
              else
                (let cmd = \<lparr>ro_namespace = namespace, ro_rolloutName = rolloutName,
                            ro_action = name_of RolloutCommand_Action_name action\<rparr>
                 in case rollout_RunWithClientFactory cmd factory w of
                      (err, w1) \<Rightarrow> reportCommandResult hc commandID err a w1)))"

text \<open>The loop over the commands; a nil command is dereferenced.\<close>

fun handleCommands ::
  "'w HandlerCalls \<Rightarrow> 'w BasicDirectiveHandler \<Rightarrow> Command option list \<Rightarrow> 'w Agent \<Rightarrow> 'w \<Rightarrow>
   ('w, 'w) outcome" where
  "handleCommands hc dh [] a w = Ret w"
| "handleCommands hc dh (None # cmds) a w = Panic w"
| "handleCommands hc dh (Some command # cmds) a w =
     bind_outcome
       (if cmd_RolloutCommand command \<noteq> None
        then handleRolloutCommand hc dh (cmd_RolloutCommand command) a w
        else if cmd_SecretSyncCommand command \<noteq> None
        then handleSecretSyncCommand hc dh (cmd_SecretSyncCommand command) a w
        else Ret w)
       (\<lambda>w1. handleCommands hc dh cmds a w1)"

text \<open>The duration of the message, as the code computes it on 64 bits (it may wrap around).\<close>

definition duration_of :: "Duration_msg \<Rightarrow> duration" where
  "duration_of protoDur = pd_Seconds protoDur * Second + scast (pd_Nanos protoDur) * Nanosecond"

definition apply_settings :: "'w BasicDirectiveHandler \<Rightarrow> Directive \<Rightarrow> 'w Agent \<Rightarrow> 'w Agent" where
  "apply_settings dh directive a =
     (let a1 = (if dir_StopReporting directive then StopReporting a else a)
      in case dir_MinReportPeriod directive of
           None \<Rightarrow> a1
         | Some protoDur \<Rightarrow>
             SetMinReportPeriod (MaxDuration (duration_of protoDur) (dh_DefaultMinReportPeriod dh)) a1)"

definition HandleDirective ::
  "'w HandlerCalls \<Rightarrow> 'w BasicDirectiveHandler \<Rightarrow> 'w Agent \<Rightarrow> Directive option \<Rightarrow> 'w \<Rightarrow>
   ('w Agent \<times> 'w, 'w Agent \<times> 'w) outcome" where
  "HandleDirective hc dh a directive w =
     (case directive of
        None \<Rightarrow> Ret (a, w)
      | Some d \<Rightarrow>
          (let a1 = apply_settings dh d a in
           case handleCommands hc dh (dir_Commands d) a1 w of
             Panic w1 \<Rightarrow> Panic (a1, w1)
           | Ret w1 \<Rightarrow> Ret (SetLastDirectiveID (dir_ID d) a1, w1)))"

lemmas handler_defs [step_defs] = reportCommandResult_def handleSecretSyncCommand_def
  handleRolloutCommand_def apply_settings_def HandleDirective_def

section \<open>The contract of a directive handler\<close>

text \<open>
  What the agent relies on when it calls a handler, and what follows for any sequence of
  directives. The period never falls below the handler's floor once it is at least the floor;
  a stopped agent stays stopped; the connection, the key and the state of the reports are not
  touched; with a connection the handler returns from every directive it calls safe.
\<close>

definition only_settings :: "'w Agent \<Rightarrow> 'w Agent \<Rightarrow> bool" where
  "only_settings a a' \<longleftrightarrow> a' = a\<lparr>MinReportPeriod := MinReportPeriod a',
     ag_reportingStopped := ag_reportingStopped a', ag_lastDirectiveID := ag_lastDirectiveID a'\<rparr>"

lemma only_settings_refl [simp]: "only_settings a a"
  by (simp add: only_settings_def)

lemma only_settings_frame:
  assumes "only_settings a a'"
  shows "ag_comm a' = ag_comm a" "ag_comms a' = ag_comms a"
    "ag_newDirective a' = ag_newDirective a" "AmbassadorAPIKey a' = AmbassadorAPIKey a"
    "ag_reportRunning a' = ag_reportRunning a" "ag_reportToSend a' = ag_reportToSend a"
    "ag_diagnosticsReportRunning a' = ag_diagnosticsReportRunning a"
    "ag_diagnosticsReportingStopped a' = ag_diagnosticsReportingStopped a"
    "ag_currentSnapshot a' = ag_currentSnapshot a" "ag_agentID a' = ag_agentID a"
    "ag_directiveHandler a' = ag_directiveHandler a"
    "ag_reportDiagnosticsAllowed a' = ag_reportDiagnosticsAllowed a"
    "ConnAddress a' = ConnAddress a" "ag_rpcExtraHeaders a' = ag_rpcExtraHeaders a"
  by (subst assms [unfolded only_settings_def], simp)+

lemma only_settings_trans: "only_settings a b \<Longrightarrow> only_settings b c \<Longrightarrow> only_settings a c"
  by (cases a; cases b; cases c) (auto simp: only_settings_def)

fun no_nil_command :: "Directive option \<Rightarrow> bool" where
  "no_nil_command None = True"
| "no_nil_command (Some d) = (None \<notin> set (dir_Commands d))"

fun stops :: "Directive option \<Rightarrow> bool" where
  "stops None = False"
| "stops (Some d) = dir_StopReporting d"

fun handle_all ::
  "('w Agent \<Rightarrow> Directive option \<Rightarrow> 'w \<Rightarrow> ('w Agent \<times> 'w, 'w Agent \<times> 'w) outcome) \<Rightarrow>
   'w Agent \<Rightarrow> Directive option list \<Rightarrow> 'w \<Rightarrow> ('w Agent \<times> 'w, 'w Agent \<times> 'w) outcome" where
  "handle_all handle a [] w = Ret (a, w)"
| "handle_all handle a (d # ds) w =
     bind_outcome (handle a d w) (\<lambda>(a1, w1). handle_all handle a1 ds w1)"

locale directive_handler =
  fixes handle :: "'w Agent \<Rightarrow> Directive option \<Rightarrow> 'w \<Rightarrow> ('w Agent \<times> 'w, 'w Agent \<times> 'w) outcome"
    and period_floor :: duration and safe :: "Directive option \<Rightarrow> bool"
  assumes nil_ignored: "handle a None w = Ret (a, w)"
    and frame: "handle a d w = Ret (a', w') \<Longrightarrow> only_settings a a'"
    and stop: "handle a d w = Ret (a', w') \<Longrightarrow>
          ag_reportingStopped a' = (ag_reportingStopped a \<or> stops d)"
    and period: "handle a d w = Ret (a', w') \<Longrightarrow>
          MinReportPeriod a' = MinReportPeriod a \<or> sint period_floor \<le> sint (MinReportPeriod a')"
    and connected: "ag_comm a \<noteq> None \<Longrightarrow> safe d \<Longrightarrow> returns (handle a d w)"
begin

lemma floor_kept:
  assumes "sint period_floor \<le> sint (MinReportPeriod a)" and "handle a d w = Ret (a', w')"
  shows "sint period_floor \<le> sint (MinReportPeriod a')"
  using period [OF assms(2)] assms(1) by auto

lemma all_directives:
  assumes "handle_all handle a ds w = Ret (a', w')"
    and "sint period_floor \<le> sint (MinReportPeriod a)"
  shows "only_settings a a' \<and> sint period_floor \<le> sint (MinReportPeriod a') \<and>
    ag_reportingStopped a' = (ag_reportingStopped a \<or> (\<exists>d \<in> set ds. stops d))"
  using assms
proof (induction ds arbitrary: a w)
  case Nil
  then show ?case by simp
next
  case (Cons d ds)
  from Cons.prems(1) obtain a1 w1 where s: "handle a d w = Ret (a1, w1)"
    and rest: "handle_all handle a1 ds w1 = Ret (a', w')"
    by (cases "handle a d w") auto
  have "sint period_floor \<le> sint (MinReportPeriod a1)" by (rule floor_kept [OF Cons.prems(2) s])
  from Cons.IH [OF rest this] frame [OF s] stop [OF s] show ?case
    by (auto intro: only_settings_trans)
qed

lemma all_return:
  assumes "ag_comm a \<noteq> None" and "\<forall>d \<in> set ds. safe d"
  shows "returns (handle_all handle a ds w)"
  using assms
proof (induction ds arbitrary: a w)
  case Nil
  then show ?case by simp
next
  case (Cons d ds)
  then obtain a1 w1 where s: "handle a d w = Ret (a1, w1)"
    using connected [of a d w] by (auto simp: returns_iff)
  then have "ag_comm a1 = ag_comm a" using only_settings_frame(1) [OF frame] by blast
  with Cons s show ?case by simp
qed

end

section \<open>BasicDirectiveHandler keeps the contract\<close>

lemma reportCommandResult_returns:
  "ag_comm a \<noteq> None \<Longrightarrow> returns (reportCommandResult hc i e a w)"
  by (auto simp: reportCommandResult_def)

lemma handleRolloutCommand_returns:
  "ag_comm a \<noteq> None \<Longrightarrow> returns (handleRolloutCommand hc dh c a w)"
  by (auto simp: handleRolloutCommand_def Let_def reportCommandResult_returns
      split: option.splits prod.splits)

text \<open>A command panics in the factory of its client, at its report, or when it is nil.\<close>

definition factory_panic :: "'w BasicDirectiveHandler \<Rightarrow> 'w \<Rightarrow> bool" where
  "factory_panic dh w' \<longleftrightarrow> (\<exists>f ns w0. dh_secretsGetterFactory dh = Some f \<and> f ns w0 = Panic w')"

lemma handleSecretSyncCommand_panic:
  "handleSecretSyncCommand hc dh c a w = Panic w' \<Longrightarrow> ag_comm a = None \<or> factory_panic dh w'"
  by (auto simp: handleSecretSyncCommand_def Let_def reportCommandResult_def factory_panic_def
      bind_outcome_Panic_iff secret_run_Panic split: option.splits if_splits prod.splits)

lemma handleRolloutCommand_panic:
  "handleRolloutCommand hc dh c a w = Panic w' \<Longrightarrow> ag_comm a = None"
  by (auto simp: handleRolloutCommand_def Let_def reportCommandResult_def split: option.splits if_splits prod.splits)

lemma handleCommands_panic:
  "handleCommands hc dh cmds a w = Panic w' \<Longrightarrow> None \<in> set cmds \<or> ag_comm a = None \<or> factory_panic dh w'"
proof (induction hc dh cmds a w rule: handleCommands.induct)
  case (3 hc dh command cmds a w)
  let ?m = "if cmd_RolloutCommand command \<noteq> None
      then handleRolloutCommand hc dh (cmd_RolloutCommand command) a w
      else if cmd_SecretSyncCommand command \<noteq> None
      then handleSecretSyncCommand hc dh (cmd_SecretSyncCommand command) a w else Ret w"
  from 3(2) consider "?m = Panic w'" | w1 where "?m = Ret w1" "handleCommands hc dh cmds a w1 = Panic w'"
    unfolding handleCommands.simps bind_outcome_Panic_iff by blast
  then show ?case
  proof cases
    case 1
    then show ?thesis
      by (auto split: if_splits dest: handleRolloutCommand_panic handleSecretSyncCommand_panic)
  next
    case 2
    with 3(1) [OF 2] show ?thesis by simp
  qed
qed simp_all

lemma handleCommands_returns:
  assumes "ag_comm a \<noteq> None" and "None \<notin> set cmds" and "\<And>w'. \<not> factory_panic dh w'"
  shows "returns (handleCommands hc dh cmds a w)"
  using handleCommands_panic [of hc dh cmds a w] assms
  by (cases "handleCommands hc dh cmds a w") auto

lemma apply_settings_frame [frame_simps]:
  "ag_comm (apply_settings dh d a) = ag_comm a" "ag_comms (apply_settings dh d a) = ag_comms a"
  "AmbassadorAPIKey (apply_settings dh d a) = AmbassadorAPIKey a"
  "ag_reportingStopped (apply_settings dh d a) = (ag_reportingStopped a \<or> dir_StopReporting d)"
  "MinReportPeriod (apply_settings dh d a) =
     (case dir_MinReportPeriod d of None \<Rightarrow> MinReportPeriod a
      | Some p \<Rightarrow> MaxDuration (duration_of p) (dh_DefaultMinReportPeriod dh))"
  by (simp_all add: apply_settings_def setter_defs split: option.splits)

lemma HandleDirective_Some:
  "HandleDirective hc dh a (Some d) w = Ret (a', w') \<longleftrightarrow>
     handleCommands hc dh (dir_Commands d) (apply_settings dh d a) w = Ret w' \<and>
     a' = SetLastDirectiveID (dir_ID d) (apply_settings dh d a)"
  by (auto simp: HandleDirective_def Let_def split: outcome.splits)

lemma HandleDirective_None: "HandleDirective hc dh a None w = Ret (a, w)"
  by (simp add: HandleDirective_def)

lemma only_settings_settings: "only_settings a (SetLastDirectiveID i (apply_settings dh d a))"
  by (simp add: only_settings_def apply_settings_def setter_defs split: option.split)

lemma HandleDirective_panic:
  "HandleDirective hc dh a d w = Panic (a', w') \<Longrightarrow>
   ag_comm a = None \<or> \<not> no_nil_command d \<or> factory_panic dh w'"
  by (cases d) (auto simp: HandleDirective_def Let_def frame_simps split: outcome.splits dest: handleCommands_panic)

text \<open>A directive is safe when it holds no nil command and the clients of secrets can be made.\<close>

definition safe_directive :: "'w BasicDirectiveHandler \<Rightarrow> Directive option \<Rightarrow> bool" where
  "safe_directive dh d \<longleftrightarrow> no_nil_command d \<and> (\<forall>w'. \<not> factory_panic dh w')"

interpretation basic: directive_handler "HandleDirective hc dh" "dh_DefaultMinReportPeriod dh"
  "safe_directive dh"
  for hc :: "'w HandlerCalls" and dh :: "'w BasicDirectiveHandler"
proof
  fix a :: "'w Agent" and w :: 'w
  show "HandleDirective hc dh a None w = Ret (a, w)" by (simp add: HandleDirective_def)
next
  fix a a' :: "'w Agent" and d w w'
  assume "HandleDirective hc dh a d w = Ret (a', w')"
  then show "only_settings a a'"
    by (cases d) (auto simp: HandleDirective_Some only_settings_settings HandleDirective_None)
next
  fix a a' :: "'w Agent" and d w w'
  assume "HandleDirective hc dh a d w = Ret (a', w')"
  then show "ag_reportingStopped a' = (ag_reportingStopped a \<or> stops d)"
    by (cases d) (auto simp: HandleDirective_Some HandleDirective_None setter_defs frame_simps)
next
  fix a a' :: "'w Agent" and d w w'
  assume "HandleDirective hc dh a d w = Ret (a', w')"
  then show "MinReportPeriod a' = MinReportPeriod a \<or>
      sint (dh_DefaultMinReportPeriod dh) \<le> sint (MinReportPeriod a')"
    by (cases d) (auto simp: HandleDirective_Some HandleDirective_None setter_defs frame_simps
        MaxDuration_ge split: option.splits)
next
  fix a :: "'w Agent" and d w
  assume "ag_comm a \<noteq> None" and "safe_directive dh d"
  then show "returns (HandleDirective hc dh a d w)"
    using handleCommands_returns [of "apply_settings dh (the d) a" "dir_Commands (the d)" dh hc w]
    by (cases d) (auto simp: HandleDirective_def Let_def frame_simps returns_iff safe_directive_def)
qed

section \<open>One result per command\<close>

text \<open>
  The results the Director is told about, observed by a function \<open>obs\<close> of the world: an RPC
  that reports a result appends it, the calls of the Kubernetes API leave it alone. Which
  commands have a result: those that name an object, a namespace and a command ID and whose
  kind the handler can reach. The rollout command is taken when a command holds both.
\<close>

definition secret_client_keeps :: "('w \<Rightarrow> 'r) \<Rightarrow> ('w, 'j) SecretInterface \<Rightarrow> bool" where
  "secret_client_keeps obs c \<longleftrightarrow> (\<forall>s. keeps obs (si_Create c s)) \<and> (\<forall>n. keeps obs (si_Delete c n)) \<and>
     (\<forall>n. keeps obs (si_Get c n)) \<and> (\<forall>n p. keeps obs (si_Patch c n p))"

definition kube_keeps :: "('w \<Rightarrow> 'r) \<Rightarrow> 'w BasicDirectiveHandler \<Rightarrow> bool" where
  "kube_keeps obs dh \<longleftrightarrow>
     (\<forall>f. dh_rolloutsGetterFactory dh = Some f \<longrightarrow> keeps obs f \<and>
        (\<forall>w c. fst (f w) = Inr c \<longrightarrow> (\<forall>ns n p subs. keeps obs (c ns n p subs)))) \<and>
     (\<forall>f ns w r w'. dh_secretsGetterFactory dh = Some f \<longrightarrow> f ns w = Ret (r, w') \<longrightarrow>
        obs w' = obs w \<and> (\<forall>c. r = Inr c \<longrightarrow> secret_client_keeps obs c))"

definition records_results :: "('w \<Rightarrow> CommandResult list) \<Rightarrow> 'w DirectorClient \<Rightarrow> bool" where
  "records_results obs client \<longleftrightarrow>
     (\<forall>h r w. obs (snd (cl_ReportCommandResult client h r w)) = obs w @ [r])"

fun command_id :: "'w BasicDirectiveHandler \<Rightarrow> Command option \<Rightarrow> string list" where
  "command_id dh None = []"
| "command_id dh (Some c) =
     (case (cmd_RolloutCommand c, cmd_SecretSyncCommand c) of
        (Some r, _) \<Rightarrow>
          if dh_rolloutsGetterFactory dh \<noteq> None \<and> rc_Name r \<noteq> '''' \<and> rc_Namespace r \<noteq> '''' \<and>
             rc_CommandId r \<noteq> '''' then [rc_CommandId r] else []
      | (None, Some s) \<Rightarrow>
          if dh_secretsGetterFactory dh \<noteq> None \<and> ss_Name s \<noteq> '''' \<and> ss_Namespace s \<noteq> '''' \<and>
             ss_CommandId s \<noteq> '''' then [ss_CommandId s] else []
      | (None, None) \<Rightarrow> [])"

lemma applyStatusPatch_keeps:
  assumes "\<forall>ns n p subs. keeps obs (c ns n p subs)"
  shows "keeps obs (applyStatusPatch r c p)"
  using assms unfolding keeps_def applyStatusPatch_def
  by (auto split: prod.splits option.splits) (metis snd_conv)+

lemma patchRollout_keeps:
  assumes "\<forall>ns n p subs. keeps obs (c ns n p subs)"
  shows "keeps obs (patchRollout r c)"
proof -
  note st = applyStatusPatch_keeps [OF assms, unfolded keeps_def, rule_format]
  have ap: "obs (snd (applyPatch r c p w)) = obs w" for p w
    using assms by (simp add: applyPatch_def keeps_def)
  show ?thesis
    unfolding keeps_def patchRollout_def
    using ap st by (auto split: prod.splits option.splits) (metis snd_conv)+
qed

lemma syncSecret_keeps:
  assumes "secret_client_keeps obs c"
  shows "keeps obs (syncSecret ord marshal s c)"
proof -
  have k: "\<And>n. keeps obs (si_Get c n)" "\<And>x. keeps obs (si_Create c x)"
    "\<And>n. keeps obs (si_Delete c n)" "\<And>n p. keeps obs (si_Patch c n p)"
    using assms by (auto simp: secret_client_keeps_def)
  show ?thesis
    unfolding keeps_def syncSecret_def
    by (auto split: secret_splits dest!: keepsD [OF k(1)] keepsD [OF k(2)] keepsD [OF k(3)]
        keepsD [OF k(4)])
qed

lemma run_keeps:
  assumes "kube_keeps obs dh"
  shows "dh_rolloutsGetterFactory dh = Some f \<Longrightarrow> keeps obs (rollout_RunWithClientFactory r f)"
    and "dh_secretsGetterFactory dh = Some g \<Longrightarrow>
      secret_RunWithClientFactory ord marshal s g w = Ret (err, w') \<Longrightarrow> obs w' = obs w"
proof -
  assume f: "dh_rolloutsGetterFactory dh = Some f"
  show "keeps obs (rollout_RunWithClientFactory r f)"
    unfolding keeps_def
  proof
    fix w
    obtain x w1 where fw: "f w = (x, w1)" by fastforce
    have "obs w1 = obs w" using assms f fw by (auto simp: kube_keeps_def intro: keepsD)
    moreover have "keeps obs (patchRollout r c)" if "x = Inr c" for c
    proof (rule patchRollout_keeps)
      have "fst (f w) = Inr c" using fw that by simp
      then show "\<forall>ns n p subs. keeps obs (c ns n p subs)"
        using assms f unfolding kube_keeps_def by blast
    qed
    ultimately show "obs (snd (rollout_RunWithClientFactory r f w)) = obs w"
      using fw by (auto simp: rollout_RunWithClientFactory_def keeps_def split: sum.splits)
  qed
next
  assume g: "dh_secretsGetterFactory dh = Some g"
    and run: "secret_RunWithClientFactory ord marshal s g w = Ret (err, w')"
  then obtain x w1 where gw: "g (sc_namespace s) w = Ret (x, w1)"
    and rest: "(case x of Inl e \<Rightarrow> Ret (Some e, w1) | Inr c \<Rightarrow> Ret (syncSecret ord marshal s c w1)) =
      (Ret (err, w') :: ('a, go_error option \<times> 'a) outcome)"
    unfolding secret_RunWithClientFactory_def bind_outcome_Ret_iff by auto
  have w1: "obs w1 = obs w" and c: "\<forall>c. x = Inr c \<longrightarrow> secret_client_keeps obs c"
    using assms g gw unfolding kube_keeps_def by blast+
  show "obs w' = obs w"
  proof (cases x)
    case (Inr c)
    with c have "keeps obs (syncSecret ord marshal s c)" by (simp add: syncSecret_keeps)
    from keepsD [OF this] rest Inr w1 show ?thesis by simp
  qed (use rest w1 in simp)
qed

lemma reportCommandResult_recorded:
  assumes "\<forall>i. records_results obs (hc_client hc i)"
    and "reportCommandResult hc ident e a w = Ret w'"
  shows "obs w' = obs w @ [command_result ident e]"
  using assms
  by (auto simp: reportCommandResult_def comm_ReportCommandResult_def records_results_def
      split: option.splits prod.splits) (metis snd_conv)+

lemma command_result_id [simp]: "cr_CommandId (command_result ident e) = ident"
  by (simp add: command_result_def split: option.splits)

lemma handleRolloutCommand_results:
  assumes "kube_keeps obs dh" and "\<forall>i. records_results obs (hc_client hc i)"
    and "handleRolloutCommand hc dh (Some r) a w = Ret w'"
    and "cmd_RolloutCommand command = Some r"
  shows "\<exists>rs. obs w' = obs w @ rs \<and> map cr_CommandId rs = command_id dh (Some command)"
proof (cases "command_id dh (Some command) = []")
  case True
  with assms(3,4) have "w' = w"
    by (auto simp: handleRolloutCommand_def Let_def split: option.splits if_splits)
  with True show ?thesis by simp
next
  case False
  with assms(4) obtain f where f: "dh_rolloutsGetterFactory dh = Some f"
    and ok: "rc_Name r \<noteq> ''''" "rc_Namespace r \<noteq> ''''" "rc_CommandId r \<noteq> ''''"
    by (auto split: if_splits)
  let ?c = "\<lparr>ro_namespace = rc_Namespace r, ro_rolloutName = rc_Name r,
             ro_action = name_of RolloutCommand_Action_name (rc_Action r)\<rparr>"
  obtain err w1 where run: "rollout_RunWithClientFactory ?c f w = (err, w1)" by fastforce
  with assms(3) f ok have "reportCommandResult hc (rc_CommandId r) err a w1 = Ret w'"
    by (simp add: handleRolloutCommand_def)
  from reportCommandResult_recorded [OF assms(2) this] keepsD [OF run_keeps(1) [OF assms(1) f] run]
  have "obs w' = obs w @ [command_result (rc_CommandId r) err]" by simp
  then show ?thesis using assms(4) f ok by simp
qed

lemma handleSecretSyncCommand_results:
  assumes "kube_keeps obs dh" and "\<forall>i. records_results obs (hc_client hc i)"
    and "handleSecretSyncCommand hc dh (Some s) a w = Ret w'"
    and "cmd_RolloutCommand command = None" and "cmd_SecretSyncCommand command = Some s"
  shows "\<exists>rs. obs w' = obs w @ rs \<and> map cr_CommandId rs = command_id dh (Some command)"
proof (cases "command_id dh (Some command) = []")
  case True
  with assms(3-5) have "w' = w"
    by (auto simp: handleSecretSyncCommand_def Let_def split: option.splits if_splits)
  with True show ?thesis by simp
next
  case False
  with assms(4,5) obtain f where f: "dh_secretsGetterFactory dh = Some f"
    and ok: "ss_Name s \<noteq> ''''" "ss_Namespace s \<noteq> ''''" "ss_CommandId s \<noteq> ''''"
    by (auto split: if_splits)
  let ?c = "\<lparr>sc_name = ss_Name s, sc_namespace = ss_Namespace s,
             sc_action = name_of SecretSyncCommand_Action_name (ss_Action s),
             sc_secret = ss_Secret s\<rparr>"
  from assms(3) f ok obtain err w1 where
    run: "secret_RunWithClientFactory (hc_ord hc) (hc_marshal hc) ?c f w = Ret (err, w1)"
    and "reportCommandResult hc (ss_CommandId s) err a w1 = Ret w'"
    by (auto simp: handleSecretSyncCommand_def bind_outcome_Ret_iff)
  from reportCommandResult_recorded [OF assms(2) this(2)] run_keeps(2) [OF assms(1) f run]
  have "obs w' = obs w @ [command_result (ss_CommandId s) err]" by simp
  then show ?thesis using assms(4,5) f ok by simp
qed

lemma handleCommands_results:
  assumes "kube_keeps obs dh" and "\<forall>i. records_results obs (hc_client hc i)"
    and "handleCommands hc dh cmds a w = Ret w'"
  shows "\<exists>rs. obs w' = obs w @ rs \<and> map cr_CommandId rs = concat (map (command_id dh) cmds)"
  using assms(3)
proof (induction cmds arbitrary: w)
  case Nil
  then show ?case by simp
next
  case (Cons cmd cmds)
  obtain command where cmd: "cmd = Some command" using Cons.prems by (cases cmd) auto
  let ?m = "if cmd_RolloutCommand command \<noteq> None
      then handleRolloutCommand hc dh (cmd_RolloutCommand command) a w
      else if cmd_SecretSyncCommand command \<noteq> None
      then handleSecretSyncCommand hc dh (cmd_SecretSyncCommand command) a w else Ret w"
  obtain w1 where m: "?m = Ret w1" and rest: "handleCommands hc dh cmds a w1 = Ret w'"
    using Cons.prems unfolding cmd handleCommands.simps bind_outcome_Ret_iff by blast
  have "\<exists>rs. obs w1 = obs w @ rs \<and> map cr_CommandId rs = command_id dh (Some command)"
  proof (cases "cmd_RolloutCommand command")
    case (Some r)
    then show ?thesis using m handleRolloutCommand_results [OF assms(1,2)] by simp
  next
    case None
    then show ?thesis using m handleSecretSyncCommand_results [OF assms(1,2) _ None]
      by (cases "cmd_SecretSyncCommand command") auto
  qed
  then obtain rs1 where 1: "obs w1 = obs w @ rs1" "map cr_CommandId rs1 = command_id dh (Some command)"
    by blast
  from Cons.IH [OF rest] obtain rs2 where
    2: "obs w' = obs w1 @ rs2" "map cr_CommandId rs2 = concat (map (command_id dh) cmds)" by blast
  show ?case using 1 2 cmd by (intro exI [of _ "rs1 @ rs2"]) simp
qed

section \<open>When a directive panics\<close>

lemma reportCommandResult_returns_iff:
  "returns (reportCommandResult hc ident e a w) \<longleftrightarrow> ag_comm a \<noteq> None"
  by (simp add: reportCommandResult_def split: option.split)

text \<open>
  A command that panics in world \<open>w\<close>: it is nil, or it has a result to report and there is no
  connection, or it is a secret command whose client cannot be made.
\<close>

definition command_panics ::
  "'w BasicDirectiveHandler \<Rightarrow> nat option \<Rightarrow> Command option \<Rightarrow> 'w \<Rightarrow> bool" where
  "command_panics dh conn cmd w =
     (case cmd of
        None \<Rightarrow> True
      | Some c \<Rightarrow> command_id dh cmd \<noteq> [] \<and>
          (conn = None \<or>
           (case (cmd_RolloutCommand c, cmd_SecretSyncCommand c, dh_secretsGetterFactory dh) of
              (None, Some s, Some f) \<Rightarrow> \<not> returns (f (ss_Namespace s) w)
            | _ \<Rightarrow> False)))"

lemma returns_reported:
  "returns (bind_outcome m (\<lambda>(err, w1). reportCommandResult hc ident err a w1)) \<longleftrightarrow> returns m \<and> ag_comm a \<noteq> None"
  by (cases m) (auto simp: reportCommandResult_def split: prod.split option.split)

lemma handleCommands_one:
  "returns (handleCommands hc dh [cmd] a w) \<longleftrightarrow> \<not> command_panics dh (ag_comm a) cmd w"
proof (cases cmd)
  case None
  then show ?thesis by (simp add: command_panics_def)
next
  case (Some c)
  have one: "returns (handleCommands hc dh [cmd] a w) \<longleftrightarrow>
      returns (if cmd_RolloutCommand c \<noteq> None then handleRolloutCommand hc dh (cmd_RolloutCommand c) a w
        else if cmd_SecretSyncCommand c \<noteq> None then handleSecretSyncCommand hc dh (cmd_SecretSyncCommand c) a w
        else Ret w)"
    unfolding Some handleCommands.simps returns_bind by (simp add: returns_iff)
  consider (rollout) r where "cmd_RolloutCommand c = Some r"
    | (secret) s where "cmd_RolloutCommand c = None" "cmd_SecretSyncCommand c = Some s"
    | (neither) "cmd_RolloutCommand c = None" "cmd_SecretSyncCommand c = None" by blast
  then show ?thesis
  proof cases
    case rollout
    then show ?thesis unfolding one unfolding Some
      by (auto simp: command_panics_def handleRolloutCommand_def Let_def reportCommandResult_def
          split: option.splits prod.splits)
  next
    case secret
    show ?thesis
    proof (cases "dh_secretsGetterFactory dh")
      case None
      with secret show ?thesis unfolding one unfolding Some by (simp add: command_panics_def handleSecretSyncCommand_def)
    next
      case factory: (Some f)
      have "returns (handleSecretSyncCommand hc dh (Some s) a w) \<longleftrightarrow> command_id dh (Some c) = [] \<or>
          returns (f (ss_Namespace s) w) \<and> ag_comm a \<noteq> None"
        using secret factory by (simp add: handleSecretSyncCommand_def Let_def returns_reported secret_run_returns)
      then show ?thesis unfolding one unfolding Some using secret factory by (auto simp: command_panics_def)
    qed
  next
    case neither
    then show ?thesis unfolding one unfolding Some by (simp add: command_panics_def)
  qed
qed

lemma handleCommands_append:
  "handleCommands hc dh (cmds @ cmds') a w =
     bind_outcome (handleCommands hc dh cmds a w) (\<lambda>w1. handleCommands hc dh cmds' a w1)"
proof (induction cmds arbitrary: w)
  case (Cons cmd cmds)
  then have "handleCommands hc dh (cmds @ cmds') a =
      (\<lambda>w. bind_outcome (handleCommands hc dh cmds a w) (handleCommands hc dh cmds' a))" by blast
  then show ?case by (cases cmd) (simp_all add: bind_outcome_assoc)
qed simp

lemma handleCommands_panics_iff:
  "\<not> returns (handleCommands hc dh cmds a w) \<longleftrightarrow>
     (\<exists>pre cmd post w1. cmds = pre @ cmd # post \<and> handleCommands hc dh pre a w = Ret w1 \<and>
        command_panics dh (ag_comm a) cmd w1)"
proof (induction cmds rule: rev_induct)
  case Nil
  then show ?case by simp
next
  case (snoc cmd cmds)
  have "returns (handleCommands hc dh (cmds @ [cmd]) a w) \<longleftrightarrow>
      (\<exists>w1. handleCommands hc dh cmds a w = Ret w1 \<and> \<not> command_panics dh (ag_comm a) cmd w1)"
    by (simp add: handleCommands_append returns_bind handleCommands_one del: handleCommands.simps)
  then show ?case
    using snoc by (cases "handleCommands hc dh cmds a w")
      (fastforce simp: append_eq_append_conv2 append_eq_Cons_conv Cons_eq_append_conv)+
qed

section \<open>The duration of a directive\<close>

lemma sint_scast_32_64: "sint (scast (x :: int32) :: int64) = sint x"
  by (rule sint_up_scast) (simp add: is_up)

lemma sint_64_wrap: "sint (word_of_int v :: 64 word) = (v + 2 ^ 63) mod 2 ^ 64 - 2 ^ 63"
proof -
  have "sint (word_of_int v :: 64 word) = signed_take_bit 63 v" by (simp only: sint_sbintrunc') simp
  also have "\<dots> = (v + 2 ^ 63) mod 2 ^ 64 - 2 ^ 63"
    by (simp only: signed_take_bit_eq_take_bit_shift take_bit_eq_mod) simp
  finally show ?thesis .
qed

lemma sint_duration_of:
  "sint (duration_of p) = (sint (pd_Seconds p) * 1000000000 + sint (pd_Nanos p) + 2 ^ 63) mod 2 ^ 64 - 2 ^ 63"
proof -
  have "duration_of p = word_of_int (sint (pd_Seconds p) * 1000000000 + sint (pd_Nanos p))"
    by (simp add: duration_of_def wi_hom_syms flip: sint_scast_32_64)
  then show ?thesis by (simp only: sint_64_wrap)
qed

lemma wrap_id: "- (2 ^ 63) \<le> v \<Longrightarrow> v < 2 ^ 63 \<Longrightarrow> (v + 2 ^ 63) mod 2 ^ 64 - 2 ^ 63 = (v :: int)"
  by simp

section \<open>Properties\<close>

definition sample_directive :: Directive where
  "sample_directive = \<lparr>dir_ID = ''d1'', dir_StopReporting = False,
     dir_MinReportPeriod = Some \<lparr>pd_Seconds = 60, pd_Nanos = 5\<rparr>,
     dir_Commands =
       [Some \<lparr>cmd_Message = ''hello'', cmd_RolloutCommand = Some \<lparr>rc_Name = ''r'', rc_Namespace = ''ns'',
                rc_Action = 0, rc_CommandId = ''c1''\<rparr>, cmd_SecretSyncCommand = None\<rparr>,
        Some \<lparr>cmd_Message = '''', cmd_RolloutCommand = Some \<lparr>rc_Name = '''', rc_Namespace = ''ns'',
                rc_Action = 0, rc_CommandId = ''c2''\<rparr>, cmd_SecretSyncCommand = None\<rparr>]\<rparr>"

definition sample_handler :: "'w BasicDirectiveHandler" where
  "sample_handler = \<lparr>dh_DefaultMinReportPeriod = defaultMinReportPeriod,
     dh_rolloutsGetterFactory = Some (\<lambda>w. (Inr (\<lambda>ns n p subs w. (None, w)), w)),
     dh_secretsGetterFactory = None\<rparr>"

definition sample_handler_calls :: "CommandResult list HandlerCalls" where
  "sample_handler_calls = \<lparr>hc_client = (\<lambda>i. sample_client (\<lambda>r w. w @ [r])),
     hc_marshal = (\<lambda>ops. Inr []), hc_ord = (\<lambda>xs. xs)\<rparr>"

lemmas sample_directive_defs = sample_directive_def sample_handler_def sample_handler_calls_def

lemma sample_directive_runs:
  "HandleDirective sample_handler_calls sample_handler connected_agent (Some sample_directive) [] =
   Ret (SetLastDirectiveID ''d1'' (apply_settings sample_handler sample_directive connected_agent),
        [command_result ''c1'' None])"
  by (simp add: sample_directive_defs HandleDirective_def handleRolloutCommand_def frame_simps
      rollout_RunWithClientFactory_def patchRollout_def applyPatch_def action_defs name_of_def
      RolloutCommand_Action_name_def reportCommandResult_def comm_ReportCommandResult_def)

text \<open>
  C2: Whatever directives arrive, the report period never falls below the configured minimum,
  reporting is stopped exactly if it was or one of them said so (no directive restarts it), and
  nothing but the period, that switch and the last directive ID of the agent changes.
\<close>

theorem directives_settings:
  assumes "handle_all (HandleDirective hc dh) a ds w = Ret (a', w')"
    and "sint (dh_DefaultMinReportPeriod dh) \<le> sint (MinReportPeriod a)"
  shows "sint (dh_DefaultMinReportPeriod dh) \<le> sint (MinReportPeriod a') \<and>
    ag_reportingStopped a' = (ag_reportingStopped a \<or> (\<exists>d \<in> set ds. stops d)) \<and>
    a' = a\<lparr>MinReportPeriod := MinReportPeriod a', ag_reportingStopped := ag_reportingStopped a',
           ag_lastDirectiveID := ag_lastDirectiveID a'\<rparr>"
  using basic.all_directives [OF assms] unfolding only_settings_def by blast

lemma directives_settings_witness:
  "sint (dh_DefaultMinReportPeriod (sample_handler :: CommandResult list BasicDirectiveHandler)) \<le>
   sint (MinReportPeriod (SetLastDirectiveID ''d1'' (apply_settings sample_handler sample_directive
        (connected_agent :: CommandResult list Agent))))"
proof -
  have run: "handle_all (HandleDirective sample_handler_calls sample_handler) connected_agent
      [None, Some sample_directive] [] =
    Ret (SetLastDirectiveID ''d1'' (apply_settings sample_handler sample_directive connected_agent),
        [command_result ''c1'' None])"
    by (simp add: sample_directive_runs HandleDirective_None)
  have "sint (dh_DefaultMinReportPeriod (sample_handler :: CommandResult list BasicDirectiveHandler)) \<le>
      sint (MinReportPeriod (connected_agent :: CommandResult list Agent))"
    by (simp add: sample_handler_def)
  from directives_settings [OF run this] show ?thesis by (rule conjunct1)
qed

text \<open>
  C19: The Director is told the result of every command that names its object, its namespace and
  a command ID and whose kind the agent can reach: one result per such command, in the order of
  the directive, and none for any other command.
\<close>

theorem directive_results:
  assumes "kube_keeps obs dh" and "\<forall>i. records_results obs (hc_client hc i)"
    and "HandleDirective hc dh a (Some d) w = Ret (a', w')"
  shows "\<exists>rs. obs w' = obs w @ rs \<and>
    map cr_CommandId rs = concat (map (command_id dh) (dir_Commands d))"
  using assms(3) handleCommands_results [OF assms(1,2)] unfolding HandleDirective_Some by blast

lemma directive_results_witness:
  "\<exists>rs. [command_result ''c1'' None] = [] @ rs \<and> map cr_CommandId rs = [''c1'']"
proof -
  have 1: "kube_keeps (\<lambda>w. w) (sample_handler :: CommandResult list BasicDirectiveHandler)"
    by (simp add: kube_keeps_def keeps_def sample_handler_def)
  have 2: "\<forall>i. records_results (\<lambda>w. w) (hc_client sample_handler_calls i)"
    by (simp add: records_results_def sample_handler_calls_def)
  from directive_results [OF 1 2 sample_directive_runs] show ?thesis
    by (simp add: sample_directive_def sample_handler_def)
qed

text \<open>
  C20: Exactly when a directive makes the process panic: after the commands before it were carried
  out, some command is nil, or has a result to report while the agent has no connection (it was
  cleared when the API key changed), or is a secret command whose client the factory panics on.
\<close>

theorem directive_panics_iff:
  "\<not> returns (HandleDirective hc dh a directive w) \<longleftrightarrow>
    (\<exists>d pre cmd post w1. directive = Some d \<and> dir_Commands d = pre @ cmd # post \<and>
       handleCommands hc dh pre (apply_settings dh d a) w = Ret w1 \<and> command_panics dh (ag_comm a) cmd w1)"
proof (cases directive)
  case (Some d)
  have "returns (HandleDirective hc dh a directive w) \<longleftrightarrow>
      returns (handleCommands hc dh (dir_Commands d) (apply_settings dh d a) w)"
    by (auto simp: Some HandleDirective_def Let_def returns_iff split: outcome.splits)
  then show ?thesis
    using handleCommands_panics_iff [of hc dh "dir_Commands d" "apply_settings dh d a" w]
    by (simp add: Some frame_simps)
qed (simp add: HandleDirective_None)



end
