(* ===== verification/Agent_Ops.thy ===== *)
theory Agent_Ops
  imports Directives
begin

text \<open>
  The operations of the agent (\<open>pkg/agent/agent.go\<close>): fetching a snapshot, following the API
  key and the emissary endpoints, turning a snapshot into a report, and the parts of the loop
  \<open>watch\<close> between its reads of shared variables. Everything outside the repository is a field
  of \<open>AgentCalls\<close>.
\<close>

section \<open>What the agent calls\<close>

record http_response =
  hr_StatusCode :: int
  hr_Body :: "go_error + byte list"

text \<open>
  \<open>json.Unmarshal\<close> fills its target and returns an error or nil; the target may be filled in
  part when there is an error. \<open>Sanitize\<close> changes the snapshot in place. The two watchers of
  the configuration answer \<open>Get\<close> with an object (or none, the flag \<open>ok\<close>) and an error. The
  content types and versions are constants of emissary.
\<close>

record ('w, 'd, 'e) AgentCalls =
  ac_handler :: "'w HandlerCalls"
  ac_http_Get :: "string \<Rightarrow> 'w \<Rightarrow> (go_error + http_response) \<times> 'w"
  ac_unmarshal_snapshot :: "byte list \<Rightarrow> Snapshot \<times> go_error option"
  ac_unmarshal_diagnostics :: "byte list \<Rightarrow> Diagnostics \<times> go_error option"
  ac_secret_Get :: "string \<Rightarrow> string \<Rightarrow> 'w \<Rightarrow> (Secret option \<times> go_error option) \<times> 'w"
  ac_cmap_Get :: "string \<Rightarrow> string \<Rightarrow> 'w \<Rightarrow> (ConfigMap option \<times> go_error option) \<times> 'w"
  ac_endpoints_List :: "'w \<Rightarrow> (go_error + Endpoints list) \<times> 'w"
  ac_namespace_UID :: "'w \<Rightarrow> string \<Rightarrow> go_error + string"
  ac_newSHA1 :: "string \<Rightarrow> string"
  ac_dial :: "string \<Rightarrow> credentials \<Rightarrow> 'w rpc"
  ac_sanitize :: "Snapshot \<Rightarrow> go_error option \<times> Snapshot"
  ac_marshal_snapshot :: "Snapshot \<Rightarrow> go_error + byte list"
  ac_marshal_diagnostics :: "Diagnostics \<Rightarrow> go_error + byte list"
  ac_marshal_report :: "Snapshot_report \<Rightarrow> go_error + byte list"
  ac_marshal_diagnostics_report :: "Diagnostics_report \<Rightarrow> go_error + byte list"
  ac_docs_Get :: "'w http_get"
  ac_openapi :: "('d, 'e) OpenAPI"
  ac_doc_range :: doc_range
  ac_header_range :: header_range
  ac_store_range :: store_range
  ac_uid_range :: uid_range
  ac_snapshot_ContentType :: string
  ac_snapshot_ApiVersion :: string
  ac_diagnostics_ContentType :: string
  ac_diagnostics_ApiVersion :: string

section \<open>Fetching from emissary\<close>

definition status_error :: "string \<Rightarrow> URL \<Rightarrow> int \<Rightarrow> go_error" where
  "status_error what url code =
     ErrText (''Cannot fetch '' @ what @ '' from url: '' @ url_String url
       @ ''. Response failed with status code: '' @ dec_int code)"

definition getAmbSnapshotInfo ::
  "('w, 'd, 'e) AgentCalls \<Rightarrow> URL \<Rightarrow> 'w \<Rightarrow> (Snapshot option \<times> go_error option) \<times> 'w" where
  "getAmbSnapshotInfo ac url w =
     (case ac_http_Get ac (url_String url) w of
        (Inl err, w1) \<Rightarrow> ((None, Some err), w1)
      | (Inr resp, w1) \<Rightarrow>
          if hr_StatusCode resp > 299
          then ((None, Some (status_error ''snapshot'' url (hr_StatusCode resp))), w1)
          else (case hr_Body resp of
              Inl err \<Rightarrow> ((None, Some err), w1)
            | Inr rawSnapshot \<Rightarrow>
                (case ac_unmarshal_snapshot ac rawSnapshot of
                   (ret, err) \<Rightarrow> ((Some ret, err), w1))))"

definition getAmbDiagnosticsInfo ::
  "('w, 'd, 'e) AgentCalls \<Rightarrow> URL \<Rightarrow> 'w \<Rightarrow> (Diagnostics option \<times> go_error option) \<times> 'w" where
  "getAmbDiagnosticsInfo ac url w =
     (case ac_http_Get ac (url_String url) w of
        (Inl err, w1) \<Rightarrow> ((None, Some err), w1)
      | (Inr resp, w1) \<Rightarrow>
          if hr_StatusCode resp > 299
          then ((None, Some (status_error ''diagnostics'' url (hr_StatusCode resp))), w1)
          else (case hr_Body resp of
              Inl err \<Rightarrow> ((None, Some err), w1)
            | Inr rawDiagnostics \<Rightarrow>
                (case ac_unmarshal_diagnostics ac rawDiagnostics of
                   (ret, err) \<Rightarrow> ((Some ret, err), w1))))"

section \<open>The API key\<close>

definition cloudConnectTokenKey :: string where "cloudConnectTokenKey = ''CLOUD_CONNECT_TOKEN''"

text \<open>\<open>string(bytes)\<close>; a missing key of a Go map reads as the zero value.\<close>

definition string_of_bytes :: "byte list \<Rightarrow> string" where
  "string_of_bytes bs = map (\<lambda>b. char_of (unat b)) bs"

definition secret_token :: "Secret \<Rightarrow> string" where
  "secret_token secret =
     (case map_of (so_Data secret) cloudConnectTokenKey of
        None \<Rightarrow> '''' | Some bs \<Rightarrow> string_of_bytes bs)"

definition cmap_token :: "ConfigMap \<Rightarrow> string" where
  "cmap_token cm =
     (case map_of (cm_Data cm) cloudConnectTokenKey of None \<Rightarrow> '''' | Some s \<Rightarrow> s)"

definition maybeResetComm :: "string \<Rightarrow> 'w Agent \<Rightarrow> 'w Agent" where
  "maybeResetComm newKey a =
     (if newKey \<noteq> AmbassadorAPIKey a then ClearComm (a\<lparr>AmbassadorAPIKey := newKey\<rparr>) else a)"

definition handleAPIKeyConfigChange ::
  "('w, 'd, 'e) AgentCalls \<Rightarrow> 'w Agent \<Rightarrow> 'w \<Rightarrow> 'w Agent \<times> 'w" where
  "handleAPIKeyConfigChange ac a w =
     (case ac_secret_Get ac (AgentNamespace a) (AgentConfigResourceName a) w of
        ((Some secret, _), w1) \<Rightarrow> (maybeResetComm (secret_token secret) a, w1)
      | ((None, _), w1) \<Rightarrow>
          (case ac_cmap_Get ac (AgentNamespace a) (AgentConfigResourceName a) w1 of
             ((Some cm, _), w2) \<Rightarrow> (maybeResetComm (cmap_token cm) a, w2)
           | ((None, _), w2) \<Rightarrow> (maybeResetComm (ag_ambassadorAPIKeyEnvVarValue a) a, w2)))"

text \<open>
  \<open>waitForAPIKey\<close>: the events are the ones of its \<open>select\<close>, given as a list; when they run out
  the function is still waiting, which is \<open>None\<close>.
\<close>

datatype wait_event = WDone | WConfig | WMinute

fun wait_loop ::
  "('w, 'd, 'e) AgentCalls \<Rightarrow> wait_event list \<Rightarrow> 'w Agent \<Rightarrow> 'w \<Rightarrow> ('w Agent \<times> 'w) option" where
  "wait_loop ac evs a w =
     (if AmbassadorAPIKey a \<noteq> '''' then Some (a, w)
      else case evs of
        [] \<Rightarrow> None
      | WDone # _ \<Rightarrow> Some (a, w)
      | WConfig # evs' \<Rightarrow> (case handleAPIKeyConfigChange ac a w of (a1, w1) \<Rightarrow> wait_loop ac evs' a1 w1)
      | WMinute # evs' \<Rightarrow> wait_loop ac evs' a w)"

declare wait_loop.simps [simp del]

definition waitForAPIKey ::
  "('w, 'd, 'e) AgentCalls \<Rightarrow> wait_event list \<Rightarrow> 'w Agent \<Rightarrow> 'w \<Rightarrow> ('w Agent \<times> 'w) option" where
  "waitForAPIKey ac evs a w =
     (case handleAPIKeyConfigChange ac a w of (a1, w1) \<Rightarrow> wait_loop ac evs a1 w1)"

section \<open>The endpoints of emissary\<close>

fun endpoint_named :: "string \<Rightarrow> Endpoints list \<Rightarrow> bool" where
  "endpoint_named target [] = False"
| "endpoint_named target (endpoint # es) = (GetName endpoint = target \<or> endpoint_named target es)"

text \<open>A nil fallback watcher is a nil dereference; the constructor always sets one.\<close>

definition handleAmbassadorEndpointChange ::
  "('w, 'd, 'e) AgentCalls \<Rightarrow> string \<Rightarrow> 'w Agent \<Rightarrow> 'w \<Rightarrow> ('w Agent \<times> 'w, 'w Agent \<times> 'w) outcome" where
  "handleAmbassadorEndpointChange ac ambassadorHost a w =
     (let target = hd (Split ambassadorHost (CHR ''.'')) in
      case ac_endpoints_List ac w of (r, w1) \<Rightarrow>
        (let found = (case r of Inl err \<Rightarrow> False | Inr endpoints \<Rightarrow> endpoint_named target endpoints);
             a1 = a\<lparr>ag_emissaryPresent := found\<rparr>
         in case ag_fallbackWatcher a of
              None \<Rightarrow> Panic (a1, w1)
            | Some fw \<Rightarrow>
                Ret (a1, if found then FallbackWatchers_Cancel fw w1
                         else FallbackWatchers_EnsureStarted fw w1)))"

section \<open>Processing a snapshot\<close>

fun at_agent :: "'a \<Rightarrow> ('w, 'b) outcome \<Rightarrow> ('a \<times> 'w, 'b) outcome" where
  "at_agent a (Ret r) = Ret r"
| "at_agent a (Panic w) = Panic (a, w)"

definition load_watchers ::
  "'w Agent \<Rightarrow> Snapshot \<Rightarrow> 'w \<Rightarrow> ('w, Snapshot \<times> 'w) outcome" where
  "load_watchers a sn w =
     bind_outcome
       (case ag_fallbackWatcher a of
          Some fw \<Rightarrow> if \<not> ag_emissaryPresent a then FallbackWatchers_LoadSnapshot fw sn w else Ret (sn, w)
        | None \<Rightarrow> Ret (sn, w))
       (\<lambda>(sn1, w1). case ag_coreWatchers a of
          Some cw \<Rightarrow> CoreWatchers_LoadSnapshot cw sn1 w1
        | None \<Rightarrow> Ret (sn1, w1))"

definition load_argo :: "uid_range \<Rightarrow> 'w Agent \<Rightarrow> Snapshot \<Rightarrow> Snapshot" where
  "load_argo ord a sn =
     (case sn_Kubernetes sn of
        None \<Rightarrow> sn
      | Some k \<Rightarrow>
          (let k1 = (case ag_rolloutStore a of None \<Rightarrow> k
                | Some s \<Rightarrow> k\<lparr>ks_ArgoRollouts := RolloutStore_StateOfWorld ord s\<rparr>);
               k2 = (case ag_applicationStore a of None \<Rightarrow> k1
                | Some s \<Rightarrow> k1\<lparr>ks_ArgoApplications := ApplicationStore_StateOfWorld ord s\<rparr>)
           in sn\<lparr>sn_Kubernetes := Some k2\<rparr>))"

definition load_docs ::
  "('w, 'd, 'e) AgentCalls \<Rightarrow> int \<Rightarrow> 'w Agent \<Rightarrow> Snapshot \<Rightarrow> 'w \<Rightarrow>
   ('w, 'w Agent \<times> Snapshot \<times> Mapping list option \<times> 'w) outcome" where
  "load_docs ac now a sn w =
     (case ag_apiDocsStore a of
        None \<Rightarrow> Ret (a, sn, None, w)
      | Some ds \<Rightarrow>
          bind_outcome (APIDocs_ProcessSnapshot (ac_doc_range ac) (ac_header_range ac)
              (ac_store_range ac) (ac_docs_Get ac) (ac_openapi ac) now (Some sn) ds w)
            (\<lambda>(ds', later, w1). Ret (a\<lparr>ag_apiDocsStore := Some ds'\<rparr>,
               sn\<lparr>sn_APIDocs := APIDocs_StateOfWorld (ac_store_range ac) ds'\<rparr>, later, w1)))"

text \<open>
  The whole of \<open>ProcessSnapshot\<close> at time \<open>now\<close>: the agent after it, the mappings a new goroutine
  scrapes, the error, and the world.
\<close>

definition new_report ::
  "('w, 'd, 'e) AgentCalls \<Rightarrow> Identity \<Rightarrow> byte list \<Rightarrow> int \<Rightarrow> Snapshot_report" where
  "new_report ac agentID raw now =
     \<lparr>sr_Identity = Some agentID, sr_Message = '''', sr_RawSnapshot = raw,
      sr_ContentType = ac_snapshot_ContentType ac, sr_ApiVersion = ac_snapshot_ApiVersion ac,
      sr_SnapshotTs = now\<rparr>"

definition finish_snapshot ::
  "('w, 'd, 'e) AgentCalls \<Rightarrow> int \<Rightarrow> Identity \<Rightarrow> 'w Agent \<Rightarrow> Snapshot \<Rightarrow> 'w Agent \<times> go_error option" where
  "finish_snapshot ac now agentID a sn =
     (case ac_sanitize ac sn of
        (Some err, sn1) \<Rightarrow> (a, Some err)
      | (None, sn1) \<Rightarrow>
          (let a1 = a\<lparr>ag_currentSnapshot := Some sn1\<rparr> in
           case ac_marshal_snapshot ac sn1 of
             Inl err \<Rightarrow> (a1, Some err)
           | Inr raw \<Rightarrow> (a1\<lparr>ag_reportToSend := Some (new_report ac agentID raw now)\<rparr>, None)))"

definition ProcessSnapshot ::
  "('w, 'd, 'e) AgentCalls \<Rightarrow> int \<Rightarrow> 'w Agent \<Rightarrow> Snapshot option \<Rightarrow> 'w \<Rightarrow>
   ('w Agent \<times> 'w, 'w Agent \<times> Mapping list option \<times> go_error option \<times> 'w) outcome" where
  "ProcessSnapshot ac now a snapshot w =
     (case snapshot of
        None \<Rightarrow> Ret (a, None, None, w)
      | Some sn \<Rightarrow>
     (case GetIdentity (sn_AmbassadorMeta sn) (Hostname (AESSnapshotURL a)) of
        None \<Rightarrow> Ret (a, None, None, w)
      | Some agentID \<Rightarrow>
          (let a1 = a\<lparr>ag_agentID := Some agentID\<rparr> in
           bind_outcome
             (if sn_Kubernetes sn = None then Ret (a1, sn, None, w)
              else bind_outcome (at_agent a1 (load_watchers a1 sn w)) (\<lambda>(sn1, w1).
                     at_agent a1 (load_docs ac now a1 (load_argo (ac_uid_range ac) a1 sn1) w1)))
             (\<lambda>(a2, sn2, later, w2).
                case finish_snapshot ac now agentID a2 sn2 of
                  (a3, err) \<Rightarrow> Ret (a3, later, err, w2)))))"

section \<open>Reports in flight\<close>

text \<open>
  What the goroutines of \<open>ReportSnapshot\<close> and \<open>ReportDiagnostics\<close> are started with. The
  connection is not among it: the goroutine reads \<open>a.comm\<close> when it runs.
\<close>

record 'r ReportJob =
  rj_report :: 'r
  rj_delay :: duration
  rj_apikey :: string

definition ReportSnapshot :: "'w Agent \<Rightarrow> Snapshot_report \<Rightarrow> 'w Agent \<times> Snapshot_report ReportJob" where
  "ReportSnapshot a report =
     (a\<lparr>ag_reportRunning := True, ag_reportToSend := None\<rparr>,
      \<lparr>rj_report = report, rj_delay = MinReportPeriod a, rj_apikey = AmbassadorAPIKey a\<rparr>)"

definition report_job_send ::
  "('w, 'd, 'e) AgentCalls \<Rightarrow> Snapshot_report ReportJob \<Rightarrow> 'w Agent \<Rightarrow> 'w \<Rightarrow>
   ('w Agent \<times> 'w, 'w Agent \<times> 'w) outcome" where
  "report_job_send ac job a w =
     (case ag_comm a of
        None \<Rightarrow> Panic (a, w)
      | Some i \<Rightarrow>
          (case comm_Report (hc_client (ac_handler ac) i) (ac_marshal_report ac) (ag_comms a ! i)
                  (rj_report job) (rj_apikey job) w of
             (c', err, w1) \<Rightarrow> Ret (a\<lparr>ag_comms := (ag_comms a)[i := c']\<rparr>, w1)))"

definition ProcessDiagnostics ::
  "('w, 'd, 'e) AgentCalls \<Rightarrow> int \<Rightarrow> 'w Agent \<Rightarrow> Diagnostics option \<Rightarrow>
   'w Agent \<times> Diagnostics_report option \<times> go_error option" where
  "ProcessDiagnostics ac now a diagnostics =
     (case diagnostics of
        None \<Rightarrow> (a, None, None)
      | Some d \<Rightarrow>
     (case GetIdentityFromDiagnostics (dgn_System d) (Hostname (AESSnapshotURL a)) of
        None \<Rightarrow> (a, None, None)
      | Some agentID \<Rightarrow>
          (let a1 = a\<lparr>ag_agentID := Some agentID\<rparr> in
           case ac_marshal_diagnostics ac d of
             Inl err \<Rightarrow> (a1, None, Some err)
           | Inr raw \<Rightarrow>
               (a1, Some \<lparr>dr_Identity = Some agentID, dr_Message = '''', dr_RawDiagnostics = raw,
                          dr_ContentType = ac_diagnostics_ContentType ac,
                          dr_ApiVersion = ac_diagnostics_ApiVersion ac, dr_SnapshotTs = now\<rparr>, None))))"

definition ReportDiagnostics ::
  "('w, 'd, 'e) AgentCalls \<Rightarrow> int \<Rightarrow> 'w Agent \<Rightarrow> URL \<Rightarrow> 'w \<Rightarrow>
   'w Agent \<times> Diagnostics_report ReportJob option \<times> 'w" where
  "ReportDiagnostics ac now a diagnosticsURL w =
     (case getAmbDiagnosticsInfo ac diagnosticsURL w of ((diagnostics, _), w1) \<Rightarrow>
     (case ProcessDiagnostics ac now a diagnostics of
        (a1, None, _) \<Rightarrow> (a1, None, w1)
      | (a1, Some report, _) \<Rightarrow>
          (a1\<lparr>ag_diagnosticsReportRunning := True\<rparr>,
           Some \<lparr>rj_report = report, rj_delay = MinReportPeriod a1, rj_apikey = AmbassadorAPIKey a1\<rparr>,
           w1)))"

definition diagnostics_job_send ::
  "('w, 'd, 'e) AgentCalls \<Rightarrow> Diagnostics_report ReportJob \<Rightarrow> 'w Agent \<Rightarrow> 'w \<Rightarrow>
   ('w Agent \<times> 'w, 'w Agent \<times> 'w) outcome" where
  "diagnostics_job_send ac job a w =
     (case ag_comm a of
        None \<Rightarrow> Panic (a, w)
      | Some i \<Rightarrow>
          (case comm_StreamDiagnostics (hc_client (ac_handler ac) i) (ac_marshal_diagnostics_report ac)
                  (ag_comms a ! i) (rj_report job) (rj_apikey job) w of
             (c', err, w1) \<Rightarrow> Ret (a\<lparr>ag_comms := (ag_comms a)[i := c']\<rparr>, w1)))"

section \<open>The parts of watch\<close>

text \<open>
  The loop reads variables the report goroutines write (\<open>reportRunning\<close>,
  \<open>diagnosticsReportRunning\<close>) several times; each part below holds one such read.
\<close>

datatype watch_event = Tick | ConfigChanged | EndpointsChanged | DirectiveReady

definition take_directive :: "'w Agent \<Rightarrow> (Directive option \<times> 'w Agent) option" where
  "take_directive a =
     (case ag_newDirective a of
        None \<Rightarrow> None
      | Some i \<Rightarrow>
          (case cc_directives (ag_comms a ! i) of
             [] \<Rightarrow> None
           | d # ds \<Rightarrow>
               Some (d, a\<lparr>ag_comms := (ag_comms a)[i := (ag_comms a ! i)\<lparr>cc_directives := ds\<rparr>]\<rparr>)))"

definition watch_select ::
  "('w, 'd, 'e) AgentCalls \<Rightarrow> watch_event \<Rightarrow> 'w Agent \<Rightarrow> 'w \<Rightarrow> ('w Agent \<times> 'w, 'w Agent \<times> 'w) outcome" where
  "watch_select ac ev a w =
     (case ev of
        Tick \<Rightarrow> Ret (a, w)
      | ConfigChanged \<Rightarrow> Ret (handleAPIKeyConfigChange ac a w)
      | EndpointsChanged \<Rightarrow> handleAmbassadorEndpointChange ac (Hostname (AESSnapshotURL a)) a w
      | DirectiveReady \<Rightarrow>
          (case take_directive a of
             None \<Rightarrow> Ret (a, w)
           | Some (d, a1) \<Rightarrow> HandleDirective (ac_handler ac) (ag_directiveHandler a1) a1 d w))"

text \<open>A directive can only be selected when the channel holds one.\<close>

fun select_ready :: "watch_event \<Rightarrow> 'w Agent \<Rightarrow> bool" where
  "select_ready DirectiveReady a = (take_directive a \<noteq> None)"
| "select_ready ev a = True"

definition fresh_snapshot :: "string \<Rightarrow> Snapshot" where
  "fresh_snapshot clusterId =
     \<lparr>sn_AmbassadorMeta = Some \<lparr>ami_ClusterID = clusterId, ami_Rest = ''''\<rparr>,
      sn_Kubernetes = Some empty_kubernetes, sn_APIDocs = [], sn_Rest = ''''\<rparr>"

definition own_clusterID :: "('w, 'd, 'e) AgentCalls \<Rightarrow> 'w Agent \<Rightarrow> 'w \<Rightarrow> string" where
  "own_clusterID ac a w =
     getClusterID (ac_newSHA1 ac) (ac_namespace_UID ac w) (Env.truncate a) (AgentNamespace a)"

definition get_snapshot ::
  "('w, 'd, 'e) AgentCalls \<Rightarrow> 'w Agent \<Rightarrow> 'w \<Rightarrow> 'w Agent \<times> Snapshot option \<times> 'w" where
  "get_snapshot ac a w =
     (if ag_emissaryPresent a then
        (case getAmbSnapshotInfo ac (AESSnapshotURL a) w of ((snapshot, err), w1) \<Rightarrow> (a, snapshot, w1))
      else
        (let a1 = a\<lparr>ag_clusterId := own_clusterID ac a w\<rparr>
         in (a1, Some (fresh_snapshot (ag_clusterId a1)), w)))"

definition watch_snapshot ::
  "('w, 'd, 'e) AgentCalls \<Rightarrow> int \<Rightarrow> 'w Agent \<Rightarrow> 'w \<Rightarrow>
   ('w Agent \<times> 'w, 'w Agent \<times> Mapping list option \<times> 'w) outcome" where
  "watch_snapshot ac now a w =
     (if \<not> ag_reportingStopped a \<and> \<not> ag_reportRunning a then
        (case get_snapshot ac a w of (a1, snapshot, w1) \<Rightarrow>
           bind_outcome (ProcessSnapshot ac now a1 snapshot w1) (\<lambda>(a2, later, err, w2).
             Ret (a2, later, w2)))
      else Ret (a, None, w))"

text \<open>The flag tells whether the round goes on (or \<open>continue\<close>s with the next event).\<close>

definition watch_comm ::
  "('w, 'd, 'e) AgentCalls \<Rightarrow> 'w Agent \<Rightarrow> 'w \<Rightarrow> bool \<times> 'w Agent \<times> 'w" where
  "watch_comm ac a w =
     (if AmbassadorAPIKey a = '''' then (False, a, w)
      else case ag_comm a of
        Some i \<Rightarrow> (True, a, w)
      | None \<Rightarrow>
          (case NewComm (ac_dial ac) (ConnAddress a) (ag_agentID a) (AmbassadorAPIKey a)
                  (ag_rpcExtraHeaders a) w of
             (Inl err, w1) \<Rightarrow> (False, a, w1)
           | (Inr newComm, w1) \<Rightarrow>
               (let i = length (ag_comms a) in
                (True, a\<lparr>ag_comms := ag_comms a @ [newComm], ag_comm := Some i,
                         ag_newDirective := Some i\<rparr>, w1))))"

definition watch_report :: "'w Agent \<Rightarrow> 'w Agent \<times> Snapshot_report ReportJob option" where
  "watch_report a =
     (case ag_reportToSend a of
        Some report \<Rightarrow>
          if \<not> ag_reportingStopped a \<and> \<not> ag_reportRunning a
          then (case ReportSnapshot a report of (a1, job) \<Rightarrow> (a1, Some job))
          else (a, None)
      | None \<Rightarrow> (a, None))"

definition watch_diagnostics ::
  "('w, 'd, 'e) AgentCalls \<Rightarrow> int \<Rightarrow> 'w Agent \<Rightarrow> 'w \<Rightarrow>
   'w Agent \<times> Diagnostics_report ReportJob option \<times> 'w" where
  "watch_diagnostics ac now a w =
     (if \<not> ag_emissaryPresent a then (a, None, w)
      else if \<not> ag_diagnosticsReportingStopped a \<and> \<not> ag_diagnosticsReportRunning a \<and>
              ag_reportDiagnosticsAllowed a
      then ReportDiagnostics ac now a (AESDiagnosticsURL a) w
      else (a, None, w))"

text \<open>
  One round of the loop that no goroutine interferes with: the agent, the report and
  diagnostics goroutines it started, the mappings a scrape was started for, and the world.
\<close>

record 'w Round =
  rd_agent :: "'w Agent"
  rd_report :: "Snapshot_report ReportJob option"
  rd_diagnostics :: "Diagnostics_report ReportJob option"
  rd_scrape :: "Mapping list option"
  rd_world :: 'w

definition watch_round ::
  "('w, 'd, 'e) AgentCalls \<Rightarrow> watch_event \<Rightarrow> int \<Rightarrow> 'w Agent \<Rightarrow> 'w \<Rightarrow> ('w Agent \<times> 'w, 'w Round) outcome" where
  "watch_round ac ev now a w =
     bind_outcome (watch_select ac ev a w) (\<lambda>(a1, w1).
     bind_outcome (watch_snapshot ac now a1 w1) (\<lambda>(a2, later, w2).
       case watch_comm ac a2 w2 of
         (False, a3, w3) \<Rightarrow>
           Ret \<lparr>rd_agent = a3, rd_report = None, rd_diagnostics = None, rd_scrape = later, rd_world = w3\<rparr>
       | (True, a3, w3) \<Rightarrow>
           (case watch_report a3 of (a4, job) \<Rightarrow>
            (case watch_diagnostics ac now a4 w3 of (a5, djob, w5) \<Rightarrow>
               Ret \<lparr>rd_agent = a5, rd_report = job, rd_diagnostics = djob, rd_scrape = later,
                    rd_world = w5\<rparr>))))"

text \<open>\<open>Watch\<close> up to the loop: the key, the core watchers, the endpoints; the loop's first statement.\<close>

definition Watch_start ::
  "('w, 'd, 'e) AgentCalls \<Rightarrow> wait_event list \<Rightarrow> 'w Agent \<Rightarrow> 'w \<Rightarrow>
   ('w Agent \<times> 'w, ('w Agent \<times> 'w) option) outcome" where
  "Watch_start ac evs a w =
     (case waitForAPIKey ac evs a w of
        None \<Rightarrow> Ret None
      | Some (a1, w1) \<Rightarrow>
          (case ag_coreWatchers a1 of
             None \<Rightarrow> Panic (a1, w1)
           | Some cw \<Rightarrow>
               bind_outcome (handleAmbassadorEndpointChange ac (Hostname (AESSnapshotURL a1)) a1
                   (CoreWatchers_EnsureStarted cw w1))
                 (\<lambda>(a2, w2). Ret (Some (a2\<lparr>ag_apiDocsStore := Some NewAPIDocsStore\<rparr>, w2)))))"

section \<open>What the operations leave alone\<close>

text \<open>
  The variables of the reporting state machine. All operations but the handling of a directive
  and the starts and ends of reports leave them alone, and all keep the connections well formed.
\<close>

definition same_reporting :: "'w Agent \<Rightarrow> 'w Agent \<Rightarrow> bool" where
  "same_reporting a a' \<longleftrightarrow>
     ag_reportingStopped a' = ag_reportingStopped a \<and> ag_reportRunning a' = ag_reportRunning a \<and>
     ag_diagnosticsReportRunning a' = ag_diagnosticsReportRunning a \<and>
     ag_diagnosticsReportingStopped a' = ag_diagnosticsReportingStopped a \<and>
     ag_reportDiagnosticsAllowed a' = ag_reportDiagnosticsAllowed a \<and>
     MinReportPeriod a' = MinReportPeriod a \<and> ag_directiveHandler a' = ag_directiveHandler a"

definition same_comms :: "'w Agent \<Rightarrow> 'w Agent \<Rightarrow> bool" where
  "same_comms a a' \<longleftrightarrow> ag_comm a' = ag_comm a \<and> ag_comms a' = ag_comms a \<and>
     ag_newDirective a' = ag_newDirective a \<and> AmbassadorAPIKey a' = AmbassadorAPIKey a \<and>
     ConnAddress a' = ConnAddress a \<and> ag_rpcExtraHeaders a' = ag_rpcExtraHeaders a"

lemma same_refl [simp]: "same_reporting a a" "same_comms a a"
  by (simp_all add: same_reporting_def same_comms_def)

lemma same_trans:
  "same_reporting a b \<Longrightarrow> same_reporting b c \<Longrightarrow> same_reporting a c"
  "same_comms a b \<Longrightarrow> same_comms b c \<Longrightarrow> same_comms a c"
  by (simp_all add: same_reporting_def same_comms_def)

lemma same_comms_wf: "same_comms a a' \<Longrightarrow> comm_wf a' = comm_wf a"
  by (simp add: same_comms_def comm_wf_def)

text \<open>The key the configuration asks for: the secret's, else the configmap's, else the environment's.\<close>

definition desired_key :: "('w, 'd, 'e) AgentCalls \<Rightarrow> 'w Agent \<Rightarrow> 'w \<Rightarrow> string" where
  "desired_key ac a w =
     (case ac_secret_Get ac (AgentNamespace a) (AgentConfigResourceName a) w of
        ((Some secret, _), _) \<Rightarrow> secret_token secret
      | ((None, _), w1) \<Rightarrow>
          (case ac_cmap_Get ac (AgentNamespace a) (AgentConfigResourceName a) w1 of
             ((Some cm, _), _) \<Rightarrow> cmap_token cm
           | ((None, _), _) \<Rightarrow> ag_ambassadorAPIKeyEnvVarValue a))"

lemma handleAPIKeyConfigChange_agent:
  "fst (handleAPIKeyConfigChange ac a w) = maybeResetComm (desired_key ac a w) a"
  by (simp add: handleAPIKeyConfigChange_def desired_key_def split: prod.split option.split)

lemma maybeResetComm_frame:
  "same_reporting a (maybeResetComm k a)" "AmbassadorAPIKey (maybeResetComm k a) = k"
  by (simp_all add: maybeResetComm_def same_reporting_def frame_simps)

lemma comm_wf_key: "comm_wf (a\<lparr>AmbassadorAPIKey := k\<rparr>) = comm_wf a"
  by (simp add: comm_wf_def)

lemma maybeResetComm_wf: "comm_wf a \<Longrightarrow> comm_wf (maybeResetComm k a)"
  by (simp add: maybeResetComm_def comm_wf_ClearComm comm_wf_key)

lemma handleAmbassadorEndpointChange_frame:
  "handleAmbassadorEndpointChange ac h a w = Ret (a', w') \<Longrightarrow>
   a' = a\<lparr>ag_emissaryPresent := ag_emissaryPresent a'\<rparr>"
  by (auto simp: handleAmbassadorEndpointChange_def Let_def split: prod.splits option.splits)

lemma emissaryPresent_same:
  "a' = a\<lparr>ag_emissaryPresent := e\<rparr> \<Longrightarrow> same_reporting a a' \<and> same_comms a a'"
  by (simp add: same_reporting_def same_comms_def)

lemma load_docs_frame:
  "load_docs ac now a sn w = Ret (a', sn', later, w') \<Longrightarrow> same_reporting a a' \<and> same_comms a a'"
  by (auto simp: load_docs_def bind_outcome_Ret_iff same_reporting_def same_comms_def
      split: option.splits)

lemma finish_snapshot_frame:
  "finish_snapshot ac now i a sn = (a', err) \<Longrightarrow> same_reporting a a' \<and> same_comms a a'"
  by (auto simp: finish_snapshot_def same_reporting_def same_comms_def Let_def
      split: prod.splits option.splits sum.splits)

lemma at_agent_Ret: "at_agent a m = Ret r \<longleftrightarrow> m = Ret r"
  by (cases m) auto

lemma ProcessSnapshot_frame:
  assumes "ProcessSnapshot ac now a snapshot w = Ret (a', later, err, w')"
  shows "same_reporting a a' \<and> same_comms a a'"
proof (cases "\<exists>sn i. snapshot = Some sn \<and>
    GetIdentity (sn_AmbassadorMeta sn) (Hostname (AESSnapshotURL a)) = Some i")
  case False
  with assms have "a' = a" by (auto simp: ProcessSnapshot_def split: option.splits)
  then show ?thesis by simp
next
  case True
  then obtain sn i where sn: "snapshot = Some sn"
    and i: "GetIdentity (sn_AmbassadorMeta sn) (Hostname (AESSnapshotURL a)) = Some i" by blast
  let ?a1 = "a\<lparr>ag_agentID := Some i\<rparr>"
  have a1: "same_reporting a ?a1 \<and> same_comms a ?a1" by (simp add: same_reporting_def same_comms_def)
  let ?m = "if sn_Kubernetes sn = None then Ret (?a1, sn, None, w)
     else bind_outcome (at_agent ?a1 (load_watchers ?a1 sn w)) (\<lambda>(sn1, w1).
       at_agent ?a1 (load_docs ac now ?a1 (load_argo (ac_uid_range ac) ?a1 sn1) w1))"
  have run: "bind_outcome ?m (\<lambda>(a2, sn2, later, w2). case finish_snapshot ac now i a2 sn2 of
      (a3, err) \<Rightarrow> Ret (a3, later, err, w2)) = Ret (a', later, err, w')"
    using assms by (simp only: ProcessSnapshot_def sn i option.case Let_def)
  then obtain t where t: "?m = Ret t" unfolding bind_outcome_Ret_iff by blast
  obtain a2 sn2 l2 w2 where q: "t = (a2, sn2, l2, w2)" by (cases t)
  obtain a3 e3 where f: "finish_snapshot ac now i a2 sn2 = (a3, e3)" by fastforce
  have "a3 = a'" using run f unfolding t q by simp
  then have fin: "finish_snapshot ac now i a2 sn2 = (a', e3)" using f by simp
  note m = t [unfolded q]
  have "same_reporting ?a1 a2 \<and> same_comms ?a1 a2"
    using m by (auto simp: bind_outcome_Ret_iff at_agent_Ret split: if_splits dest: load_docs_frame)
  then show ?thesis using a1 finish_snapshot_frame [OF fin] same_trans by blast
qed

lemma get_snapshot_frame:
  "get_snapshot ac a w = (a', sn, w') \<Longrightarrow> same_reporting a a' \<and> same_comms a a'"
  by (auto simp: get_snapshot_def same_reporting_def same_comms_def Let_def split: if_splits prod.splits)

lemma watch_snapshot_frame:
  assumes "watch_snapshot ac now a w = Ret (a', later, w')"
  shows "same_reporting a a' \<and> same_comms a a'"
proof (cases "\<not> ag_reportingStopped a \<and> \<not> ag_reportRunning a")
  case False
  with assms show ?thesis by (auto simp: watch_snapshot_def)
next
  case True
  obtain a1 sn w1 where g: "get_snapshot ac a w = (a1, sn, w1)" using prod_cases3 by blast
  with assms True obtain err where "ProcessSnapshot ac now a1 sn w1 = Ret (a', later, err, w')"
    by (auto simp: watch_snapshot_def bind_outcome_Ret_iff)
  from ProcessSnapshot_frame [OF this] get_snapshot_frame [OF g] show ?thesis
    using same_trans by blast
qed

lemma watch_comm_frame:
  assumes "watch_comm ac a w = (go, a', w')"
  shows "same_reporting a a' \<and> (comm_wf a \<longrightarrow> comm_wf a') \<and>
    AmbassadorAPIKey a' = AmbassadorAPIKey a \<and> ag_agentID a' = ag_agentID a \<and>
    (go \<longrightarrow> ag_comm a' \<noteq> None \<and> AmbassadorAPIKey a \<noteq> '''')"
proof (cases "AmbassadorAPIKey a = '''' \<or> ag_comm a \<noteq> None")
  case True
  with assms show ?thesis by (auto simp: watch_comm_def split: if_splits)
next
  case False
  then show ?thesis
    using assms
    by (auto simp: watch_comm_def NewComm_def same_reporting_def comm_wf_def Let_def nth_append
        less_Suc_eq split: sum.splits prod.splits option.splits)
qed

lemma take_directive_frame:
  assumes "take_directive a = Some (d, a')"
  shows "same_reporting a a' \<and> (comm_wf a \<longrightarrow> comm_wf a') \<and> ag_comm a' = ag_comm a \<and>
    AmbassadorAPIKey a' = AmbassadorAPIKey a"
  using assms
  by (auto simp: take_directive_def same_reporting_def comm_wf_def nth_list_update
      split: option.splits list.splits)

lemma only_settings_comms: "only_settings a a' \<Longrightarrow> same_comms a a'"
  by (simp add: same_comms_def only_settings_frame)

text \<open>One \<open>select\<close>: the state machine moves only with a directive, and then only as its contract says.\<close>

lemma watch_select_frame:
  assumes "watch_select ac ev a w = Ret (a', w')"
  shows "ag_reportRunning a' = ag_reportRunning a \<and>
    ag_diagnosticsReportRunning a' = ag_diagnosticsReportRunning a \<and>
    ag_diagnosticsReportingStopped a' = ag_diagnosticsReportingStopped a \<and>
    ag_reportDiagnosticsAllowed a' = ag_reportDiagnosticsAllowed a \<and>
    ag_directiveHandler a' = ag_directiveHandler a \<and>
    (ag_reportingStopped a \<longrightarrow> ag_reportingStopped a') \<and>
    (MinReportPeriod a' = MinReportPeriod a \<or>
      sint (dh_DefaultMinReportPeriod (ag_directiveHandler a)) \<le> sint (MinReportPeriod a')) \<and>
    (comm_wf a \<longrightarrow> comm_wf a')"
proof -
  have same: ?thesis if "same_reporting a a'" and "comm_wf a \<longrightarrow> comm_wf a'"
    using that by (simp add: same_reporting_def)
  show ?thesis
  proof (cases ev)
    case Tick
    with assms have "a' = a" by (simp add: watch_select_def)
    then show ?thesis by simp
  next
    case ConfigChanged
    with assms have "a' = maybeResetComm (desired_key ac a w) a"
      using handleAPIKeyConfigChange_agent [of ac a w] by (simp add: watch_select_def)
    then show ?thesis using same maybeResetComm_frame(1) maybeResetComm_wf by blast
  next
    case EndpointsChanged
    with assms have "a' = a\<lparr>ag_emissaryPresent := ag_emissaryPresent a'\<rparr>"
      by (intro handleAmbassadorEndpointChange_frame) (simp add: watch_select_def)
    from emissaryPresent_same [OF this] show ?thesis using same same_comms_wf by blast
  next
    case DirectiveReady
    show ?thesis
    proof (cases "take_directive a")
      case None
      with DirectiveReady assms have "a' = a" by (simp add: watch_select_def)
      then show ?thesis by simp
    next
      case (Some p)
      obtain d a1 where p: "p = (d, a1)" by fastforce
      note t = take_directive_frame [OF Some [unfolded p]]
      from Some p DirectiveReady assms
      have h: "HandleDirective (ac_handler ac) (ag_directiveHandler a1) a1 d w = Ret (a', w')"
        by (simp add: watch_select_def)
      have "comm_wf a' = comm_wf a1"
        by (rule same_comms_wf [OF only_settings_comms [OF basic.frame [OF h]]])
      then show ?thesis
        using t basic.stop [OF h] basic.period [OF h] only_settings_frame [OF basic.frame [OF h]]
        by (auto simp: same_reporting_def)
    qed
  qed
qed

lemma watch_report_cases:
  assumes "watch_report a = (a', job)"
  obtains (none) "a' = a" "job = None"
  | (start) report where "ag_reportToSend a = Some report" "\<not> ag_reportingStopped a"
      "\<not> ag_reportRunning a" "a' = a\<lparr>ag_reportRunning := True, ag_reportToSend := None\<rparr>"
      "job = Some \<lparr>rj_report = report, rj_delay = MinReportPeriod a, rj_apikey = AmbassadorAPIKey a\<rparr>"
proof (cases "ag_reportToSend a")
  case None
  with assms none show thesis by (simp add: watch_report_def)
next
  case (Some report)
  show thesis
  proof (cases "\<not> ag_reportingStopped a \<and> \<not> ag_reportRunning a")
    case True
    with Some assms show thesis
      by (intro start [of report]) (simp_all add: watch_report_def ReportSnapshot_def)
  next
    case False
    with Some assms none show thesis by (simp add: watch_report_def split: if_splits)
  qed
qed

lemma ProcessDiagnostics_frame:
  "ProcessDiagnostics ac now a d = (a', r, err) \<Longrightarrow> same_reporting a a' \<and> same_comms a a'"
  by (auto simp: ProcessDiagnostics_def same_reporting_def same_comms_def Let_def
      split: option.splits sum.splits)

lemma watch_diagnostics_cases:
  assumes "watch_diagnostics ac now a w = (a', job, w')"
  obtains (none) "same_reporting a a'" "same_comms a a'" "job = None"
  | (start) a1 j where "same_reporting a a1" "same_comms a a1" "\<not> ag_diagnosticsReportRunning a"
      "a' = a1\<lparr>ag_diagnosticsReportRunning := True\<rparr>" "job = Some j" "rj_delay j = MinReportPeriod a"
proof (cases "ag_emissaryPresent a \<and> \<not> ag_diagnosticsReportingStopped a \<and>
    \<not> ag_diagnosticsReportRunning a \<and> ag_reportDiagnosticsAllowed a")
  case False
  with assms none show thesis by (auto simp: watch_diagnostics_def split: if_splits)
next
  case True
  obtain d err w1 where g: "getAmbDiagnosticsInfo ac (AESDiagnosticsURL a) w = ((d, err), w1)"
    by (metis prod.collapse)
  obtain a1 r e where pd: "ProcessDiagnostics ac now a d = (a1, r, e)" using prod_cases3 by blast
  note f = ProcessDiagnostics_frame [OF pd]
  show thesis
  proof (cases r)
    case None
    with assms True g pd have "a' = a1" "job = None"
      by (auto simp: watch_diagnostics_def ReportDiagnostics_def)
    with f none show thesis by blast
  next
    case (Some report)
    with assms True g pd have "a' = a1\<lparr>ag_diagnosticsReportRunning := True\<rparr>"
      "job = Some \<lparr>rj_report = report, rj_delay = MinReportPeriod a1, rj_apikey = AmbassadorAPIKey a1\<rparr>"
      by (auto simp: watch_diagnostics_def ReportDiagnostics_def)
    with f True start show thesis by (auto simp: same_reporting_def)
  qed
qed

lemma wake_frame:
  assumes "a' = a\<lparr>ag_comms := (ag_comms a)[i := wake (ag_comms a ! i)]\<rparr>"
  shows "same_reporting a a' \<and> (comm_wf a \<longrightarrow> comm_wf a') \<and> ag_comm a' = ag_comm a \<and>
    AmbassadorAPIKey a' = AmbassadorAPIKey a \<and> length (ag_comms a') = length (ag_comms a)"
  using assms comm_wf_update [of a "wake (ag_comms a ! i)" i]
  by (auto simp: wake_def same_reporting_def)

lemma report_job_send_agent:
  assumes "report_job_send ac job a w = Ret (a', w')"
  shows "\<exists>i. ag_comm a = Some i \<and> a' = a\<lparr>ag_comms := (ag_comms a)[i := wake (ag_comms a ! i)]\<rparr>"
proof -
  from assms obtain i where i: "ag_comm a = Some i"
    by (auto simp: report_job_send_def split: option.splits)
  obtain c err w1 where c: "comm_Report (hc_client (ac_handler ac) i) (ac_marshal_report ac)
      (ag_comms a ! i) (rj_report job) (rj_apikey job) w = (c, err, w1)" using prod_cases3 by blast
  then have "c = wake (ag_comms a ! i)" by (metis report_wakes(1) fst_conv)
  with assms i c show ?thesis by (auto simp: report_job_send_def)
qed

lemma diagnostics_job_send_agent:
  assumes "diagnostics_job_send ac job a w = Ret (a', w')"
  shows "\<exists>i. ag_comm a = Some i \<and> a' = a\<lparr>ag_comms := (ag_comms a)[i := wake (ag_comms a ! i)]\<rparr>"
proof -
  from assms obtain i where i: "ag_comm a = Some i"
    by (auto simp: diagnostics_job_send_def split: option.splits)
  obtain c err w1 where
    c: "comm_StreamDiagnostics (hc_client (ac_handler ac) i) (ac_marshal_diagnostics_report ac)
      (ag_comms a ! i) (rj_report job) (rj_apikey job) w = (c, err, w1)" using prod_cases3 by blast
  then have "c = wake (ag_comms a ! i)" by (metis report_wakes(2) fst_conv)
  with assms i c show ?thesis by (auto simp: diagnostics_job_send_def)
qed

end
