(* ===== verification/Agent_System.thy ===== *)
theory Agent_System
  imports Agent_Ops
begin

text \<open>
  The running agent as a transition system: the loop \<open>watch\<close>, whose parts alternate with the
  goroutines that send reports and diagnostics, sleep and clear the running flags, the
  retrievers of the connections, the scrapes, the Argo watches and the clock. The invariants
  hold in every reachable state, for every behaviour of the cluster, of emissary and of the
  Director.
\<close>

section \<open>States\<close>

text \<open>
  A report goroutine: started (it has not read \<open>a.comm\<close> yet), inside the RPC, or asleep until
  an instant. Time is in nanoseconds.
\<close>

datatype 'r flight = Started "'r ReportJob" | InRpc "'r ReportJob" | Asleep "'r ReportJob" int

fun flight_job :: "'r flight \<Rightarrow> 'r ReportJob" where
  "flight_job (Started j) = j"
| "flight_job (InRpc j) = j"
| "flight_job (Asleep j u) = j"

datatype watch_pc = PSelect | PSnapshot | PComm | PReport | PDiagnostics

record 'w Sys =
  sy_agent :: "'w Agent"
  sy_world :: 'w
  sy_pc :: watch_pc
  sy_now :: int
  sy_reports :: "Snapshot_report flight list"
  sy_diags :: "Diagnostics_report flight list"
  sy_scrapes :: "Mapping list list"
  sy_retrievers :: "retr_pc list"
  sy_sent :: "int list"
  sy_diags_sent :: "int list"
  sy_crashed :: bool

text \<open>
  \<open>sy_sent\<close> and \<open>sy_diags_sent\<close> are history: the instants at which a \<open>Report\<close> and a
  \<open>StreamDiagnostics\<close> RPC began, the latest first.
\<close>

definition boot ::
  "('w, 'd, 'e) AgentCalls \<Rightarrow> wait_event list \<Rightarrow> 'w Agent \<Rightarrow> 'w \<Rightarrow> int \<Rightarrow> 'w Sys option" where
  "boot ac evs a w now =
     (case Watch_start ac evs a w of
        Ret (Some (a1, w1)) \<Rightarrow>
          Some \<lparr>sy_agent = a1, sy_world = w1, sy_pc = PSelect, sy_now = now, sy_reports = [],
                sy_diags = [], sy_scrapes = [], sy_retrievers = [], sy_sent = [],
                sy_diags_sent = [], sy_crashed = False\<rparr>
      | _ \<Rightarrow> None)"

section \<open>Steps\<close>

definition opt_list :: "'a option \<Rightarrow> 'a list" where
  "opt_list x = (case x of None \<Rightarrow> [] | Some y \<Rightarrow> [y])"

definition with_retrievers :: "'w Agent \<Rightarrow> retr_pc list \<Rightarrow> retr_pc list" where
  "with_retrievers a rs = rs @ replicate (length (ag_comms a) - length rs) Opening"

text \<open>The retriever's own events; the others belong to the agent's steps.\<close>

fun own_event :: "retr_event \<Rightarrow> bool" where
  "own_event Wake = False"
| "own_event (Take d) = False"
| "own_event Cancel = False"
| "own_event e = True"

inductive sys_step :: "('w, 'd, 'e) AgentCalls \<Rightarrow> 'w Sys \<Rightarrow> 'w Sys \<Rightarrow> bool" for ac where
  select: "\<not> sy_crashed s \<Longrightarrow> sy_pc s = PSelect \<Longrightarrow> select_ready ev (sy_agent s) \<Longrightarrow>
     watch_select ac ev (sy_agent s) (sy_world s) = Ret (a', w') \<Longrightarrow>
     sys_step ac s (s\<lparr>sy_agent := a', sy_world := w', sy_pc := PSnapshot\<rparr>)"
| select_panic: "\<not> sy_crashed s \<Longrightarrow> sy_pc s = PSelect \<Longrightarrow> select_ready ev (sy_agent s) \<Longrightarrow>
     watch_select ac ev (sy_agent s) (sy_world s) = Panic (a', w') \<Longrightarrow>
     sys_step ac s (s\<lparr>sy_world := w', sy_crashed := True\<rparr>)"
| snapshot: "\<not> sy_crashed s \<Longrightarrow> sy_pc s = PSnapshot \<Longrightarrow>
     watch_snapshot ac (sy_now s) (sy_agent s) (sy_world s) = Ret (a', later, w') \<Longrightarrow>
     sys_step ac s (s\<lparr>sy_agent := a', sy_world := w', sy_pc := PComm,
       sy_scrapes := sy_scrapes s @ opt_list later\<rparr>)"
| snapshot_panic: "\<not> sy_crashed s \<Longrightarrow> sy_pc s = PSnapshot \<Longrightarrow>
     watch_snapshot ac (sy_now s) (sy_agent s) (sy_world s) = Panic (a', w') \<Longrightarrow>
     sys_step ac s (s\<lparr>sy_world := w', sy_crashed := True\<rparr>)"
| comm: "\<not> sy_crashed s \<Longrightarrow> sy_pc s = PComm \<Longrightarrow>
     watch_comm ac (sy_agent s) (sy_world s) = (go, a', w') \<Longrightarrow>
     sys_step ac s (s\<lparr>sy_agent := a', sy_world := w', sy_pc := (if go then PReport else PSelect),
       sy_retrievers := with_retrievers a' (sy_retrievers s)\<rparr>)"
| report: "\<not> sy_crashed s \<Longrightarrow> sy_pc s = PReport \<Longrightarrow> watch_report (sy_agent s) = (a', job) \<Longrightarrow>
     sys_step ac s (s\<lparr>sy_agent := a', sy_pc := PDiagnostics,
       sy_reports := sy_reports s @ map Started (opt_list job)\<rparr>)"
| diagnostics: "\<not> sy_crashed s \<Longrightarrow> sy_pc s = PDiagnostics \<Longrightarrow>
     watch_diagnostics ac (sy_now s) (sy_agent s) (sy_world s) = (a', djob, w') \<Longrightarrow>
     sys_step ac s (s\<lparr>sy_agent := a', sy_world := w', sy_pc := PSelect,
       sy_diags := sy_diags s @ map Started (opt_list djob)\<rparr>)"
| report_begin: "\<not> sy_crashed s \<Longrightarrow> sy_reports s = xs @ Started job # ys \<Longrightarrow>
     report_job_send ac job (sy_agent s) (sy_world s) = Ret (a', w') \<Longrightarrow>
     sys_step ac s (s\<lparr>sy_agent := a', sy_world := w', sy_reports := xs @ InRpc job # ys,
       sy_sent := sy_now s # sy_sent s\<rparr>)"
| report_panic: "\<not> sy_crashed s \<Longrightarrow> sy_reports s = xs @ Started job # ys \<Longrightarrow>
     report_job_send ac job (sy_agent s) (sy_world s) = Panic (a', w') \<Longrightarrow>
     sys_step ac s (s\<lparr>sy_crashed := True\<rparr>)"
| report_end: "\<not> sy_crashed s \<Longrightarrow> sy_reports s = xs @ InRpc job # ys \<Longrightarrow>
     sys_step ac s (s\<lparr>sy_reports := xs @ Asleep job (sy_now s + sint (rj_delay job)) # ys\<rparr>)"
| report_wake: "\<not> sy_crashed s \<Longrightarrow> sy_reports s = xs @ Asleep job u # ys \<Longrightarrow> u \<le> sy_now s \<Longrightarrow>
     sys_step ac s (s\<lparr>sy_agent := (sy_agent s)\<lparr>ag_reportRunning := False\<rparr>, sy_reports := xs @ ys\<rparr>)"
| diags_begin: "\<not> sy_crashed s \<Longrightarrow> sy_diags s = dxs @ Started djob # dys \<Longrightarrow>
     diagnostics_job_send ac djob (sy_agent s) (sy_world s) = Ret (a', w') \<Longrightarrow>
     sys_step ac s (s\<lparr>sy_agent := a', sy_world := w', sy_diags := dxs @ InRpc djob # dys,
       sy_diags_sent := sy_now s # sy_diags_sent s\<rparr>)"
| diags_panic: "\<not> sy_crashed s \<Longrightarrow> sy_diags s = dxs @ Started djob # dys \<Longrightarrow>
     diagnostics_job_send ac djob (sy_agent s) (sy_world s) = Panic (a', w') \<Longrightarrow>
     sys_step ac s (s\<lparr>sy_crashed := True\<rparr>)"
| diags_end: "\<not> sy_crashed s \<Longrightarrow> sy_diags s = dxs @ InRpc djob # dys \<Longrightarrow>
     sys_step ac s (s\<lparr>sy_diags := dxs @ Asleep djob (sy_now s + sint (rj_delay djob)) # dys\<rparr>)"
| diags_wake: "\<not> sy_crashed s \<Longrightarrow> sy_diags s = dxs @ Asleep djob u # dys \<Longrightarrow> u \<le> sy_now s \<Longrightarrow>
     sys_step ac s (s\<lparr>sy_agent := (sy_agent s)\<lparr>ag_diagnosticsReportRunning := False\<rparr>,
       sy_diags := dxs @ dys\<rparr>)"
| clock: "\<not> sy_crashed s \<Longrightarrow> 0 \<le> d \<Longrightarrow> sys_step ac s (s\<lparr>sy_now := sy_now s + d\<rparr>)"
| outside: "\<not> sy_crashed s \<Longrightarrow> sys_step ac s (s\<lparr>sy_world := w'\<rparr>)"
| argo_rollouts: "\<not> sy_crashed s \<Longrightarrow>
     sys_step ac s (s\<lparr>sy_agent := (sy_agent s)\<lparr>ag_rolloutStore := rst\<rparr>\<rparr>)"
| argo_applications: "\<not> sy_crashed s \<Longrightarrow>
     sys_step ac s (s\<lparr>sy_agent := (sy_agent s)\<lparr>ag_applicationStore := ast\<rparr>\<rparr>)"
| scrape: "\<not> sy_crashed s \<Longrightarrow> sy_scrapes s = mxs @ ms # mys \<Longrightarrow>
     ag_apiDocsStore (sy_agent s) = Some ds \<Longrightarrow>
     Api_Docs.scrape (ac_doc_range ac) (ac_header_range ac) (ac_docs_Get ac) (ac_openapi ac) ms ds
       (sy_world s) = Ret (ds', w') \<Longrightarrow>
     sys_step ac s (s\<lparr>sy_agent := (sy_agent s)\<lparr>ag_apiDocsStore := Some ds'\<rparr>, sy_world := w',
       sy_scrapes := mxs @ mys\<rparr>)"
| scrape_panic: "\<not> sy_crashed s \<Longrightarrow> sy_scrapes s = mxs @ ms # mys \<Longrightarrow>
     ag_apiDocsStore (sy_agent s) = Some ds \<Longrightarrow>
     Api_Docs.scrape (ac_doc_range ac) (ac_header_range ac) (ac_docs_Get ac) (ac_openapi ac) ms ds
       (sy_world s) = Panic w' \<Longrightarrow>
     sys_step ac s (s\<lparr>sy_world := w', sy_crashed := True\<rparr>)"
| retriever: "\<not> sy_crashed s \<Longrightarrow> i < length (sy_retrievers s) \<Longrightarrow> i < length (ag_comms (sy_agent s)) \<Longrightarrow>
     own_event e \<Longrightarrow>
     retr_step (sy_retrievers s ! i, ag_comms (sy_agent s) ! i) e (pc', c') \<Longrightarrow>
     sys_step ac s (s\<lparr>sy_agent := (sy_agent s)\<lparr>ag_comms := (ag_comms (sy_agent s))[i := c']\<rparr>,
       sy_retrievers := (sy_retrievers s)[i := pc']\<rparr>)"

inductive_cases sys_stepE: "sys_step ac s s'"

abbreviation reach :: "('w, 'd, 'e) AgentCalls \<Rightarrow> 'w Sys \<Rightarrow> 'w Sys \<Rightarrow> bool" where
  "reach ac \<equiv> rtranclp (sys_step ac)"

lemma reach_invariant:
  assumes "reach ac s t" and "P s" and "\<And>x y. P x \<Longrightarrow> sys_step ac x y \<Longrightarrow> P y"
  shows "P t"
  using assms by (induction rule: rtranclp_induct) auto

lemma step_not_crashed: "sys_step ac s s' \<Longrightarrow> \<not> sy_crashed s"
  by (auto elim: sys_stepE)

section \<open>The cycle of a report\<close>

text \<open>
  Reports and diagnostics go through the same cycle: a flag, the goroutines in flight and the
  instants of the RPCs. A move is one of the five the code makes.
\<close>

type_synonym 'r cycle = "bool \<times> 'r flight list \<times> int list"

inductive flight_move :: "int \<Rightarrow> bool \<Rightarrow> duration \<Rightarrow> 'r cycle \<Rightarrow> 'r cycle \<Rightarrow> bool"
  for now stopped period where
  stay: "flight_move now stopped period x x"
| launch: "\<not> stopped \<Longrightarrow> \<not> running \<Longrightarrow> rj_delay j = period \<Longrightarrow>
     flight_move now stopped period (running, fs, log) (True, fs @ [Started j], log)"
| begin_rpc: "flight_move now stopped period (running, xs @ Started j # ys, log)
     (running, xs @ InRpc j # ys, now # log)"
| end_rpc: "flight_move now stopped period (running, xs @ InRpc j # ys, log)
     (running, xs @ Asleep j (now + sint (rj_delay j)) # ys, log)"
| wake_flight: "u \<le> now \<Longrightarrow> flight_move now stopped period (running, xs @ Asleep j u # ys, log)
     (False, xs @ ys, log)"

inductive_cases flight_moveE: "flight_move now stopped period x y"

fun flight_inv :: "int \<Rightarrow> int \<Rightarrow> 'r cycle \<Rightarrow> bool" where
  "flight_inv least now (running, fs, log) \<longleftrightarrow>
     sorted_wrt (\<lambda>later earlier. earlier + least \<le> later) log \<and> (\<forall>t \<in> set log. t \<le> now) \<and>
     (case fs of
        [] \<Rightarrow> \<not> running \<and> (\<forall>t \<in> set log. t + least \<le> now)
      | [f] \<Rightarrow> running \<and> least \<le> sint (rj_delay (flight_job f)) \<and>
          (case f of
             Started j \<Rightarrow> \<forall>t \<in> set log. t + least \<le> now
           | InRpc j \<Rightarrow> True
           | Asleep j u \<Rightarrow> \<forall>t \<in> set log. t + least \<le> u)
      | _ \<Rightarrow> False)"

lemma flight_inv_later: "flight_inv least now x \<Longrightarrow> now \<le> now' \<Longrightarrow> flight_inv least now' x"
  by (cases x) (force split: list.splits flight.splits)

lemma flight_inv_single:
  assumes "flight_inv least now (running, xs @ f # ys, log)"
  shows "xs = [] \<and> ys = [] \<and> running"
proof -
  from assms have "\<exists>g. xs @ f # ys = [g]" and "running"
    by (auto split: list.splits)
  then show ?thesis by (auto simp: append_eq_Cons_conv)
qed

lemma flight_move_inv:
  assumes "flight_move now stopped period x y" and "flight_inv least now x"
    and "least \<le> sint period"
  shows "flight_inv least now y"
  using assms
proof cases
  case (launch running j fs log)
  then show ?thesis using assms(2,3) by (auto split: list.splits)
next
  case (begin_rpc running xs j ys log)
  then show ?thesis using assms(2) flight_inv_single [of least now running xs "Started j" ys log]
    by auto
next
  case (end_rpc running xs j ys log)
  then show ?thesis using assms(2) flight_inv_single [of least now running xs "InRpc j" ys log]
    by force
next
  case (wake_flight u running xs j ys log)
  then show ?thesis using assms(2) flight_inv_single [of least now running xs "Asleep j u" ys log]
    by force
qed simp_all

text \<open>
  The interface between the transition system and the cycle: a view of the state whose moves
  are moves of the cycle while the state is good.
\<close>

locale report_cycle =
  fixes step :: "'s \<Rightarrow> 's \<Rightarrow> bool" and view :: "'s \<Rightarrow> 'r cycle" and time :: "'s \<Rightarrow> int"
    and stopped :: "'s \<Rightarrow> bool" and period :: "'s \<Rightarrow> duration" and good :: "'s \<Rightarrow> bool"
    and least :: int
  assumes moves: "good s \<Longrightarrow> step s s' \<Longrightarrow>
      flight_move (time s) (stopped s) (period s) (view s) (view s')"
    and time_mono: "step s s' \<Longrightarrow> time s \<le> time s'"
    and good_step: "good s \<Longrightarrow> step s s' \<Longrightarrow> good s'"
    and period_least: "good s \<Longrightarrow> least \<le> sint (period s)"
begin

lemma inv_step:
  assumes "good s" and "flight_inv least (time s) (view s)" and "step s s'"
  shows "good s' \<and> flight_inv least (time s') (view s')"
  using flight_inv_later [OF flight_move_inv [OF moves [OF assms(1,3)] assms(2) period_least [OF assms(1)]]
      time_mono [OF assms(3)]] good_step [OF assms(1,3)] by blast

lemma inv_reach:
  assumes "rtranclp step s s'" and "good s" and "flight_inv least (time s) (view s)"
  shows "good s' \<and> flight_inv least (time s') (view s')"
  using assms by (induction rule: rtranclp_induct) (auto dest: inv_step)

lemma at_most_one:
  assumes "rtranclp step s s'" and "good s" and "flight_inv least (time s) (view s)"
    and "view s' = (running, fs, log)"
  shows "length fs \<le> 1 \<and> (running \<longleftrightarrow> fs \<noteq> [])"
  using inv_reach [OF assms(1-3)] assms(4) by (auto split: list.splits)

lemma spaced:
  assumes "rtranclp step s s'" and "good s" and "flight_inv least (time s) (view s)"
    and "view s' = (running, fs, log)"
  shows "sorted_wrt (\<lambda>later earlier. earlier + least \<le> later) log"
  using inv_reach [OF assms(1-3)] assms(4) by auto

end

section \<open>The steps of the agent move the cycles\<close>

definition reports_of :: "'w Sys \<Rightarrow> Snapshot_report cycle" where
  "reports_of s = (ag_reportRunning (sy_agent s), sy_reports s, sy_sent s)"

definition diags_of :: "'w Sys \<Rightarrow> Diagnostics_report cycle" where
  "diags_of s = (ag_diagnosticsReportRunning (sy_agent s), sy_diags s, sy_diags_sent s)"

definition good_sys :: "'w Sys \<Rightarrow> bool" where
  "good_sys s \<longleftrightarrow> comm_wf (sy_agent s) \<and>
     sint defaultMinReportPeriod \<le> sint (MinReportPeriod (sy_agent s)) \<and>
     dh_DefaultMinReportPeriod (ag_directiveHandler (sy_agent s)) = defaultMinReportPeriod \<and>
     \<not> ag_diagnosticsReportingStopped (sy_agent s)"

lemma retr_step_flags:
  "retr_step (pc, c) e (pc', c') \<Longrightarrow> own_event e \<Longrightarrow>
   cc_retCancelled c' = cc_retCancelled c \<and> cc_connClosed c' = cc_connClosed c"
  by (erule retr_stepE) auto

lemma step_time: "sys_step ac s s' \<Longrightarrow> sy_now s \<le> sy_now s'"
  by (erule sys_stepE) simp_all

lemma step_good:
  assumes "sys_step ac s s'" and "good_sys s"
  shows "good_sys s'"
  using assms
proof cases
  case (select ev a' w')
  then show ?thesis using assms(2) watch_select_frame [OF select(5)]
    by (auto simp: good_sys_def)
next
  case (snapshot a' later w')
  then show ?thesis using assms(2) watch_snapshot_frame [OF snapshot(4)] same_comms_wf
    by (auto simp: good_sys_def same_reporting_def)
next
  case (comm go a' w')
  then show ?thesis using assms(2) watch_comm_frame [OF comm(4)]
    by (auto simp: good_sys_def same_reporting_def)
next
  case (report a' job)
  have "good_sys (s\<lparr>sy_agent := a'\<rparr>)"
    using report(4) by (rule watch_report_cases) (use assms(2) in \<open>auto simp: good_sys_def comm_wf_def\<close>)
  then show ?thesis using report by (simp add: good_sys_def)
next
  case (diagnostics a' djob w')
  have "good_sys (s\<lparr>sy_agent := a'\<rparr>)"
    using diagnostics(4)
  proof (rule watch_diagnostics_cases)
    assume "same_reporting (sy_agent s) a'" "same_comms (sy_agent s) a'"
    then show ?thesis using assms(2) same_comms_wf
      by (auto simp: good_sys_def same_reporting_def)
  next
    fix a1 j
    assume "same_reporting (sy_agent s) a1" "same_comms (sy_agent s) a1"
      and a': "a' = a1\<lparr>ag_diagnosticsReportRunning := True\<rparr>"
    then have "good_sys (s\<lparr>sy_agent := a1\<rparr>)" using assms(2) same_comms_wf
      by (auto simp: good_sys_def same_reporting_def)
    then show ?thesis by (simp add: a' good_sys_def comm_wf_def)
  qed
  then show ?thesis using diagnostics by (simp add: good_sys_def)
next
  case (report_begin xs job ys a' w')
  from report_job_send_agent [OF report_begin(4)] show ?thesis
    using report_begin(1) assms(2) wake_frame by (auto simp: good_sys_def same_reporting_def)
next
  case (diags_begin dxs djob dys a' w')
  from diagnostics_job_send_agent [OF diags_begin(4)] show ?thesis
    using diags_begin(1) assms(2) wake_frame by (auto simp: good_sys_def same_reporting_def)
next
  case (retriever i e pc' c')
  then show ?thesis using assms(2) retr_step_flags [OF retriever(6,5)]
    by (auto simp: good_sys_def intro!: comm_wf_update)
qed (auto simp: good_sys_def comm_wf_def)

lemma step_reports:
  assumes "sys_step ac s s'"
  shows "flight_move (sy_now s) (ag_reportingStopped (sy_agent s)) (MinReportPeriod (sy_agent s))
    (reports_of s) (reports_of s')"
  using assms
proof cases
  case (select ev a' w')
  then show ?thesis using watch_select_frame [OF select(5)] by (simp add: reports_of_def flight_move.stay)
next
  case (snapshot a' later w')
  then show ?thesis using watch_snapshot_frame [OF snapshot(4)]
    by (simp add: reports_of_def same_reporting_def flight_move.stay)
next
  case (comm go a' w')
  then show ?thesis using watch_comm_frame [OF comm(4)]
    by (simp add: reports_of_def same_reporting_def flight_move.stay)
next
  case (report a' job)
  from report(4) show ?thesis
  proof (rule watch_report_cases)
    assume "a' = sy_agent s" "job = None"
    then show ?thesis using report(1) by (simp add: reports_of_def opt_list_def flight_move.stay)
  next
    fix r
    assume stop: "\<not> ag_reportingStopped (sy_agent s)" "\<not> ag_reportRunning (sy_agent s)"
      and a': "a' = (sy_agent s)\<lparr>ag_reportRunning := True, ag_reportToSend := None\<rparr>"
      and job: "job = Some \<lparr>rj_report = r, rj_delay = MinReportPeriod (sy_agent s),
                           rj_apikey = AmbassadorAPIKey (sy_agent s)\<rparr>"
    show ?thesis using report(1) stop
      by (auto simp: reports_of_def opt_list_def a' job intro: flight_move.launch)
  qed
next
  case (diagnostics a' djob w')
  from diagnostics(4) have "ag_reportRunning a' = ag_reportRunning (sy_agent s)"
    by (rule watch_diagnostics_cases) (auto simp: same_reporting_def)
  then show ?thesis using diagnostics(1) by (simp add: reports_of_def flight_move.stay)
next
  case (report_begin xs job ys a' w')
  from report_job_send_agent [OF report_begin(4)] show ?thesis
    using report_begin(1,3) by (auto simp: reports_of_def intro: flight_move.begin_rpc)
next
  case (diags_begin dxs djob dys a' w')
  from diagnostics_job_send_agent [OF diags_begin(4)] show ?thesis
    using diags_begin(1) by (auto simp: reports_of_def intro: flight_move.stay)
qed (auto simp: reports_of_def intro: flight_move.intros)

lemma step_diags:
  assumes "sys_step ac s s'"
  shows "flight_move (sy_now s) (ag_diagnosticsReportingStopped (sy_agent s))
    (MinReportPeriod (sy_agent s)) (diags_of s) (diags_of s')"
  using assms
proof cases
  case (select ev a' w')
  then show ?thesis using watch_select_frame [OF select(5)] by (simp add: diags_of_def flight_move.stay)
next
  case (snapshot a' later w')
  then show ?thesis using watch_snapshot_frame [OF snapshot(4)]
    by (simp add: diags_of_def same_reporting_def flight_move.stay)
next
  case (comm go a' w')
  then show ?thesis using watch_comm_frame [OF comm(4)]
    by (simp add: diags_of_def same_reporting_def flight_move.stay)
next
  case (report a' job)
  from report(4) have "ag_diagnosticsReportRunning a' = ag_diagnosticsReportRunning (sy_agent s)"
    by (rule watch_report_cases) simp_all
  then show ?thesis using report(1) by (simp add: diags_of_def flight_move.stay)
next
  case (diagnostics a' djob w')
  from diagnostics(4) show ?thesis
  proof (rule watch_diagnostics_cases)
    assume "same_reporting (sy_agent s) a'" "djob = None"
    then show ?thesis using diagnostics(1)
      by (simp add: diags_of_def opt_list_def same_reporting_def flight_move.stay)
  next
    fix a1 j
    assume stop: "\<not> ag_diagnosticsReportRunning (sy_agent s)"
      and a': "a' = a1\<lparr>ag_diagnosticsReportRunning := True\<rparr>" "djob = Some j"
      and j: "rj_delay j = MinReportPeriod (sy_agent s)"
    have "\<not> ag_diagnosticsReportingStopped (sy_agent s)"
      using diagnostics(4) stop a' by (auto simp: watch_diagnostics_def split: if_splits)
    then show ?thesis using diagnostics(1) stop j
      by (auto simp: diags_of_def opt_list_def a' intro: flight_move.launch)
  qed
next
  case (report_begin xs job ys a' w')
  from report_job_send_agent [OF report_begin(4)] show ?thesis
    using report_begin(1) by (auto simp: diags_of_def intro: flight_move.stay)
next
  case (diags_begin dxs djob dys a' w')
  from diagnostics_job_send_agent [OF diags_begin(4)] show ?thesis
    using diags_begin(1,3) by (auto simp: diags_of_def intro: flight_move.begin_rpc)
qed (auto simp: diags_of_def intro: flight_move.intros)

lemma good_period: "good_sys s \<Longrightarrow> 30000000000 \<le> sint (MinReportPeriod (sy_agent s))"
  by (simp add: good_sys_def)

interpretation reports: report_cycle "sys_step ac" reports_of sy_now
  "\<lambda>s. ag_reportingStopped (sy_agent s)" "\<lambda>s. MinReportPeriod (sy_agent s)" good_sys 30000000000
  for ac :: "('w, 'd, 'e) AgentCalls"
  by unfold_locales
    (erule step_reports step_time good_period | erule (1) step_good)+

interpretation diags: report_cycle "sys_step ac" diags_of sy_now
  "\<lambda>s. ag_diagnosticsReportingStopped (sy_agent s)" "\<lambda>s. MinReportPeriod (sy_agent s)"
  good_sys 30000000000
  for ac :: "('w, 'd, 'e) AgentCalls"
  by unfold_locales
    (erule step_diags step_time good_period | erule (1) step_good)+

section \<open>Booting\<close>

lemma wait_loop_frame:
  "wait_loop ac evs a w = Some (a', w') \<Longrightarrow> same_reporting a a' \<and> (comm_wf a \<longrightarrow> comm_wf a')"
proof (induction evs arbitrary: a w)
  case Nil
  then show ?case by (subst (asm) wait_loop.simps) (auto split: if_splits)
next
  case (Cons ev evs)
  show ?case
  proof (cases "AmbassadorAPIKey a \<noteq> '''' \<or> ev = WDone")
    case True
    with Cons.prems have "a' = a" by (subst (asm) wait_loop.simps) (auto split: if_splits)
    then show ?thesis by simp
  next
    case False
    obtain a1 w1 where h: "handleAPIKeyConfigChange ac a w = (a1, w1)" by fastforce
    then have "a1 = maybeResetComm (desired_key ac a w) a"
      using handleAPIKeyConfigChange_agent [of ac a w] by simp
    then have f: "same_reporting a a1 \<and> (comm_wf a \<longrightarrow> comm_wf a1)"
      using maybeResetComm_frame(1) maybeResetComm_wf by blast
    show ?thesis
    proof (cases ev)
      case WConfig
      with Cons.prems False h have "wait_loop ac evs a1 w1 = Some (a', w')"
        by (subst (asm) wait_loop.simps) simp
      from Cons.IH [OF this] f show ?thesis using same_trans by blast
    next
      case WMinute
      with Cons.prems False have "wait_loop ac evs a w = Some (a', w')"
        by (subst (asm) wait_loop.simps) simp
      from Cons.IH [OF this] show ?thesis .
    qed (use False in simp)
  qed
qed

lemma Watch_start_frame:
  assumes "Watch_start ac evs a w = Ret (Some (a', w'))"
  shows "same_reporting a a' \<and> (comm_wf a \<longrightarrow> comm_wf a') \<and> ag_apiDocsStore a' = Some NewAPIDocsStore"
proof -
  obtain b u where h: "handleAPIKeyConfigChange ac a w = (b, u)" by fastforce
  then have "b = maybeResetComm (desired_key ac a w) a"
    using handleAPIKeyConfigChange_agent [of ac a w] by simp
  then have b: "same_reporting a b \<and> (comm_wf a \<longrightarrow> comm_wf b)"
    using maybeResetComm_frame(1) maybeResetComm_wf by blast
  from assms obtain a1 w1 where "waitForAPIKey ac evs a w = Some (a1, w1)"
    by (auto simp: Watch_start_def split: option.splits)
  with assms obtain a2 w2 w3 where wl: "wait_loop ac evs b u = Some (a1, w1)"
    and e: "handleAmbassadorEndpointChange ac (Hostname (AESSnapshotURL a1)) a1 w2 = Ret (a2, w3)"
    and a': "a' = a2\<lparr>ag_apiDocsStore := Some NewAPIDocsStore\<rparr>"
    by (auto simp: Watch_start_def waitForAPIKey_def h bind_outcome_Ret_iff split: option.splits)
  note wf = wait_loop_frame [OF wl]
  note ef = emissaryPresent_same [OF handleAmbassadorEndpointChange_frame [OF e]]
  have "same_reporting a a2 \<and> (comm_wf a \<longrightarrow> comm_wf a2)"
    using b wf ef same_trans same_comms_wf by blast
  then show ?thesis by (simp add: a' same_reporting_def comm_wf_def)
qed

lemma boot_good:
  assumes "boot ac evs (main_agent rf sf cw fw domain env) w now = Some s"
    and "sint defaultMinReportPeriod \<le> sint (MinReportPeriod env)"
  shows "good_sys s \<and> flight_inv least (sy_now s) (reports_of s) \<and> flight_inv least (sy_now s) (diags_of s) \<and>
    \<not> sy_crashed s"
proof -
  let ?a = "main_agent rf sf cw fw domain env"
  from assms(1) obtain a' w' where st: "Watch_start ac evs ?a w = Ret (Some (a', w'))"
    and s: "sy_agent s = a'" "sy_reports s = []" "sy_diags s = []" "sy_sent s = []"
      "sy_diags_sent s = []" "\<not> sy_crashed s"
    by (auto simp: boot_def split: outcome.splits option.splits)
  have new: "\<not> ag_reportRunning ?a" "\<not> ag_diagnosticsReportRunning ?a"
    "\<not> ag_diagnosticsReportingStopped ?a" "MinReportPeriod ?a = MinReportPeriod env"
    "dh_DefaultMinReportPeriod (ag_directiveHandler ?a) = defaultMinReportPeriod"
    by (simp_all add: main_agent_def SetReportDiagnosticsAllowed_def NewAgent_def Env.defs)
  show ?thesis
    using Watch_start_frame [OF st] new s assms(2) comm_wf_main_agent [of rf sf cw fw domain env]
    by (simp add: good_sys_def reports_of_def diags_of_def same_reporting_def)
qed

section \<open>A stopped agent\<close>

definition quiet :: "'w Sys \<Rightarrow> bool" where
  "quiet s \<longleftrightarrow> ag_reportingStopped (sy_agent s) \<and> (\<forall>j. Started j \<notin> set (sy_reports s))"

lemma step_stopped:
  assumes "sys_step ac s s'" and "ag_reportingStopped (sy_agent s)"
  shows "ag_reportingStopped (sy_agent s')"
  using assms
proof cases
  case (select ev a' w')
  then show ?thesis using assms(2) watch_select_frame [OF select(5)] by simp
next
  case (snapshot a' later w')
  then show ?thesis using assms(2) watch_snapshot_frame [OF snapshot(4)]
    by (simp add: same_reporting_def)
next
  case (comm go a' w')
  then show ?thesis using assms(2) watch_comm_frame [OF comm(4)] by (simp add: same_reporting_def)
next
  case (report a' job)
  from report(4) have "ag_reportingStopped a'" by (rule watch_report_cases) (use assms(2) in simp_all)
  then show ?thesis using report(1) by simp
next
  case (diagnostics a' djob w')
  from diagnostics(4) have "ag_reportingStopped a'"
    by (rule watch_diagnostics_cases) (use assms(2) in \<open>auto simp: same_reporting_def\<close>)
  then show ?thesis using diagnostics(1) by simp
next
  case (report_begin xs job ys a' w')
  from report_job_send_agent [OF report_begin(4)] show ?thesis using report_begin(1) assms(2) by auto
next
  case (diags_begin dxs djob dys a' w')
  from diagnostics_job_send_agent [OF diags_begin(4)] show ?thesis
    using diags_begin(1) assms(2) by auto
qed simp_all

lemma quiet_step:
  assumes "sys_step ac s s'" and "quiet s"
  shows "quiet s' \<and> sy_sent s' = sy_sent s"
proof -
  from step_reports [OF assms(1)] assms(2)
  have "(\<forall>j. Started j \<notin> set (sy_reports s')) \<and> sy_sent s' = sy_sent s"
    unfolding quiet_def reports_of_def by (elim conjE flight_moveE) auto
  then show ?thesis using step_stopped [OF assms(1)] assms(2) by (simp add: quiet_def)
qed

lemma quiet_reach:
  "reach ac s t \<Longrightarrow> quiet s \<Longrightarrow> quiet t \<and> sy_sent t = sy_sent s"
  by (induction rule: rtranclp_induct) (auto dest: quiet_step)

end
