(* ===== verification/Agent_Correct.thy ===== *)
theory Agent_Correct
  imports Agent_System Sample_Agent
begin

text \<open>
  What the operations of the agent (\<open>pkg/agent/agent.go\<close>) achieve: the cluster domain, following
  and waiting for the API key, what a processed snapshot leaves to be reported, and a round of
  the loop without emissary. \<open>sample_calls\<close> is a cluster on which the properties are witnessed.
\<close>

section \<open>The cluster domain\<close>

lemma domain_from_names_cases:
  "(\<exists>d. domain_from_names m names = Ret (Some d) \<and> (\<exists>c. m @ d @ [c] \<in> set names)) \<or>
   (domain_from_names m names = Ret None \<and> (\<forall>n \<in> set names. \<not> HasPrefix n m)) \<or>
   (domain_from_names m names = Panic () \<and> m \<in> set names)" if "m \<noteq> ''''"
  using that
proof (induction names)
  case Nil
  then show ?case by simp
next
  case (Cons n names)
  show ?case
  proof (cases "HasPrefix n m")
    case False
    with Cons.IH [OF Cons.prems] show ?thesis by auto
  next
    case True
    then obtain t where n: "n = m @ t" by (auto simp: HasPrefix_iff)
    show ?thesis
    proof (cases t rule: rev_cases)
      case Nil
      with n True Cons.prems show ?thesis by simp
    next
      case (snoc d c)
      with n True have "domain_from_names m (n # names) = Ret (Some d)" by (simp add: slice_def)
      with n snoc show ?thesis by auto
    qed
  qed
qed

text \<open>A name of the reverse lookups, as far as the code reads them.\<close>

definition looked_up :: "(go_error + string list) list \<Rightarrow> string \<Rightarrow> bool" where
  "looked_up answers name \<longleftrightarrow> (\<exists>names. Inr names \<in> set answers \<and> name \<in> set names)"

lemma domain_from_lookups_cases:
  assumes "m \<noteq> ''''"
  shows "(case domain_from_lookups m answers of
     Ret d \<Rightarrow> (d = defaultDomain \<and> (\<forall>n. looked_up answers n \<longrightarrow> \<not> HasPrefix n m)) \<or>
              (\<exists>c. looked_up answers (m @ d @ [c]))
   | Panic u \<Rightarrow> looked_up answers m)"
  using assms
proof (induction m answers rule: domain_from_lookups.induct)
  case (1 m)
  then show ?case by (simp add: looked_up_def)
next
  case (2 m err rest)
  then show ?case by (auto simp: looked_up_def split: outcome.splits)
next
  case (3 m names rest)
  have step: "looked_up (Inr names # rest) n \<longleftrightarrow> n \<in> set names \<or> looked_up rest n" for n
    by (auto simp: looked_up_def)
  consider (found) d c where "domain_from_names m names = Ret (Some d)" "m @ d @ [c] \<in> set names"
    | (none) "domain_from_names m names = Ret None" "\<forall>n \<in> set names. \<not> HasPrefix n m"
    | (bad) "domain_from_names m names = Panic ()" "m \<in> set names"
    using domain_from_names_cases [OF 3(2), of names] by blast
  then show ?case
  proof cases
    case found
    then show ?thesis by (auto simp: step)
  next
    case none
    with 3(1) [OF none(1) refl 3(2)] show ?thesis by (auto simp: step split: outcome.splits)
  next
    case bad
    then show ?thesis by (simp add: step)
  qed
qed


text \<open>
  The cluster domain is \<open>cluster.local\<close> unless the service of the agent has an address and a
  reverse lookup of it names the service in some domain: then it is that domain without its last
  character (the final dot of a fully qualified name). The function panics only when a lookup
  answers with the bare prefix.
\<close>

theorem cluster_domain:
  "(case getClusterDomain get_ip is_ip LookupAddr env of
     Ret d \<Rightarrow> d = ''cluster.local'' \<or>
       (\<exists>addr c. get_ip (AgentNamespace env) (AgentServiceName env) = Inr addr \<and> is_ip addr \<and>
          looked_up (map (LookupAddr addr) [0, 1, 2])
            (AgentServiceName env @ ''.'' @ AgentNamespace env @ ''.svc.'' @ d @ [c]))
   | Panic u \<Rightarrow>
       (\<exists>addr. get_ip (AgentNamespace env) (AgentServiceName env) = Inr addr \<and>
          looked_up (map (LookupAddr addr) [0, 1, 2])
            (AgentServiceName env @ ''.'' @ AgentNamespace env @ ''.svc.'')))"
proof (cases "get_ip (AgentNamespace env) (AgentServiceName env)")
  case (Inl err)
  then show ?thesis by (simp add: getClusterDomain_def defaultDomain_def)
next
  case (Inr addr)
  let ?m = "AgentServiceName env @ ''.'' @ AgentNamespace env @ ''.svc.''"
  show ?thesis
  proof (cases "is_ip addr")
    case False
    then show ?thesis using Inr by (simp add: getClusterDomain_def defaultDomain_def Let_def)
  next
    case True
    then have eq: "getClusterDomain get_ip is_ip LookupAddr env =
        domain_from_lookups ?m (map (LookupAddr addr) [0, 1, 2])"
      using Inr by (simp add: getClusterDomain_def Let_def)
    have "?m \<noteq> ''''" by simp
    note c = domain_from_lookups_cases [OF this, of "map (LookupAddr addr) [0, 1, 2]"]
    show ?thesis
    proof (cases "domain_from_lookups ?m (map (LookupAddr addr) [0, 1, 2])")
      case (Ret d)
      then show ?thesis using c True Inr unfolding eq by (auto simp: defaultDomain_def)
    next
      case (Panic u)
      then show ?thesis using c Inr unfolding eq by simp
    qed
  qed
qed

section \<open>The API key\<close>

text \<open>
  C28: After a change of the configuration the agent uses the key the configuration asks for:
  the one of the secret, else of the config map, else of the environment. A new key ends the
  connection made with the old one, which is closed, and nothing else changes; the same key
  changes nothing at all.
\<close>

theorem api_key_change:
  assumes "handleAPIKeyConfigChange ac a w = (a', w')" and "comm_wf a"
  shows "AmbassadorAPIKey a' = desired_key ac a w \<and> comm_wf a' \<and>
    (desired_key ac a w = AmbassadorAPIKey a \<longrightarrow> a' = a) \<and>
    (desired_key ac a w \<noteq> AmbassadorAPIKey a \<longrightarrow> ag_comm a' = None \<and>
       (\<forall>i < length (ag_comms a'). cc_connClosed (ag_comms a' ! i)) \<and>
       a' = a\<lparr>AmbassadorAPIKey := desired_key ac a w, ag_comm := None, ag_comms := ag_comms a'\<rparr>)"
proof -
  have a': "a' = maybeResetComm (desired_key ac a w) a"
    using handleAPIKeyConfigChange_agent [of ac a w] assms(1) by simp
  have wf: "comm_wf a'" unfolding a' by (rule maybeResetComm_wf [OF assms(2)])
  moreover have "ag_comm a' = None" if "desired_key ac a w \<noteq> AmbassadorAPIKey a"
    using that by (simp add: a' maybeResetComm_def frame_simps)
  moreover have "a' = a\<lparr>AmbassadorAPIKey := desired_key ac a w, ag_comm := None, ag_comms := ag_comms a'\<rparr>"
    if "desired_key ac a w \<noteq> AmbassadorAPIKey a"
    using that by (simp add: a' maybeResetComm_def ClearComm_def split: option.splits)
  moreover have "\<forall>i < length (ag_comms a'). cc_connClosed (ag_comms a' ! i)" if "ag_comm a' = None"
    using that wf by (simp add: comm_wf_def)
  ultimately show ?thesis
    by (auto simp: a' maybeResetComm_frame) (simp add: maybeResetComm_def)
qed


text \<open>A cluster in which everything works; the world is the key of the secret.\<close>

definition sample_openapi :: "(unit, unit) OpenAPI" where
  "sample_openapi = \<lparr>oa_load = (\<lambda>b. Inr ()), oa_validate = (\<lambda>d. None), oa_unmarshal2 = (\<lambda>b. Inr ()),
     oa_toV3 = Inr, oa_servers = (\<lambda>d. None), oa_set_server = (\<lambda>u d. d), oa_marshal = (\<lambda>d. Inr [])\<rparr>"

definition sample_calls :: "(byte list, unit, unit) AgentCalls" where
  "sample_calls =
     \<lparr>ac_handler = \<lparr>hc_client = (\<lambda>i. sample_client (\<lambda>r w. w)), hc_marshal = (\<lambda>ops. Inr []), hc_ord = (\<lambda>xs. xs)\<rparr>,
      ac_http_Get = (\<lambda>u w. (Inr \<lparr>hr_StatusCode = 200, hr_Body = Inr []\<rparr>, w)),
      ac_unmarshal_snapshot = (\<lambda>b. (fresh_snapshot ''c'', None)),
      ac_unmarshal_diagnostics = (\<lambda>b. (\<lparr>dgn_System = Some \<lparr>dsy_ClusterID = ''c'', dsy_Rest = ''''\<rparr>, dgn_Rest = ''''\<rparr>, None)),
      ac_secret_Get = (\<lambda>ns n w. ((Some \<lparr>so_Name = n, so_Namespace = ns,
         so_Data = [(cloudConnectTokenKey, w)], so_Type = ''Opaque''\<rparr>, None), w)),
      ac_cmap_Get = (\<lambda>ns n w. ((None, None), w)), ac_endpoints_List = (\<lambda>w. (Inr [], w)),
      ac_namespace_UID = (\<lambda>w ns. Inr ''uid''), ac_newSHA1 = (\<lambda>s. s), ac_dial = (\<lambda>a c w. (None, w)),
      ac_sanitize = (\<lambda>sn. (None, sn)), ac_marshal_snapshot = (\<lambda>sn. Inr [1, 2, 3]),
      ac_marshal_diagnostics = (\<lambda>d. Inr []), ac_marshal_report = (\<lambda>r. Inr []),
      ac_marshal_diagnostics_report = (\<lambda>r. Inr []),
      ac_docs_Get = (\<lambda>u h hs w. (Inr None, w)), ac_openapi = sample_openapi,
      ac_doc_range = (\<lambda>xs. xs), ac_header_range = (\<lambda>xs. xs), ac_store_range = (\<lambda>xs. xs), ac_uid_range = (\<lambda>xs. xs),
      ac_snapshot_ContentType = ''application/json'', ac_snapshot_ApiVersion = ''v1'',
      ac_diagnostics_ContentType = ''application/json'', ac_diagnostics_ApiVersion = ''v1''\<rparr>"

lemma sample_calls_key: "desired_key sample_calls a w = string_of_bytes w"
  by (simp add: desired_key_def sample_calls_def secret_token_def)

lemma comm_wf_connected: "comm_wf connected_agent"
  by (simp add: comm_wf_def connected_agent_def sample_conn_def)

lemma api_key_change_witness:
  "\<exists>a' w'. handleAPIKeyConfigChange sample_calls connected_agent [110, 101, 119] = (a', w') \<and>
     AmbassadorAPIKey a' = ''new'' \<and> ag_comm a' = None"
proof -
  obtain a' w' where h: "handleAPIKeyConfigChange sample_calls connected_agent [110, 101, 119] = (a', w')"
    by fastforce
  have key: "desired_key sample_calls connected_agent [110, 101, 119] = ''new''"
    unfolding sample_calls_key by code_simp
  from api_key_change [OF h comm_wf_connected] key h show ?thesis by auto
qed

text \<open>The keys the configuration asked for, each time it was read while waiting.\<close>

fun loop_reads :: "('w, 'd, 'e) AgentCalls \<Rightarrow> wait_event list \<Rightarrow> 'w Agent \<Rightarrow> 'w \<Rightarrow> string list" where
  "loop_reads ac [] a w = []"
| "loop_reads ac (WDone # evs) a w = []"
| "loop_reads ac (WMinute # evs) a w = loop_reads ac evs a w"
| "loop_reads ac (WConfig # evs) a w =
     (case handleAPIKeyConfigChange ac a w of (a1, w1) \<Rightarrow>
        desired_key ac a w # (if AmbassadorAPIKey a1 \<noteq> '''' then [] else loop_reads ac evs a1 w1))"

definition key_reads :: "('w, 'd, 'e) AgentCalls \<Rightarrow> wait_event list \<Rightarrow> 'w Agent \<Rightarrow> 'w \<Rightarrow> string list" where
  "key_reads ac evs a w =
     (case handleAPIKeyConfigChange ac a w of (a1, w1) \<Rightarrow>
        desired_key ac a w # (if AmbassadorAPIKey a1 \<noteq> '''' then [] else loop_reads ac evs a1 w1))"

lemma handleAPIKey_key:
  "handleAPIKeyConfigChange ac a w = (a1, w1) \<Longrightarrow> AmbassadorAPIKey a1 = desired_key ac a w"
  using handleAPIKeyConfigChange_agent [of ac a w] maybeResetComm_frame(2) by simp

lemma wait_loop_reads:
  assumes "AmbassadorAPIKey a = ''''"
  shows "(case wait_loop ac evs a w of
      None \<Rightarrow> \<forall>k \<in> set (loop_reads ac evs a w). k = ''''
    | Some (a', w') \<Rightarrow> WDone \<in> set evs \<or> (loop_reads ac evs a w \<noteq> [] \<and>
        AmbassadorAPIKey a' = last (loop_reads ac evs a w) \<and> AmbassadorAPIKey a' \<noteq> ''''))"
  using assms
proof (induction evs arbitrary: a w)
  case Nil
  then show ?case by (subst wait_loop.simps) simp
next
  case (Cons ev evs)
  show ?case
  proof (cases ev)
    case WDone
    then show ?thesis using Cons.prems by (subst wait_loop.simps) simp
  next
    case WMinute
    then show ?thesis using Cons.IH [OF Cons.prems, of w] Cons.prems
      by (subst wait_loop.simps) (auto split: option.splits)
  next
    case WConfig
    obtain a1 w1 where h: "handleAPIKeyConfigChange ac a w = (a1, w1)" by fastforce
    have loop: "wait_loop ac (ev # evs) a w = wait_loop ac evs a1 w1"
      using WConfig Cons.prems h by (subst wait_loop.simps) simp
    show ?thesis
    proof (cases "AmbassadorAPIKey a1 = ''''")
      case True
      then show ?thesis using Cons.IH [OF True, of w1] WConfig h handleAPIKey_key [OF h] unfolding loop
        by (auto split: option.splits)
    next
      case False
      then have "wait_loop ac evs a1 w1 = Some (a1, w1)" by (subst wait_loop.simps) simp
      then show ?thesis using False WConfig h handleAPIKey_key [OF h] unfolding loop by simp
    qed
  qed
qed

text \<open>
  Once \<open>waitForAPIKey\<close> has returned without being cancelled the agent has a key, the one the
  configuration asked for when it was last read; and it is still waiting only if every
  configuration read so far asked for the empty key.
\<close>

theorem waits_for_key:
  assumes "WDone \<notin> set evs"
  shows "(case waitForAPIKey ac evs a w of
      None \<Rightarrow> set (key_reads ac evs a w) = {''''}
    | Some (a', w') \<Rightarrow> AmbassadorAPIKey a' = last (key_reads ac evs a w) \<and> AmbassadorAPIKey a' \<noteq> '''')"
proof -
  obtain a1 w1 where h: "handleAPIKeyConfigChange ac a w = (a1, w1)" by fastforce
  show ?thesis
  proof (cases "AmbassadorAPIKey a1 = ''''")
    case True
    then show ?thesis using wait_loop_reads [OF True, of ac evs w1] assms handleAPIKey_key [OF h] h
      by (auto simp: waitForAPIKey_def key_reads_def split: option.splits)
  next
    case False
    then have "wait_loop ac evs a1 w1 = Some (a1, w1)" by (subst wait_loop.simps) simp
    then show ?thesis using False handleAPIKey_key [OF h] h by (simp add: waitForAPIKey_def key_reads_def)
  qed
qed

lemma waits_for_key_witness:
  "\<exists>a' w'. waitForAPIKey sample_calls [WMinute] sample_agent [107] = Some (a', w') \<and> AmbassadorAPIKey a' = ''k''"
proof -
  have k: "desired_key sample_calls sample_agent [107] = ''k''" unfolding sample_calls_key by code_simp
  obtain a1 w1 where h: "handleAPIKeyConfigChange sample_calls sample_agent [107] = (a1, w1)" by fastforce
  then have "key_reads sample_calls [WMinute] sample_agent [107] = [''k'']"
    using handleAPIKey_key [OF h] k by (simp add: key_reads_def)
  moreover have "WDone \<notin> set [WMinute]" by simp
  ultimately show ?thesis
    using waits_for_key [of "[WMinute]" sample_calls sample_agent "[107]"] by (auto split: option.splits)
qed

section \<open>What is reported\<close>

lemma load_watchers_meta:
  assumes "load_watchers a sn w = Ret (sn', w')"
  shows "sn_AmbassadorMeta sn' = sn_AmbassadorMeta sn"
proof -
  from assms obtain sn1 w1 where
    f: "(case ag_fallbackWatcher a of
          Some fw \<Rightarrow> if \<not> ag_emissaryPresent a then FallbackWatchers_LoadSnapshot fw sn w else Ret (sn, w)
        | None \<Rightarrow> Ret (sn, w)) = Ret (sn1, w1)"
    and c: "(case ag_coreWatchers a of
          Some cw \<Rightarrow> CoreWatchers_LoadSnapshot cw sn1 w1 | None \<Rightarrow> Ret (sn1, w1)) = Ret (sn', w')"
    unfolding load_watchers_def bind_outcome_Ret_iff by auto
  from f have "sn_AmbassadorMeta sn1 = sn_AmbassadorMeta sn"
    by (auto split: option.splits if_splits dest: fallback.load_meta)
  moreover from c have "sn_AmbassadorMeta sn' = sn_AmbassadorMeta sn1"
    by (auto split: option.splits dest: core.load_meta)
  ultimately show ?thesis by simp
qed

lemma load_docs_rest:
  "load_docs ac now a sn w = Ret (a', sn', later, w') \<Longrightarrow>
   ag_reportToSend a' = ag_reportToSend a \<and> ag_agentID a' = ag_agentID a \<and>
   sn_AmbassadorMeta sn' = sn_AmbassadorMeta sn"
  by (auto simp: load_docs_def bind_outcome_Ret_iff split: option.splits)

lemma load_argo_meta: "sn_AmbassadorMeta (load_argo ord a sn) = sn_AmbassadorMeta sn"
  by (simp add: load_argo_def Let_def split: option.split)

text \<open>The loading part of \<open>ProcessSnapshot\<close>, and its end.\<close>

lemma ProcessSnapshot_parts:
  assumes "ProcessSnapshot ac now a (Some sn) w = Ret (a', later, err, w')"
    and "GetIdentity (sn_AmbassadorMeta sn) (Hostname (AESSnapshotURL a)) = Some agentID"
  obtains a2 sn2 where "ag_reportToSend a2 = ag_reportToSend a" "ag_agentID a2 = Some agentID"
    "sn_AmbassadorMeta sn2 = sn_AmbassadorMeta sn" "finish_snapshot ac now agentID a2 sn2 = (a', err)"
proof -
  let ?a1 = "a\<lparr>ag_agentID := Some agentID\<rparr>"
  let ?m = "if sn_Kubernetes sn = None then Ret (?a1, sn, None, w)
     else bind_outcome (at_agent ?a1 (load_watchers ?a1 sn w)) (\<lambda>(sn1, w1).
       at_agent ?a1 (load_docs ac now ?a1 (load_argo (ac_uid_range ac) ?a1 sn1) w1))"
  have run: "bind_outcome ?m (\<lambda>(a2, sn2, later, w2). case finish_snapshot ac now agentID a2 sn2 of
      (a3, err) \<Rightarrow> Ret (a3, later, err, w2)) = Ret (a', later, err, w')"
    using assms by (simp only: ProcessSnapshot_def option.case Let_def)
  then obtain t where t: "?m = Ret t" unfolding bind_outcome_Ret_iff by blast
  obtain a2 sn2 l2 w2 where q: "t = (a2, sn2, l2, w2)" by (cases t)
  obtain a3 e3 where f: "finish_snapshot ac now agentID a2 sn2 = (a3, e3)" by fastforce
  from run t q f have fin: "finish_snapshot ac now agentID a2 sn2 = (a', err)" by simp
  have "ag_reportToSend a2 = ag_reportToSend a \<and> ag_agentID a2 = Some agentID \<and>
      sn_AmbassadorMeta sn2 = sn_AmbassadorMeta sn"
  proof (cases "sn_Kubernetes sn = None")
    case True
    then show ?thesis using t q by auto
  next
    case False
    with t q obtain sn1 w1 where l: "load_watchers ?a1 sn w = Ret (sn1, w1)"
      and d: "load_docs ac now ?a1 (load_argo (ac_uid_range ac) ?a1 sn1) w1 = Ret (a2, sn2, l2, w2)"
      by (auto simp: bind_outcome_Ret_iff at_agent_Ret)
    from load_docs_rest [OF d] load_watchers_meta [OF l] show ?thesis by (simp add: load_argo_meta)
  qed
  with fin show thesis using that by blast
qed

text \<open>
  C12: When a snapshot with an identity is processed without error, the report to send is the
  sanitized snapshot, marshalled: the same one the agent keeps as its current snapshot and
  answers \<open>ResolveIngress\<close> from, under the identity of that snapshot and with the time of now.
  When the processing fails the report that was waiting is untouched, and a snapshot without
  identity changes nothing.
\<close>

theorem snapshot_to_report:
  assumes "ProcessSnapshot ac now a snapshot w = Ret (a', later, err, w')"
  shows "(case snapshot of
      None \<Rightarrow> a' = a \<and> err = None
    | Some sn \<Rightarrow> (case GetIdentity (sn_AmbassadorMeta sn) (Hostname (AESSnapshotURL a)) of
        None \<Rightarrow> a' = a \<and> err = None
      | Some agentID \<Rightarrow> ag_agentID a' = Some agentID \<and>
          (if err = None
           then \<exists>loaded clean raw. ac_sanitize ac loaded = (None, clean) \<and>
                  sn_AmbassadorMeta loaded = sn_AmbassadorMeta sn \<and>
                  ac_marshal_snapshot ac clean = Inr raw \<and> ag_currentSnapshot a' = Some clean \<and>
                  ag_reportToSend a' = Some (new_report ac agentID raw now)
           else ag_reportToSend a' = ag_reportToSend a)))"
proof (cases "\<exists>sn i. snapshot = Some sn \<and>
    GetIdentity (sn_AmbassadorMeta sn) (Hostname (AESSnapshotURL a)) = Some i")
  case False
  then show ?thesis using assms by (auto simp: ProcessSnapshot_def split: option.splits)
next
  case True
  then obtain sn i where sn: "snapshot = Some sn"
    and i: "GetIdentity (sn_AmbassadorMeta sn) (Hostname (AESSnapshotURL a)) = Some i" by blast
  obtain a2 sn2 where p: "ag_reportToSend a2 = ag_reportToSend a" "ag_agentID a2 = Some i"
    "sn_AmbassadorMeta sn2 = sn_AmbassadorMeta sn" "finish_snapshot ac now i a2 sn2 = (a', err)"
    by (rule ProcessSnapshot_parts [OF assms [unfolded sn] i])
  obtain e clean where s: "ac_sanitize ac sn2 = (e, clean)" by fastforce
  show ?thesis
  proof (cases "e = None \<and> (\<exists>raw. ac_marshal_snapshot ac clean = Inr raw)")
    case True
    then obtain raw where raw: "ac_marshal_snapshot ac clean = Inr raw" "e = None" by blast
    have "err = None" "ag_currentSnapshot a' = Some clean" "ag_agentID a' = Some i"
      "ag_reportToSend a' = Some (new_report ac i raw now)"
      using p s raw by (auto simp: finish_snapshot_def Let_def)
    moreover have "\<exists>loaded clean' raw'. ac_sanitize ac loaded = (None, clean') \<and>
        sn_AmbassadorMeta loaded = sn_AmbassadorMeta sn \<and> ac_marshal_snapshot ac clean' = Inr raw' \<and>
        Some clean = Some clean' \<and> Some (new_report ac i raw now) = Some (new_report ac i raw' now)"
      using p(3) s raw by blast
    ultimately show ?thesis unfolding sn by (simp only: i option.case if_True simp_thms)
  next
    case False
    with p s show ?thesis unfolding sn
      by (auto simp: i finish_snapshot_def Let_def split: option.splits sum.splits)
  qed
qed


section \<open>A round\<close>

lemma fallback_returns:
  assumes "\<And>s. returns (ingress_List (fw_ingressWatchers fw) s)" and "sn_Kubernetes sn \<noteq> None"
  shows "returns (FallbackWatchers_LoadSnapshot fw sn w)"
proof -
  obtain k where k: "sn_Kubernetes sn = Some k" using assms(2) by blast
  obtain services err s1 where l: "wg_List (fw_serviceWatchers fw) w = ((services, err), s1)"
    by (metis prod.collapse)
  obtain ingresses err2 s2 where "ingress_List (fw_ingressWatchers fw) s1 = Ret ((ingresses, err2), s2)"
    using assms(1) [of s1] unfolding returns_iff by (metis prod.collapse)
  with k l show ?thesis by (cases err2) (simp_all add: FallbackWatchers_LoadSnapshot_def Let_def)
qed

lemma standalone_watchers:
  assumes "ag_fallbackWatcher a = Some fw" and "ag_coreWatchers a = Some cw"
    and "\<And>s. returns (ingress_List (fw_ingressWatchers fw) s)" and "sn_Kubernetes sn = Some k"
  shows "\<exists>k' w'. load_watchers a sn w = Ret (sn\<lparr>sn_Kubernetes := Some k'\<rparr>, w') \<and> same_foreign k k'"
proof -
  have core: "\<exists>k2 w2. CoreWatchers_LoadSnapshot cw (sn\<lparr>sn_Kubernetes := Some k1\<rparr>) w1 =
      Ret (sn\<lparr>sn_Kubernetes := Some k2\<rparr>, w2) \<and> same_foreign k1 k2" for k1 w1
  proof -
    obtain sn2 w2 where r: "CoreWatchers_LoadSnapshot cw (sn\<lparr>sn_Kubernetes := Some k1\<rparr>) w1 = Ret (sn2, w2)"
      using core.load_total [of "sn\<lparr>sn_Kubernetes := Some k1\<rparr>" cw w1] by (auto simp: returns_iff)
    with core.load_frame [OF this] show ?thesis by auto
  qed
  show ?thesis
  proof (cases "ag_emissaryPresent a")
    case True
    have "sn\<lparr>sn_Kubernetes := Some k\<rparr> = sn" using assms(4) by (cases sn) simp
    with core [of k w] assms(1,2) True show ?thesis by (simp add: load_watchers_def)
  next
    case False
    have "sn_Kubernetes sn \<noteq> None" using assms(4) by simp
    from fallback_returns [OF assms(3) this, of w] obtain sn1 w1 where
      f: "FallbackWatchers_LoadSnapshot fw sn w = Ret (sn1, w1)" by (auto simp: returns_iff)
    then obtain k1 where k1: "sn1 = sn\<lparr>sn_Kubernetes := Some k1\<rparr>" "same_foreign k k1"
      using fallback.load_frame [OF f] assms(4) by auto
    from core [of k1 w1] f k1(1) assms(1,2) False k1(2) same_foreign_trans show ?thesis
      by (fastforce simp: load_watchers_def)
  qed
qed

lemma no_mappings_docs_return:
  assumes "sn_Kubernetes sn = Some k" and "ks_Mappings k = []"
  shows "\<exists>a' sn' later. load_docs ac now a sn w = Ret (a', sn', later, w)"
proof (cases "ag_apiDocsStore a")
  case None
  then show ?thesis by (simp add: load_docs_def)
next
  case (Some ds)
  have "getProcessableMappingsFromSnapshot (Some sn) = []"
    by (simp add: getProcessableMappingsFromSnapshot_def assms)
  then show ?thesis using Some
    by (auto simp: load_docs_def APIDocs_ProcessSnapshot_def plan_ProcessSnapshot_def Let_def)
qed

lemma load_argo_kubernetes:
  "sn_Kubernetes sn = Some k \<Longrightarrow> \<exists>k'. sn_Kubernetes (load_argo ord a sn) = Some k' \<and> ks_Mappings k' = ks_Mappings k"
  by (simp add: load_argo_def Let_def split: option.split)

text \<open>The serialisation of emissary's snapshot package works.\<close>

definition serialises :: "('w, 'd, 'e) AgentCalls \<Rightarrow> bool" where
  "serialises ac \<longleftrightarrow>
     (\<forall>sn. \<exists>clean raw. ac_sanitize ac sn = (None, clean) \<and> ac_marshal_snapshot ac clean = Inr raw)"

lemma standalone_process:
  assumes w: "ag_fallbackWatcher a = Some fw" "ag_coreWatchers a = Some cw"
    "\<And>s. returns (ingress_List (fw_ingressWatchers fw) s)"
    and s: "serialises ac" and c: "c \<noteq> ''''"
  shows "\<exists>a' later w' report. ProcessSnapshot ac now a (Some (fresh_snapshot c)) w = Ret (a', later, None, w') \<and>
    ag_reportToSend a' = Some report \<and> sr_SnapshotTs report = now \<and> ag_emissaryPresent a' = ag_emissaryPresent a"
proof -
  let ?sn = "fresh_snapshot c" and ?i = "new_identity c (Hostname (AESSnapshotURL a))"
  let ?a1 = "a\<lparr>ag_agentID := Some ?i\<rparr>"
  have i: "GetIdentity (sn_AmbassadorMeta ?sn) (Hostname (AESSnapshotURL a)) = Some ?i"
    and k: "sn_Kubernetes ?sn = Some empty_kubernetes" "sn_Kubernetes ?sn \<noteq> None"
    using c by (simp_all add: fresh_snapshot_def GetIdentity_def)
  obtain k1 w1 where l: "load_watchers ?a1 ?sn w = Ret (?sn\<lparr>sn_Kubernetes := Some k1\<rparr>, w1)"
    and f: "same_foreign empty_kubernetes k1"
    using standalone_watchers [of ?a1 fw cw ?sn empty_kubernetes w] w k by auto
  let ?sn1 = "load_argo (ac_uid_range ac) ?a1 (?sn\<lparr>sn_Kubernetes := Some k1\<rparr>)"
  obtain k2 where "sn_Kubernetes ?sn1 = Some k2" "ks_Mappings k2 = []"
    using load_argo_kubernetes [of "?sn\<lparr>sn_Kubernetes := Some k1\<rparr>" k1 "ac_uid_range ac" ?a1] f
    by (auto simp: same_foreign_def empty_kubernetes_def)
  from no_mappings_docs_return [OF this, of ac now ?a1 w1] obtain a2 sn2 later where
    d: "load_docs ac now ?a1 ?sn1 w1 = Ret (a2, sn2, later, w1)" by blast
  obtain clean raw where ser: "ac_sanitize ac sn2 = (None, clean)" "ac_marshal_snapshot ac clean = Inr raw"
    using s unfolding serialises_def by blast
  have e: "ag_emissaryPresent a2 = ag_emissaryPresent a"
    using d by (auto simp: load_docs_def bind_outcome_Ret_iff split: option.splits)
  have "ProcessSnapshot ac now a (Some ?sn) w = Ret (a2\<lparr>ag_currentSnapshot := Some clean,
      ag_reportToSend := Some (new_report ac ?i raw now)\<rparr>, later, None, w1)"
    by (simp add: ProcessSnapshot_def i k l d finish_snapshot_def ser)
  then show ?thesis using e by (simp add: new_report_def)
qed

lemma sample_group_ingresses:
  "returns (ingress_List (fw_ingressWatchers (sample_fallback :: byte list FallbackWatchers)) s)"
  by (simp add: sample_fallback_def empty_group_def)

lemma sample_serialises: "serialises sample_calls"
  by (simp add: serialises_def sample_calls_def)

lemma snapshot_to_report_witness:
  "\<exists>a' later w'. ProcessSnapshot sample_calls 5 sample_agent (Some (fresh_snapshot ''c'')) [1] =
      Ret (a', later, None, w') \<and>
    (\<exists>clean raw agentID. ac_marshal_snapshot sample_calls clean = Inr raw \<and> ag_currentSnapshot a' = Some clean \<and>
       ag_reportToSend a' = Some (new_report sample_calls agentID raw 5))"
proof -
  obtain a' later w' where p: "ProcessSnapshot sample_calls 5 sample_agent (Some (fresh_snapshot ''c'')) [1] =
      Ret (a', later, None, w')"
    using standalone_process [of sample_agent sample_fallback sample_core sample_calls "''c''" 5 "[1]"]
      sample_group_ingresses sample_serialises by auto
  have "GetIdentity (sn_AmbassadorMeta (fresh_snapshot ''c'')) h = Some (new_identity ''c'' h)" for h
    by (simp add: fresh_snapshot_def GetIdentity_def)
  with snapshot_to_report [OF p] p show ?thesis by auto
qed

text \<open>
  C6: Without emissary the agent is never stuck: whenever it is not told to stop and no report is
  under way, one tick of the loop returns and starts a report of that very moment, with the
  current key and period, provided there is a key and a cluster ID, the Director can be dialled,
  serialisation works and the ingresses of the cluster can be converted.
\<close>

theorem standalone_tick_reports:
  assumes "\<not> ag_emissaryPresent a" and "\<not> ag_reportingStopped a" and "\<not> ag_reportRunning a"
    and "AmbassadorAPIKey a \<noteq> ''''" and "ClusterID a \<noteq> '''' \<or> (\<forall>s. ac_newSHA1 ac s \<noteq> '''')"
    and "ag_fallbackWatcher a = Some fw" and "ag_coreWatchers a = Some cw"
    and "\<forall>s. returns (ingress_List (fw_ingressWatchers fw) s)" and "serialises ac"
    and "\<forall>address creds s. fst (ac_dial ac address creds s) = None"
  shows "\<exists>rd job. watch_round ac Tick now a w = Ret rd \<and> rd_report rd = Some job \<and>
    sr_SnapshotTs (rj_report job) = now \<and> rj_delay job = MinReportPeriod a \<and>
    rj_apikey job = AmbassadorAPIKey a \<and> ag_reportRunning (rd_agent rd) \<and> ag_comm (rd_agent rd) \<noteq> None"
proof -
  let ?c = "own_clusterID ac a w"
  have c: "?c \<noteq> ''''" using assms(5)
    by (auto simp: own_clusterID_def getClusterID_def clusterIDFromRootID_def Let_def Env.defs ToLower_def)
  let ?a1 = "a\<lparr>ag_clusterId := ?c\<rparr>"
  obtain a2 later w2 report where
    p: "ProcessSnapshot ac now ?a1 (Some (fresh_snapshot ?c)) w = Ret (a2, later, None, w2)"
    "ag_reportToSend a2 = Some report" "sr_SnapshotTs report = now" "ag_emissaryPresent a2 = ag_emissaryPresent ?a1"
    using standalone_process [of ?a1 fw cw ac ?c now w] assms c by auto
  have snap: "watch_snapshot ac now a w = Ret (a2, later, w2)"
    using assms(1-3) p(1) by (simp add: watch_snapshot_def get_snapshot_def)
  from watch_snapshot_frame [OF snap] have same: "same_reporting a a2" "same_comms a a2" by auto
  obtain go a3 w3 where comm: "watch_comm ac a2 w2 = (go, a3, w3)" using prod_cases3 by blast
  have dial: "ac_dial ac x y s \<noteq> (Some e, s')" for x y s e s' using assms(10) by (metis fst_conv option.distinct(1))
  have go: "go \<and> ag_reportToSend a3 = ag_reportToSend a2 \<and> ag_emissaryPresent a3 = ag_emissaryPresent a2"
    using comm assms(4) same(2)
    by (auto simp: watch_comm_def NewComm_def same_comms_def Let_def dial
        split: option.splits prod.splits sum.splits)
  note cf = watch_comm_frame [OF comm]
  have "watch_report a3 = (a3\<lparr>ag_reportRunning := True, ag_reportToSend := None\<rparr>,
      Some \<lparr>rj_report = report, rj_delay = MinReportPeriod a3, rj_apikey = AmbassadorAPIKey a3\<rparr>)"
    using cf go p(2) same assms(2,3) by (simp add: watch_report_def ReportSnapshot_def same_reporting_def)
  with snap comm go cf same p assms(1) show ?thesis
    by (simp add: watch_round_def watch_select_def watch_diagnostics_def same_reporting_def same_comms_def)
qed


lemma standalone_tick_reports_witness:
  "\<exists>rd job. watch_round sample_calls Tick 5 sample_agent [107] = Ret rd \<and> rd_report rd = Some job \<and>
    sr_SnapshotTs (rj_report job) = 5 \<and> rj_apikey job = ''key''"
proof -
  have "\<forall>address creds s. fst (ac_dial sample_calls address creds s) = None"
    by (simp add: sample_calls_def)
  then show ?thesis
    using standalone_tick_reports [of sample_agent sample_calls sample_fallback sample_core 5 "[107]"]
      sample_group_ingresses sample_serialises
    by auto
qed

end
