(* ===== verification/System_Correct.thy ===== *)
theory System_Correct
  imports Agent_Correct
begin

text \<open>
  The properties of the running agent: distance and number of reports, stopping, connections,
  ending a report, and the race that panics. An executable scheduler of the transition system
  produces the runs of the witnesses.
\<close>

section \<open>Running the system\<close>

text \<open>
  A scheduler that picks the next step, and its runs: every run it makes is a run of the
  transition system.
\<close>

datatype 'w choice = Watch_select watch_event | Watch_next | Report_begin | Report_end | Report_wake
  | Clock int | Outside 'w
  | Retriever_open nat | Retriever_recv nat "Directive option" | Retriever_deliver nat

definition set_retriever :: "nat \<Rightarrow> retr_pc \<Rightarrow> RPCComm \<Rightarrow> 'w Sys \<Rightarrow> 'w Sys" where
  "set_retriever i pc c s = s\<lparr>sy_agent := (sy_agent s)\<lparr>ag_comms := (ag_comms (sy_agent s))[i := c]\<rparr>,
     sy_retrievers := (sy_retrievers s)[i := pc]\<rparr>"

fun exec :: "('w, 'd, 'e) AgentCalls \<Rightarrow> 'w choice \<Rightarrow> 'w Sys \<Rightarrow> 'w Sys option" where
  "exec ac (Watch_select ev) s =
     (if sy_pc s = PSelect \<and> select_ready ev (sy_agent s)
      then (case watch_select ac ev (sy_agent s) (sy_world s) of
          Ret (a', w') \<Rightarrow> Some (s\<lparr>sy_agent := a', sy_world := w', sy_pc := PSnapshot\<rparr>)
        | Panic (a', w') \<Rightarrow> Some (s\<lparr>sy_world := w', sy_crashed := True\<rparr>))
      else None)"
| "exec ac Watch_next s =
     (case sy_pc s of
        PSelect \<Rightarrow> None
      | PSnapshot \<Rightarrow> (case watch_snapshot ac (sy_now s) (sy_agent s) (sy_world s) of
            Ret (a', later, w') \<Rightarrow> Some (s\<lparr>sy_agent := a', sy_world := w', sy_pc := PComm,
              sy_scrapes := sy_scrapes s @ opt_list later\<rparr>)
          | Panic (a', w') \<Rightarrow> Some (s\<lparr>sy_world := w', sy_crashed := True\<rparr>))
      | PComm \<Rightarrow> (case watch_comm ac (sy_agent s) (sy_world s) of (go, a', w') \<Rightarrow>
            Some (s\<lparr>sy_agent := a', sy_world := w', sy_pc := (if go then PReport else PSelect),
              sy_retrievers := with_retrievers a' (sy_retrievers s)\<rparr>))
      | PReport \<Rightarrow> (case watch_report (sy_agent s) of (a', job) \<Rightarrow>
            Some (s\<lparr>sy_agent := a', sy_pc := PDiagnostics,
              sy_reports := sy_reports s @ map Started (opt_list job)\<rparr>))
      | PDiagnostics \<Rightarrow> (case watch_diagnostics ac (sy_now s) (sy_agent s) (sy_world s) of (a', djob, w') \<Rightarrow>
            Some (s\<lparr>sy_agent := a', sy_world := w', sy_pc := PSelect,
              sy_diags := sy_diags s @ map Started (opt_list djob)\<rparr>)))"
| "exec ac Report_begin s =
     (case sy_reports s of
        Started job # ys \<Rightarrow> (case report_job_send ac job (sy_agent s) (sy_world s) of
            Ret (a', w') \<Rightarrow> Some (s\<lparr>sy_agent := a', sy_world := w', sy_reports := InRpc job # ys,
              sy_sent := sy_now s # sy_sent s\<rparr>)
          | Panic (a', w') \<Rightarrow> Some (s\<lparr>sy_crashed := True\<rparr>))
      | _ \<Rightarrow> None)"
| "exec ac Report_end s =
     (case sy_reports s of
        InRpc job # ys \<Rightarrow> Some (s\<lparr>sy_reports := Asleep job (sy_now s + sint (rj_delay job)) # ys\<rparr>)
      | _ \<Rightarrow> None)"
| "exec ac Report_wake s =
     (case sy_reports s of
        Asleep job u # ys \<Rightarrow> (if u \<le> sy_now s
          then Some (s\<lparr>sy_agent := (sy_agent s)\<lparr>ag_reportRunning := False\<rparr>, sy_reports := ys\<rparr>) else None)
      | _ \<Rightarrow> None)"
| "exec ac (Clock d) s = (if 0 \<le> d then Some (s\<lparr>sy_now := sy_now s + d\<rparr>) else None)"
| "exec ac (Outside w') s = Some (s\<lparr>sy_world := w'\<rparr>)"
| "exec ac (Retriever_open i) s =
     (if i < length (sy_retrievers s) \<and> i < length (ag_comms (sy_agent s)) then
        (case sy_retrievers s ! i of
           Opening \<Rightarrow> Some (set_retriever i Receiving (ag_comms (sy_agent s) ! i) s) | _ \<Rightarrow> None)
      else None)"
| "exec ac (Retriever_recv i d) s =
     (if i < length (sy_retrievers s) \<and> i < length (ag_comms (sy_agent s)) then
        (case sy_retrievers s ! i of
           Receiving \<Rightarrow> Some (set_retriever i (Holding d) (ag_comms (sy_agent s) ! i) s) | _ \<Rightarrow> None)
      else None)"
| "exec ac (Retriever_deliver i) s =
     (if i < length (sy_retrievers s) \<and> i < length (ag_comms (sy_agent s)) then
        (case sy_retrievers s ! i of
           Holding d \<Rightarrow>
             if cc_directives (ag_comms (sy_agent s) ! i) = []
             then Some (set_retriever i Receiving
               ((ag_comms (sy_agent s) ! i)\<lparr>cc_directives := [d]\<rparr>) s) else None
         | _ \<Rightarrow> None)
      else None)"

fun exec_run :: "('w, 'd, 'e) AgentCalls \<Rightarrow> 'w choice list \<Rightarrow> 'w Sys \<Rightarrow> 'w Sys option" where
  "exec_run ac [] s = Some s"
| "exec_run ac (c # cs) s =
     (if sy_crashed s then None else case exec ac c s of None \<Rightarrow> None | Some s' \<Rightarrow> exec_run ac cs s')"

lemma exec_sound:
  assumes "exec ac c s = Some s'" and "\<not> sy_crashed s"
  shows "sys_step ac s s'"
proof (cases c)
  case (Watch_select ev)
  with assms show ?thesis
    by (cases "watch_select ac ev (sy_agent s) (sy_world s)")
      (auto split: if_splits prod.splits intro: sys_step.select sys_step.select_panic)
next
  case Watch_next
  show ?thesis
  proof (cases "sy_pc s")
    case PSelect
    with assms Watch_next show ?thesis by simp
  next
    case PSnapshot
    with assms Watch_next show ?thesis
      by (cases "watch_snapshot ac (sy_now s) (sy_agent s) (sy_world s)")
        (auto split: prod.splits intro: sys_step.snapshot sys_step.snapshot_panic)
  next
    case PComm
    with assms Watch_next show ?thesis by (auto split: prod.splits intro: sys_step.comm)
  next
    case PReport
    with assms Watch_next show ?thesis by (auto split: prod.splits intro: sys_step.report)
  next
    case PDiagnostics
    with assms Watch_next show ?thesis by (auto split: prod.splits intro: sys_step.diagnostics)
  qed
next
  case Report_begin
  with assms obtain job ys where r: "sy_reports s = [] @ Started job # ys"
    by (auto split: list.splits flight.splits)
  show ?thesis
  proof (cases "report_job_send ac job (sy_agent s) (sy_world s)")
    case (Ret p)
    obtain a' w' where "p = (a', w')" by (cases p)
    with sys_step.report_begin [OF assms(2) r, of ac a' w'] Ret r assms(1) Report_begin show ?thesis by simp
  next
    case (Panic p)
    obtain a' w' where "p = (a', w')" by (cases p)
    with sys_step.report_panic [OF assms(2) r, of ac a' w'] Panic r assms(1) Report_begin show ?thesis by simp
  qed
next
  case Report_end
  with assms obtain job ys where r: "sy_reports s = [] @ InRpc job # ys"
    by (auto split: list.splits flight.splits)
  with sys_step.report_end [OF assms(2) r, of ac] assms(1) Report_end show ?thesis by simp
next
  case Report_wake
  with assms obtain job u ys where r: "sy_reports s = [] @ Asleep job u # ys" and u: "u \<le> sy_now s"
    by (auto split: list.splits flight.splits if_splits)
  with sys_step.report_wake [OF assms(2) r u, of ac] assms(1) Report_wake show ?thesis by simp
next
  case (Clock d)
  with sys_step.clock [OF assms(2), of d ac] assms(1) show ?thesis by (simp split: if_splits)
next
  case (Outside w')
  with sys_step.outside [OF assms(2), of ac w'] assms(1) show ?thesis by simp
next
  case (Retriever_open i)
  with assms(1) have i: "i < length (sy_retrievers s)" "i < length (ag_comms (sy_agent s))"
    and h: "sy_retrievers s ! i = Opening"
    and s': "s' = set_retriever i Receiving (ag_comms (sy_agent s) ! i) s"
    by (auto split: if_splits retr_pc.splits)
  have "retr_step (sy_retrievers s ! i, ag_comms (sy_agent s) ! i) OpenOk
      (Receiving, ag_comms (sy_agent s) ! i)"
    unfolding h by (rule retr_step.open_ok)
  from sys_step.retriever [OF assms(2) i _ this] s' show ?thesis unfolding set_retriever_def by simp
next
  case (Retriever_recv i d)
  with assms(1) have i: "i < length (sy_retrievers s)" "i < length (ag_comms (sy_agent s))"
    and h: "sy_retrievers s ! i = Receiving"
    and s': "s' = set_retriever i (Holding d) (ag_comms (sy_agent s) ! i) s"
    by (auto split: if_splits retr_pc.splits)
  have "retr_step (sy_retrievers s ! i, ag_comms (sy_agent s) ! i) (Recv d)
      (Holding d, ag_comms (sy_agent s) ! i)"
    unfolding h by (rule retr_step.recv)
  from sys_step.retriever [OF assms(2) i _ this] s' show ?thesis unfolding set_retriever_def by simp
next
  case (Retriever_deliver i)
  let ?c = "ag_comms (sy_agent s) ! i"
  from Retriever_deliver assms(1) obtain d where i: "i < length (sy_retrievers s)" "i < length (ag_comms (sy_agent s))"
    and h: "sy_retrievers s ! i = Holding d" and e: "cc_directives ?c = []"
    and s': "s' = set_retriever i Receiving (?c\<lparr>cc_directives := [d]\<rparr>) s"
    by (auto split: if_splits retr_pc.splits)
  have "retr_step (sy_retrievers s ! i, ?c) Deliver (Receiving, ?c\<lparr>cc_directives := [d]\<rparr>)"
    using retr_step.deliver [of ?c d] e h by simp
  from sys_step.retriever [OF assms(2) i _ this] s' show ?thesis by (simp add: set_retriever_def)
qed

lemma exec_run_sound: "exec_run ac cs s = Some t \<Longrightarrow> reach ac s t"
proof (induction cs arbitrary: s)
  case Nil
  then show ?case by simp
next
  case (Cons c cs)
  then obtain s1 where "\<not> sy_crashed s" "exec ac c s = Some s1" "exec_run ac cs s1 = Some t"
    by (auto split: if_splits option.splits)
  with exec_sound Cons.IH show ?case by (blast intro: converse_rtranclp_into_rtranclp)
qed


definition sample_start :: "byte list Sys" where
  "sample_start = the (boot sample_calls [] sample_agent [107, 101, 121] 0)"

definition round_choices :: "byte list choice list" where
  "round_choices = [Watch_select Tick, Watch_next, Watch_next, Watch_next, Watch_next]"

definition two_reports :: "byte list choice list" where
  "two_reports = round_choices @ [Report_begin, Report_end, Clock 30000000000, Report_wake] @
     round_choices @ [Report_begin]"

lemma sample_boot: "boot sample_calls [] sample_agent [107, 101, 121] 0 = Some sample_start"
proof -
  have "(case boot sample_calls [] sample_agent [107, 101, 121] 0 of None \<Rightarrow> False | Some s \<Rightarrow> True)"
    by code_simp
  then show ?thesis by (auto simp: sample_start_def split: option.splits)
qed

lemma two_reports_run:
  obtains t where "reach sample_calls sample_start t" "sy_sent t = [30000000000, 0]"
    "length (ag_comms (sy_agent t)) = 1"
proof -
  have "(case exec_run sample_calls two_reports sample_start of None \<Rightarrow> False
    | Some t \<Rightarrow> sy_sent t = [30000000000, 0] \<and> length (ag_comms (sy_agent t)) = 1)"
    unfolding two_reports_def round_choices_def append.simps by code_simp
  then obtain t where "exec_run sample_calls two_reports sample_start = Some t" "sy_sent t = [30000000000, 0]"
    "length (ag_comms (sy_agent t)) = 1" by (auto split: option.splits)
  with exec_run_sound that show thesis by blast
qed

lemma sample_period: "parse_report_period (\<lambda>a b c. a) '''' = Inr (MinReportPeriod sample_env)"
  by (simp add: parse_report_period_def sample_env_def)

section \<open>Every reachable state\<close>

lemma booted:
  assumes "boot ac evs (main_agent rf sf cw fw domain env) w now = Some s"
    and "parse_report_period fmul str = Inr (MinReportPeriod env)"
  shows "good_sys s \<and> flight_inv least (sy_now s) (reports_of s) \<and> flight_inv least (sy_now s) (diags_of s) \<and>
    \<not> sy_crashed s"
  using parse_report_period_min [OF assms(2)] by (intro boot_good [OF assms(1)]) simp

text \<open>
  C1: Whatever the cluster, emissary and the Director do, and in whatever order the goroutines
  run: two reports are sent at least thirty seconds apart, and there is never more than one
  report goroutine, exactly while \<open>reportRunning\<close> is set. The same holds of diagnostics, which no
  directive can stop. The minimum period is the one read from the environment, with any text for it.
\<close>

theorem reports_spaced:
  assumes "boot ac evs (main_agent rf sf cw fw domain env) w now = Some s"
    and "parse_report_period fmul str = Inr (MinReportPeriod env)" and "reach ac s t"
  shows "sorted_wrt (\<lambda>later earlier. earlier + 30000000000 \<le> later) (sy_sent t) \<and>
    length (sy_reports t) \<le> 1 \<and> (ag_reportRunning (sy_agent t) \<longleftrightarrow> sy_reports t \<noteq> []) \<and>
    sorted_wrt (\<lambda>later earlier. earlier + 30000000000 \<le> later) (sy_diags_sent t) \<and>
    length (sy_diags t) \<le> 1 \<and> (ag_diagnosticsReportRunning (sy_agent t) \<longleftrightarrow> sy_diags t \<noteq> []) \<and>
    \<not> ag_diagnosticsReportingStopped (sy_agent t)"
proof -
  from booted [OF assms(1,2)] have g: "good_sys s" "flight_inv 30000000000 (sy_now s) (reports_of s)"
    and d: "good_sys s" "flight_inv 30000000000 (sy_now s) (diags_of s)" by auto
  have v: "reports_of t = (ag_reportRunning (sy_agent t), sy_reports t, sy_sent t)" by (simp add: reports_of_def)
  have dv: "diags_of t = (ag_diagnosticsReportRunning (sy_agent t), sy_diags t, sy_diags_sent t)"
    by (simp add: diags_of_def)
  from diags.inv_reach [OF assms(3) d] have "\<not> ag_diagnosticsReportingStopped (sy_agent t)"
    by (simp add: good_sys_def)
  with reports.spaced [OF assms(3) g v] reports.at_most_one [OF assms(3) g v]
    diags.spaced [OF assms(3) d dv] diags.at_most_one [OF assms(3) d dv] show ?thesis by blast
qed

lemma reports_spaced_witness:
  "\<exists>t. reach sample_calls sample_start t \<and> sy_sent t = [30000000000, 0] \<and>
     sorted_wrt (\<lambda>later earlier. earlier + 30000000000 \<le> later) (sy_sent t)"
proof -
  obtain t where t: "reach sample_calls sample_start t" "sy_sent t = [30000000000, 0]"
    by (rule two_reports_run)
  from reports_spaced [OF sample_boot [unfolded sample_agent_def] sample_period t(1)] t show ?thesis by blast
qed

text \<open>
  No connection leaks: in every reachable state at most one of the connections dialled so far
  is open, the one in use; every other is closed with its retriever told to stop; and the channel
  of directives the agent reads is the one of the connection in use.
\<close>

theorem connections_closed:
  assumes "boot ac evs (main_agent rf sf cw fw domain env) w now = Some s"
    and "parse_report_period fmul str = Inr (MinReportPeriod env)" and "reach ac s t"
    and "i < length (ag_comms (sy_agent t))"
  shows "cc_connClosed (ag_comms (sy_agent t) ! i) = (ag_comm (sy_agent t) \<noteq> Some i) \<and>
    cc_retCancelled (ag_comms (sy_agent t) ! i) = (ag_comm (sy_agent t) \<noteq> Some i) \<and>
    (ag_comm (sy_agent t) = Some i \<longrightarrow> ag_newDirective (sy_agent t) = Some i)"
proof -
  from booted [OF assms(1,2)] have g: "good_sys s" "flight_inv 30000000000 (sy_now s) (reports_of s)" by auto
  from reports.inv_reach [OF assms(3) g] have "comm_wf (sy_agent t)" by (simp add: good_sys_def)
  with assms(4) show ?thesis by (simp add: comm_wf_def)
qed


lemma connections_closed_witness:
  "\<exists>t. reach sample_calls sample_start t \<and> length (ag_comms (sy_agent t)) = 1 \<and>
     cc_connClosed (ag_comms (sy_agent t) ! 0) = (ag_comm (sy_agent t) \<noteq> Some 0)"
proof -
  obtain t where t: "reach sample_calls sample_start t" "length (ag_comms (sy_agent t)) = 1"
    by (rule two_reports_run)
  from connections_closed [OF sample_boot [unfolded sample_agent_def] sample_period t(1), of 0] t
  show ?thesis by auto
qed

section \<open>Stopping\<close>

text \<open>Reports that are started but not sent yet.\<close>

fun unsent :: "'r flight list \<Rightarrow> nat" where
  "unsent [] = 0"
| "unsent (Started j # fs) = Suc (unsent fs)"
| "unsent (f # fs) = unsent fs"

lemma unsent_append [simp]: "unsent (xs @ ys) = unsent xs + unsent ys"
  by (induction xs rule: unsent.induct) simp_all

lemma flight_move_stopped:
  assumes "flight_move now True period (running, fs, log) (running', fs', log')"
  shows "length log' + unsent fs' \<le> length log + unsent fs \<and> (\<exists>new. log' = new @ log)"
  using assms by (elim flight_moveE) auto

lemma stopped_reach:
  "reach ac s t \<Longrightarrow> ag_reportingStopped (sy_agent s) \<Longrightarrow>
   ag_reportingStopped (sy_agent t) \<and>
   length (sy_sent t) + unsent (sy_reports t) \<le> length (sy_sent s) + unsent (sy_reports s)"
proof (induction rule: rtranclp_induct)
  case base
  then show ?case by simp
next
  case (step u v)
  then have st: "ag_reportingStopped (sy_agent u)" by blast
  from step_reports [OF step.hyps(2)] st have "length (sy_sent v) + unsent (sy_reports v) \<le>
      length (sy_sent u) + unsent (sy_reports u)"
    unfolding reports_of_def by (simp add: flight_move_stopped)
  with step step_stopped [OF step.hyps(2) st] show ?case by linarith
qed

text \<open>
  C3: Once a directive has stopped the agent it stays stopped, for as long as the process runs,
  and it sends at most one more report: the one whose goroutine was already started.
\<close>

theorem stopped_agent_silent:
  assumes "boot ac evs (main_agent rf sf cw fw domain env) w now = Some s"
    and "parse_report_period fmul str = Inr (MinReportPeriod env)" and "reach ac s t"
    and "ag_reportingStopped (sy_agent t)" and "reach ac t u"
  shows "ag_reportingStopped (sy_agent u) \<and> length (sy_sent u) \<le> length (sy_sent t) + 1 \<and>
    (unsent (sy_reports t) = 0 \<longrightarrow> length (sy_sent u) = length (sy_sent t))"
proof -
  from booted [OF assms(1,2)] have g: "good_sys s" "flight_inv 30000000000 (sy_now s) (reports_of s)" by auto
  have v: "reports_of t = (ag_reportRunning (sy_agent t), sy_reports t, sy_sent t)" by (simp add: reports_of_def)
  from reports.at_most_one [OF assms(3) g v] have "length (sy_reports t) \<le> 1" by blast
  then have one: "unsent (sy_reports t) \<le> 1"
    by (cases "sy_reports t" rule: unsent.cases) auto
  have "quiet t" if "unsent (sy_reports t) = 0"
  proof -
    have "unsent fs = 0 \<Longrightarrow> Started j \<notin> set fs" for j :: "Snapshot_report ReportJob" and fs
      by (induction fs rule: unsent.induct) auto
    with that assms(4) show ?thesis by (simp add: quiet_def)
  qed
  with stopped_reach [OF assms(5,4)] one quiet_reach [OF assms(5)] show ?thesis by auto
qed

text \<open>A directive that stops reporting arrives after a report was started.\<close>

definition stop_directive :: Directive where
  "stop_directive = \<lparr>dir_ID = ''d1'', dir_StopReporting = True, dir_MinReportPeriod = None, dir_Commands = []\<rparr>"

definition stop_choices :: "byte list choice list" where
  "stop_choices = round_choices @ [Retriever_open 0, Retriever_recv 0 (Some stop_directive),
     Retriever_deliver 0, Watch_select DirectiveReady]"

lemma stopped_run:
  obtains t u where "reach sample_calls sample_start t" "ag_reportingStopped (sy_agent t)" "sy_sent t = []"
    "reach sample_calls t u" "sy_sent u = [0]"
proof -
  have "(case exec_run sample_calls stop_choices sample_start of None \<Rightarrow> False
    | Some t \<Rightarrow> ag_reportingStopped (sy_agent t) \<and> sy_sent t = [] \<and>
       (case exec_run sample_calls [Report_begin] t of None \<Rightarrow> False | Some u \<Rightarrow> sy_sent u = [0]))"
    unfolding stop_choices_def round_choices_def append.simps by code_simp
  then obtain t u where "exec_run sample_calls stop_choices sample_start = Some t"
    "ag_reportingStopped (sy_agent t)" "sy_sent t = []"
    "exec_run sample_calls [Report_begin] t = Some u" "sy_sent u = [0]"
    by (auto simp del: exec_run.simps split: option.splits)
  with exec_run_sound that show thesis by blast
qed

lemma stopped_agent_silent_witness:
  "\<exists>t u. reach sample_calls sample_start t \<and> ag_reportingStopped (sy_agent t) \<and> sy_sent t = [] \<and>
     reach sample_calls t u \<and> sy_sent u = [0] \<and> ag_reportingStopped (sy_agent u) \<and>
     length (sy_sent u) \<le> length (sy_sent t) + 1"
proof -
  obtain t u where r: "reach sample_calls sample_start t" "ag_reportingStopped (sy_agent t)" "sy_sent t = []"
    "reach sample_calls t u" "sy_sent u = [0]" by (rule stopped_run)
  from stopped_agent_silent [OF sample_boot [unfolded sample_agent_def] sample_period r(1,2,4)] r
  show ?thesis by blast
qed

section \<open>Ending a report\<close>

lemma report_ends_from_rpc:
  assumes "\<not> sy_crashed s" and "sy_reports s = [InRpc job]"
  shows "\<exists>t. reach ac s t \<and> \<not> ag_reportRunning (sy_agent t) \<and> sy_reports t = [] \<and> \<not> sy_crashed t"
proof -
  let ?u = "sy_now s + sint (rj_delay job)"
  let ?s1 = "s\<lparr>sy_reports := [Asleep job ?u]\<rparr>"
  let ?s2 = "?s1\<lparr>sy_now := sy_now ?s1 + max 0 (sint (rj_delay job))\<rparr>"
  have "sys_step ac s ?s1" using sys_step.report_end [of s "[]" job "[]" ac] assms by simp
  moreover have "sys_step ac ?s1 ?s2" by (rule sys_step.clock) (use assms in simp_all)
  moreover have "sys_step ac ?s2 (?s2\<lparr>sy_agent := (sy_agent ?s2)\<lparr>ag_reportRunning := False\<rparr>, sy_reports := []\<rparr>)"
    using sys_step.report_wake [of ?s2 "[]" job ?u "[]" ac] assms by simp
  ultimately have "reach ac s (?s2\<lparr>sy_agent := (sy_agent ?s2)\<lparr>ag_reportRunning := False\<rparr>, sy_reports := []\<rparr>)"
    by (meson rtranclp.rtrancl_refl rtranclp.rtrancl_into_rtrancl)
  moreover have "\<not> sy_crashed s" by (rule assms(1))
  ultimately show ?thesis by force
qed



section \<open>A key change at the wrong moment\<close>

text \<open>
  C21: A report is started and the loop waits for its next event; when the configuration now asks
  for another key before the new goroutine has read \<open>a.comm\<close>, the process can panic.
\<close>

theorem key_change_can_panic:
  assumes "\<not> sy_crashed s" and "sy_pc s = PSelect" and "sy_reports s = [Started job]"
    and "desired_key ac (sy_agent s) w' \<noteq> AmbassadorAPIKey (sy_agent s)"
  shows "\<exists>t. reach ac s t \<and> sy_crashed t"
proof -
  let ?s1 = "s\<lparr>sy_world := w'\<rparr>"
  obtain a2 w2 where h: "handleAPIKeyConfigChange ac (sy_agent s) w' = (a2, w2)" by fastforce
  then have none: "ag_comm a2 = None"
    using handleAPIKeyConfigChange_agent [of ac "sy_agent s" w'] assms(4)
    by (simp add: maybeResetComm_def frame_simps)
  let ?s2 = "?s1\<lparr>sy_agent := a2, sy_world := w2, sy_pc := PSnapshot\<rparr>"
  have "sys_step ac s ?s1" by (rule sys_step.outside) (rule assms(1))
  moreover have "sys_step ac ?s1 ?s2"
    by (rule sys_step.select [of ?s1 ConfigChanged]) (use assms h in \<open>simp_all add: watch_select_def\<close>)
  moreover have "sys_step ac ?s2 (?s2\<lparr>sy_crashed := True\<rparr>)"
    using sys_step.report_panic [of ?s2 "[]" job "[]" ac a2 w2] assms(1,3) none
    by (simp add: report_job_send_def)
  ultimately have "reach ac s (?s2\<lparr>sy_crashed := True\<rparr>)"
    by (meson rtranclp.rtrancl_refl rtranclp.rtrancl_into_rtrancl)
  then show ?thesis by force
qed


text \<open>The state in which the first report has just been started.\<close>

lemma started_run:
  obtains t job where "reach sample_calls sample_start t" "sy_pc t = PSelect" "sy_reports t = [Started job]"
    "\<not> sy_crashed t" "AmbassadorAPIKey (sy_agent t) = ''key''"
proof -
  have "(case exec_run sample_calls round_choices sample_start of None \<Rightarrow> False
    | Some t \<Rightarrow> (case sy_pc t of PSelect \<Rightarrow> True | _ \<Rightarrow> False) \<and> (case sy_reports t of [Started job] \<Rightarrow> True | _ \<Rightarrow> False) \<and>
       \<not> sy_crashed t \<and> AmbassadorAPIKey (sy_agent t) = ''key'')"
    unfolding round_choices_def by code_simp
  then obtain t job where "exec_run sample_calls round_choices sample_start = Some t" "sy_pc t = PSelect"
    "sy_reports t = [Started job]" "\<not> sy_crashed t" "AmbassadorAPIKey (sy_agent t) = ''key''"
    by (auto split: option.splits watch_pc.splits list.splits flight.splits)
  with exec_run_sound that show thesis by blast
qed

lemma key_change_can_panic_witness:
  "\<exists>t. reach sample_calls sample_start t \<and> sy_crashed t"
proof -
  obtain t job where t: "reach sample_calls sample_start t" "sy_pc t = PSelect" "sy_reports t = [Started job]"
    "\<not> sy_crashed t" "AmbassadorAPIKey (sy_agent t) = ''key''" by (rule started_run)
  have "desired_key sample_calls (sy_agent t) [] \<noteq> AmbassadorAPIKey (sy_agent t)"
    by (simp add: sample_calls_key string_of_bytes_def t(5))
  from key_change_can_panic [OF t(4,2,3) this] t(1) show ?thesis by (meson rtranclp_trans)
qed

end
