(* ===== verification/Docs_Correct.thy ===== *)
theory Docs_Correct
  imports Api_Docs
begin

text \<open>
  What the store of API documents (\<open>pkg/agent/api_docs.go\<close>) does over a run of snapshots: at most
  one scrape per minute, no documents of mappings that went away, usable addresses, and the one
  document that makes the conversion panic.
\<close>

section \<open>A run of snapshots\<close>

text \<open>
  The agent hands every snapshot to \<open>ProcessSnapshot\<close> and publishes \<open>StateOfWorld\<close>. A scrape
  in a goroutine is taken to end before the next one starts, as it does when it lasts less than
  the minute between two scrapes. The run collects the times of the scrapes.
\<close>

definition docs_step ::
  "doc_range \<Rightarrow> header_range \<Rightarrow> store_range \<Rightarrow> 'w http_get \<Rightarrow> ('d, 'e) OpenAPI \<Rightarrow> int \<Rightarrow>
   Snapshot option \<Rightarrow> APIDocsStore \<Rightarrow> 'w \<Rightarrow> ('w, APIDocsStore \<times> 'w) outcome" where
  "docs_step ord hord sord get oa now snapshot a w =
     bind_outcome (APIDocs_ProcessSnapshot ord hord sord get oa now snapshot a w) (\<lambda>(a1, later, w1).
       case later of None \<Rightarrow> Ret (a1, w1) | Some ms \<Rightarrow> scrape ord hord get oa ms a1 w1)"

definition scrapes_at :: "store_range \<Rightarrow> int \<Rightarrow> Snapshot option \<Rightarrow> APIDocsStore \<Rightarrow> bool" where
  "scrapes_at sord now snapshot a \<longleftrightarrow> snd (plan_ProcessSnapshot sord now snapshot a) \<noteq> NoScrape"

fun docs_run ::
  "doc_range \<Rightarrow> header_range \<Rightarrow> store_range \<Rightarrow> 'w http_get \<Rightarrow> ('d, 'e) OpenAPI \<Rightarrow>
   (int \<times> Snapshot option) list \<Rightarrow> APIDocsStore \<Rightarrow> 'w \<Rightarrow>
   ('w, APIDocsStore \<times> int list \<times> 'w) outcome" where
  "docs_run ord hord sord get oa [] a w = Ret (a, [], w)"
| "docs_run ord hord sord get oa ((now, sn) # calls) a w =
     bind_outcome (docs_step ord hord sord get oa now sn a w) (\<lambda>(a1, w1).
     bind_outcome (docs_run ord hord sord get oa calls a1 w1) (\<lambda>(a2, ts, w2).
       Ret (a2, (if scrapes_at sord now sn a then now # ts else ts), w2)))"

lemma docs_step_cases:
  assumes "docs_step ord hord sord get oa now sn a w = Ret (a', w')"
  shows "(\<not> scrapes_at sord now sn a \<and> a' = a \<and> w' = w) \<or>
    (scrapes_at sord now sn a \<and> ds_DontProcessSnapshotBeforeTime a \<le> now \<and>
     scrape ord hord get oa (getProcessableMappingsFromSnapshot sn)
       (a\<lparr>ds_DontProcessSnapshotBeforeTime := now + one_minute\<rparr>) w = Ret (a', w'))"
proof -
  obtain a1 plan where plan: "plan_ProcessSnapshot sord now sn a = (a1, plan)" by fastforce
  have shape: "(plan = NoScrape \<and> a1 = a) \<or>
      (ds_DontProcessSnapshotBeforeTime a \<le> now \<and> a1 = a\<lparr>ds_DontProcessSnapshotBeforeTime := now + one_minute\<rparr> \<and>
       (plan = ScrapeNow (getProcessableMappingsFromSnapshot sn) \<or>
        plan = ScrapeLater (getProcessableMappingsFromSnapshot sn)))"
    using plan by (auto simp: plan_ProcessSnapshot_def Let_def split: if_splits)
  have at: "scrapes_at sord now sn a \<longleftrightarrow> plan \<noteq> NoScrape" by (simp add: scrapes_at_def plan)
  show ?thesis
  proof (cases plan)
    case NoScrape
    then show ?thesis using assms shape at by (simp add: docs_step_def APIDocs_ProcessSnapshot_def plan)
  next
    case (ScrapeNow ms)
    have "scrape ord hord get oa ms a1 w = Ret (a', w')"
      using assms by (cases "scrape ord hord get oa ms a1 w")
        (auto simp: docs_step_def APIDocs_ProcessSnapshot_def plan ScrapeNow)
    then show ?thesis using ScrapeNow shape at by auto
  next
    case (ScrapeLater ms)
    have "scrape ord hord get oa ms a1 w = Ret (a', w')"
      using assms by (simp add: docs_step_def APIDocs_ProcessSnapshot_def plan ScrapeLater)
    then show ?thesis using ScrapeLater shape at by auto
  qed
qed

lemma scrape_keeps_time:
  assumes "scrape ord hord get oa ms a w = Ret (a', w')"
  shows "ds_DontProcessSnapshotBeforeTime a' = ds_DontProcessSnapshotBeforeTime a"
proof -
  from assms obtain t where "scrape_loop hord get oa ms (ds_docsDiff a) (ds_store a) w = Ret t"
    by (cases "scrape_loop hord get oa ms (ds_docsDiff a) (ds_store a) w") (auto simp: scrape_def)
  with assms show ?thesis by (auto simp: scrape_def split: prod.splits)
qed

lemma docs_run_spaced:
  assumes "docs_run ord hord sord get oa calls a w = Ret (a', ts, w')"
  shows "sorted_wrt (\<lambda>s t. s + one_minute \<le> t) ts \<and>
    (\<forall>t \<in> set ts. ds_DontProcessSnapshotBeforeTime a \<le> t)"
  using assms
proof (induction calls arbitrary: a w ts)
  case Nil
  then show ?case by simp
next
  case (Cons call calls)
  obtain now sn where call: "call = (now, sn)" by (cases call)
  from Cons.prems obtain a1 w1 where st: "docs_step ord hord sord get oa now sn a w = Ret (a1, w1)"
    by (cases "docs_step ord hord sord get oa now sn a w") (auto simp: call)
  from Cons.prems st obtain ts1 where run: "docs_run ord hord sord get oa calls a1 w1 = Ret (a', ts1, w')"
    and ts: "ts = (if scrapes_at sord now sn a then now # ts1 else ts1)"
    by (cases "docs_run ord hord sord get oa calls a1 w1") (auto simp: call)
  note ih = Cons.IH [OF run]
  show ?case
  proof (cases "scrapes_at sord now sn a")
    case False
    then show ?thesis using ih ts docs_step_cases [OF st] by simp
  next
    case True
    with docs_step_cases [OF st] have le: "ds_DontProcessSnapshotBeforeTime a \<le> now"
      and scr: "scrape ord hord get oa (getProcessableMappingsFromSnapshot sn)
        (a\<lparr>ds_DontProcessSnapshotBeforeTime := now + one_minute\<rparr>) w = Ret (a1, w1)" by auto
    from scrape_keeps_time [OF scr] have "ds_DontProcessSnapshotBeforeTime a1 = now + one_minute" by simp
    moreover have "(0 :: int) \<le> one_minute" by (simp add: one_minute_def)
    ultimately show ?thesis using ih ts True le by fastforce
  qed
qed

lemma docs_run_invariant:
  assumes "docs_run ord hord sord get oa calls a w = Ret (a', ts, w')" and "between_rounds a"
    and "range_ok ord"
  shows "between_rounds a'"
  using assms(1,2)
proof (induction calls arbitrary: a w ts)
  case Nil
  then show ?case by simp
next
  case (Cons call calls)
  obtain now sn where call: "call = (now, sn)" by (cases call)
  from Cons.prems(1) obtain a1 w1 where st: "docs_step ord hord sord get oa now sn a w = Ret (a1, w1)"
    by (cases "docs_step ord hord sord get oa now sn a w") (auto simp: call)
  from Cons.prems(1) st obtain ts1 where run: "docs_run ord hord sord get oa calls a1 w1 = Ret (a', ts1, w')"
    by (cases "docs_run ord hord sord get oa calls a1 w1") (auto simp: call)
  have start: "between_rounds (a\<lparr>ds_DontProcessSnapshotBeforeTime := now + one_minute\<rparr>)"
    using Cons.prems(2) by (simp add: between_rounds_def)
  have "between_rounds a1"
  proof (cases "scrapes_at sord now sn a")
    case False
    with docs_step_cases [OF st] have "a1 = a" by simp
    with Cons.prems(2) show ?thesis by simp
  next
    case True
    with docs_step_cases [OF st] have "scrape ord hord get oa (getProcessableMappingsFromSnapshot sn)
        (a\<lparr>ds_DontProcessSnapshotBeforeTime := now + one_minute\<rparr>) w = Ret (a1, w1)" by simp
    from scrape_between_rounds [OF start assms(3) this] show ?thesis by (rule conjunct1)
  qed
  then show ?case by (rule Cons.IH [OF run])
qed

section \<open>The address of a document\<close>

lemma Contains_dot: "Contains s ''.'' \<longleftrightarrow> CHR ''.'' \<in> set s"
  by (induction s) (auto simp: HasPrefix_def)

lemma splitHostPort_plain:
  assumes "cut_last (CHR '':'') s = None \<or>
      (\<exists>h p. cut_last (CHR '':'') s = Some (h, p) \<and> \<not> validOptionalPort ('':'' @ p))"
    and "\<not> HasSuffix s '']''"
  shows "splitHostPort s = (s, '''')"
  using assms by (auto simp: splitHostPort_def)

lemma not_suffix_bracket: "ns = '''' \<or> CHR '']'' \<notin> set ns \<Longrightarrow> \<not> HasSuffix (h @ ''.'' @ ns) '']''"
  by (cases ns rule: rev_cases) (auto simp: HasSuffix_iff)

lemma splitHostPort_namespace:
  assumes "CHR '':'' \<notin> set ns" "CHR '']'' \<notin> set ns"
  shows "splitHostPort (h @ ''.'' @ ns) = (h @ ''.'' @ ns, '''')"
proof (rule splitHostPort_plain)
  have "\<not> validOptionalPort ('':'' @ p)" if "cut_last (CHR '':'') (h @ ''.'' @ ns) = Some (h', p)" for h' p
  proof -
    from that have eq: "h @ ''.'' @ ns = h' @ CHR '':'' # p" and no: "CHR '':'' \<notin> set p"
      by (auto simp: cut_last_Some)
    have "CHR ''.'' \<in> set p"
    proof (rule ccontr)
      assume n: "CHR ''.'' \<notin> set p"
      from eq assms(1) consider (a) t where "h = h' @ CHR '':'' # t" "p = t @ ''.'' @ ns"
        by (auto simp: append_eq_append_conv2 Cons_eq_append_conv append_eq_Cons_conv)
      then show False using n by cases simp
    qed
    moreover have "\<not> is_digit (CHR ''.'')" by (simp add: is_digit_def)
    ultimately show ?thesis by auto
  qed
  then show "cut_last (CHR '':'') (h @ ''.'' @ ns) = None \<or> (\<exists>h' p.
      cut_last (CHR '':'') (h @ ''.'' @ ns) = Some (h', p) \<and> \<not> validOptionalPort ('':'' @ p))"
    by (cases "cut_last (CHR '':'') (h @ ''.'' @ ns)") auto
  show "\<not> HasSuffix (h @ ''.'' @ ns) '']''" using assms(2) by (intro not_suffix_bracket) simp
qed

lemma splitHostPort_port:
  assumes "CHR '']'' \<notin> set ns" "\<forall>d \<in> set p. is_digit d"
  shows "splitHostPort ((h @ ''.'' @ ns) @ '':'' @ p) = (h @ ''.'' @ ns, p)"
proof -
  have "CHR '':'' \<notin> set p" using assms(2) by (auto simp: is_digit_def)
  then have "cut_last (CHR '':'') ((h @ ''.'' @ ns) @ '':'' @ p) = Some (h @ ''.'' @ ns, p)"
    by (simp only: cut_last_Some) simp
  then show ?thesis using not_suffix_bracket [of ns h] assms
    by (simp add: splitHostPort_def del: append.simps append_assoc) simp
qed

lemma with_namespace_host:
  assumes "CHR '':'' \<notin> set (GetNamespace mapping)" "CHR '']'' \<notin> set (GetNamespace mapping)"
  shows "Hostname (with_namespace mapping u) =
      (if Contains (Hostname u) ''.'' then Hostname u else Hostname u @ ''.'' @ GetNamespace mapping)"
    and "Port (with_namespace mapping u) = Port u"
proof -
  have "\<forall>d \<in> set (Port u). is_digit d" using Port_digits by blast
  note sp = splitHostPort_namespace [OF assms, of "Hostname u", simplified]
    splitHostPort_port [OF assms(2) this, of "Hostname u", simplified]
  have h: "Hostname (u\<lparr>url_Host := Hostname u @ ''.'' @ GetNamespace mapping\<rparr>) =
      Hostname u @ ''.'' @ GetNamespace mapping"
    by (simp add: Hostname_def [of "url_Host_update _ _"] sp)
  have p: "Hostname (u1\<lparr>url_Host := (Hostname u @ ''.'' @ GetNamespace mapping) @ '':'' @ Port u\<rparr>) =
      Hostname u @ ''.'' @ GetNamespace mapping" for u1 :: URL
    by (simp add: Hostname_def [of "url_Host_update _ _"] sp)
  show "Hostname (with_namespace mapping u) =
      (if Contains (Hostname u) ''.'' then Hostname u else Hostname u @ ''.'' @ GetNamespace mapping)"
    unfolding with_namespace_def Let_def h using h p by (simp split: if_split)
  have "Port (u1\<lparr>url_Host := (Hostname u @ ''.'' @ GetNamespace mapping) @ '':'' @ Port u\<rparr>) = Port u"
    for u1 :: URL
    by (simp add: Port_def [of "url_Host_update _ _"] sp)
  moreover have "Port (u\<lparr>url_Host := Hostname u @ ''.'' @ GetNamespace mapping\<rparr>) = ''''"
    by (simp add: Port_def [of "url_Host_update _ _"] sp)
  ultimately show "Port (with_namespace mapping u) = Port u"
    unfolding with_namespace_def Let_def h by simp
qed

text \<open>Every entry of the store is filed under the UID of the mapping it refers to.\<close>

definition refs_ok :: "docsRefMap \<Rightarrow> bool" where
  "refs_ok store \<longleftrightarrow> (\<forall>(k, e) \<in> set store. \<exists>r name. ref_UID r = k \<and>
     dr_docMappingRef e = Some \<lparr>dm_Ref = Some r, dm_Name = name\<rparr>)"

lemma set_update_subset_insert: "set (AList.update k v m) \<subseteq> insert (k, v) (set m)"
  by (induction m) auto

lemma refs_ok_add: "refs_ok store \<Longrightarrow> refs_ok (store_add r name doc store)"
  using set_update_subset_insert by (fastforce simp: refs_ok_def store_add_def)

lemma deleteRefUID_subset: "set (deleteRefUID uid store) \<subseteq> set store"
proof -
  have "set (fold (\<lambda>e es. if uid = e then AList.delete e es else es) ks es) \<subseteq> set es" for ks and es :: docsRefMap
  proof (induction ks arbitrary: es)
    case Nil
    then show ?case by simp
  next
    case (Cons k ks)
    from Cons.IH [of "if uid = k then AList.delete k es else es"] show ?case
      by (auto simp: AList.delete_eq split: if_splits)
  qed
  then show ?thesis by (simp add: deleteRefUID_def)
qed

lemma fold_deleteRefUID_subset: "set (fold deleteRefUID uids store) \<subseteq> set store"
proof (induction uids arbitrary: store)
  case Nil
  then show ?case by simp
next
  case (Cons uid uids)
  from Cons.IH [of "deleteRefUID uid store"] deleteRefUID_subset [of uid store] show ?case by auto
qed

lemma refs_ok_scrape_loop:
  "scrape_loop hord get oa ms d store w = Ret (d', store', w') \<Longrightarrow> refs_ok store \<Longrightarrow> refs_ok store'"
proof (induction ms arbitrary: d store w)
  case Nil
  then show ?case by simp
next
  case (Cons m ms)
  obtain docs where docs: "m_Docs m = Some docs" using Cons.prems(1) by (cases "m_Docs m") auto
  from Cons.prems(1) docs obtain r where scr: "scrape_doc hord get oa m docs w = Ret r"
    by (cases "scrape_doc hord get oa m docs w") (auto simp: Let_def)
  obtain doc w1 where r: "r = (doc, w1)" by (cases r)
  let ?store = "case doc of None \<Rightarrow> store | Some x \<Rightarrow> store_add (mapping_ref m) (mapping_displayName m docs) x store"
  from Cons.prems(1) docs scr r obtain d1 where "scrape_loop hord get oa ms d1 ?store w1 = Ret (d', store', w')"
    by (simp add: Let_def)
  moreover have "refs_ok ?store" using Cons.prems(2) refs_ok_add by (cases doc) auto
  ultimately show ?case by (rule Cons.IH)
qed

lemma refs_ok_scrape:
  assumes "scrape ord hord get oa ms a w = Ret (a', w')" and "refs_ok (ds_store a)"
  shows "refs_ok (ds_store a')"
proof -
  from assms(1) obtain t where t: "scrape_loop hord get oa ms (ds_docsDiff a) (ds_store a) w = Ret t"
    by (cases "scrape_loop hord get oa ms (ds_docsDiff a) (ds_store a) w") (auto simp: scrape_def)
  obtain d store w1 where [simp]: "t = (d, store, w1)" by (cases t)
  have "refs_ok store" using t assms(2) refs_ok_scrape_loop by simp
  moreover have "set (ds_store a') \<subseteq> set store"
    using assms(1) t subsetD [OF fold_deleteRefUID_subset] by (auto simp: scrape_def deleteOld_def split: prod.splits)
  ultimately show ?thesis by (auto simp: refs_ok_def)
qed

lemma refs_ok_step:
  assumes "docs_step ord hord sord get oa now sn a w = Ret (a', w')" and "refs_ok (ds_store a)"
  shows "refs_ok (ds_store a')"
proof (cases "scrapes_at sord now sn a")
  case True
  with docs_step_cases [OF assms(1)] have "scrape ord hord get oa (getProcessableMappingsFromSnapshot sn)
      (a\<lparr>ds_DontProcessSnapshotBeforeTime := now + one_minute\<rparr>) w = Ret (a', w')" by simp
  then show ?thesis by (rule refs_ok_scrape) (simp add: assms(2))
next
  case False
  with docs_step_cases [OF assms(1)] assms(2) show ?thesis by simp
qed

lemma refs_ok_run:
  "docs_run ord hord sord get oa calls a w = Ret (a', ts, w') \<Longrightarrow> refs_ok (ds_store a) \<Longrightarrow>
   refs_ok (ds_store a')"
proof (induction calls arbitrary: a w ts)
  case Nil
  then show ?case by simp
next
  case (Cons call calls)
  obtain now sn where call: "call = (now, sn)" by (cases call)
  from Cons.prems(1) obtain a1 w1 where st: "docs_step ord hord sord get oa now sn a w = Ret (a1, w1)"
    by (cases "docs_step ord hord sord get oa now sn a w") (auto simp: call)
  from Cons.prems(1) st obtain ts1 where run: "docs_run ord hord sord get oa calls a1 w1 = Ret (a', ts1, w')"
    by (cases "docs_run ord hord sord get oa calls a1 w1") (auto simp: call)
  from Cons.IH [OF run refs_ok_step [OF st Cons.prems(2)]] show ?case .
qed

text \<open>When a scrape can panic.\<close>

definition documented :: "Mapping list \<Rightarrow> bool" where
  "documented ms \<longleftrightarrow> (\<forall>m \<in> set ms. m_Docs m \<noteq> None)"

text \<open>
  The last answer of the HTTP client in this world was a document with an empty list of servers.
\<close>

definition bad_answer :: "'w http_get \<Rightarrow> ('d, 'e) OpenAPI \<Rightarrow> 'w \<Rightarrow> bool" where
  "bad_answer get oa w' \<longleftrightarrow> (\<exists>url host hs w b doc. get url host hs w = (Inr (Some b), w') \<and>
     parseToOpenAPIV3 oa b = Inr doc \<and> oa_servers oa doc = Some [])"

lemma newOpenAPI_panics:
  "newOpenAPI oa b base pre k = Panic x \<Longrightarrow> \<exists>doc. parseToOpenAPIV3 oa b = Inr doc \<and> oa_servers oa doc = Some []"
  by (auto simp: newOpenAPI_def server_path_def Let_def split: sum.splits option.splits list.splits)

lemma getDoc_panic: "getDoc get oa url host hs pub prefix keep w = Panic w' \<Longrightarrow> bad_answer get oa w'"
  unfolding getDoc_def bad_answer_def
  by (auto split: prod.splits sum.splits option.splits outcome.splits dest!: newOpenAPI_panics) blast

lemma scrape_doc_panic: "scrape_doc hord get oa m docs w = Panic w' \<Longrightarrow> bad_answer get oa w'"
  by (auto simp: scrape_doc_def Let_def split: if_splits sum.splits dest: getDoc_panic)

lemma scrape_loop_panic:
  "scrape_loop hord get oa ms d store w = Panic w' \<Longrightarrow> \<forall>m \<in> set ms. m_Docs m \<noteq> None \<Longrightarrow>
   bad_answer get oa w'"
proof (induction ms arbitrary: d store w)
  case Nil
  then show ?case by simp
next
  case (Cons m ms)
  obtain docs where docs: "m_Docs m = Some docs" using Cons.prems(2) by auto
  show ?case
  proof (cases "scrape_doc hord get oa m docs w")
    case (Panic w1)
    with Cons.prems(1) docs have "w1 = w'" by simp
    with scrape_doc_panic [OF Panic] show ?thesis by simp
  next
    case (Ret r)
    obtain doc w1 where "r = (doc, w1)" by (cases r)
    with Cons.prems docs Ret Cons.IH show ?thesis by (auto simp: Let_def)
  qed
qed

lemma scrape_panic_cause:
  assumes "scrape ord hord get oa ms a w = Panic w'" and "\<forall>m \<in> set ms. m_Docs m \<noteq> None"
  shows "bad_answer get oa w'"
proof -
  from assms(1) have "scrape_loop hord get oa ms (ds_docsDiff a) (ds_store a) w = Panic w'"
    by (cases "scrape_loop hord get oa ms (ds_docsDiff a) (ds_store a) w")
      (auto simp: scrape_def split: prod.splits)
  from scrape_loop_panic [OF this assms(2)] show ?thesis .
qed

lemma processable_docs:
  "m \<in> set (getProcessableMappingsFromSnapshot sn) \<Longrightarrow> m_Docs m \<noteq> None"
  by (auto simp: getProcessableMappingsFromSnapshot_def getProcessable_docs split: option.splits)

lemma toAPIDocs_refs:
  "refs_ok store \<Longrightarrow> doc \<in> set (toAPIDocs (map snd es)) \<Longrightarrow> set es \<subseteq> set store \<Longrightarrow>
   \<exists>r. ad_TargetRef doc = Some r \<and> ref_UID r \<in> fst ` set store"
proof (induction es)
  case Nil
  then show ?case by simp
next
  case (Cons e es)
  obtain k v where e: "e = (k, v)" by (cases e)
  have "(k, v) \<in> set store" using Cons.prems(3) e by simp
  with Cons.prems(1) obtain r name where r: "ref_UID r = k"
      "dr_docMappingRef v = Some \<lparr>dm_Ref = Some r, dm_Name = name\<rparr>"
    by (auto simp: refs_ok_def)
  have "k \<in> fst ` set store" using \<open>(k, v) \<in> set store\<close> by force
  with Cons r e show ?case by (auto split: option.splits)
qed

section \<open>Properties\<close>

definition uids_of :: "Snapshot option \<Rightarrow> string set" where
  "uids_of snapshot = (\<lambda>m. GetUID m) ` set (getProcessableMappingsFromSnapshot snapshot)"


definition sample_oa :: "(byte list, unit) OpenAPI" where
  "sample_oa = \<lparr>oa_load = Inr, oa_validate = (\<lambda>d. None), oa_unmarshal2 = (\<lambda>b. Inr ()),
     oa_toV3 = (\<lambda>e. Inr []), oa_servers = (\<lambda>d. None), oa_set_server = (\<lambda>url d. d), oa_marshal = Inr\<rparr>"

definition sample_docs :: MappingDocs where
  "sample_docs = \<lparr>md_Path = ''d'', md_URL = '''', md_DisplayName = '''', md_Ignored = None\<rparr>"

definition sample_mapping :: Mapping where
  "sample_mapping = \<lparr>ko_Kind = ''Mapping'', ko_APIVersion = ''v3alpha1'',
     ko_Meta = \<lparr>om_Name = ''m'', om_Namespace = ''ns'', om_UID = ''u'', om_ResourceVersion = ''1'',
       om_CreationTimestamp = '''', om_ManagedFields = [], om_Rest = ''''\<rparr>,
     m_Hostname = ''h'', m_DeprecatedHost = '''', m_Prefix = ''/p'', m_Service = ''svc:80'',
     m_Rewrite = None, m_Headers = [], m_Docs = Some sample_docs\<rparr>"

definition sample_docs_snapshot :: Snapshot where
  "sample_docs_snapshot = \<lparr>sn_AmbassadorMeta = None,
     sn_Kubernetes = Some (empty_kubernetes\<lparr>ks_Mappings := [Some sample_mapping, None]\<rparr>),
     sn_APIDocs = [], sn_Rest = ''''\<rparr>"

text \<open>A client that records the addresses it is asked for.\<close>

definition sample_get :: "string http_get" where
  "sample_get u h hs w = (Inr (Some [1, 2]), w @ url_String u)"

definition sample_docs_run :: "(int \<times> Snapshot option) list \<Rightarrow> (string, APIDocsStore \<times> int list \<times> string) outcome" where
  "sample_docs_run calls = docs_run (\<lambda>xs. xs) (\<lambda>xs. xs) (\<lambda>xs. xs) sample_get sample_oa calls NewAPIDocsStore ''''"

definition sample_docs_store :: APIDocsStore where
  "sample_docs_store = (case sample_docs_run [(0, Some sample_docs_snapshot)] of
     Ret (a, ts, w) \<Rightarrow> a | Panic w \<Rightarrow> NewAPIDocsStore)"


text \<open>
  However many snapshots arrive and however fast, two scrapes start at least one minute apart.
\<close>

theorem scrape_at_most_once_per_minute:
  assumes "docs_run ord hord sord get oa calls NewAPIDocsStore w = Ret (a, ts, w')"
  shows "sorted_wrt (\<lambda>s t. s + one_minute \<le> t) ts"
  by (rule conjunct1 [OF docs_run_spaced [OF assms]])

lemma scrape_at_most_once_per_minute_witness:
  "\<exists>a ts w. sample_docs_run [(5, Some sample_docs_snapshot), (6, Some sample_docs_snapshot),
      (60000000005, Some sample_docs_snapshot)] = Ret (a, ts, w) \<and>
    ts = [5, 60000000005] \<and> sorted_wrt (\<lambda>s t. s + one_minute \<le> t) ts"
proof -
  let ?calls = "[(5, Some sample_docs_snapshot), (6, Some sample_docs_snapshot),
      (60000000005, Some sample_docs_snapshot)]"
  have "(case sample_docs_run ?calls of Ret (a, ts, w) \<Rightarrow> ts = [5, 60000000005] | Panic w \<Rightarrow> False)"
    by code_simp
  then obtain a w where run: "sample_docs_run ?calls = Ret (a, [5, 60000000005], w)"
    by (auto split: outcome.splits prod.splits)
  from scrape_at_most_once_per_minute [OF run [unfolded sample_docs_run_def]] run show ?thesis by blast
qed

text \<open>
  The address a document is fetched from has a scheme and a host name with a dot: the host
  name found in the service of the mapping, followed by the namespace of the mapping when it has
  no dot of its own. The port is the one of the service.
\<close>

theorem docs_url_usable:
  assumes "extractQueryableDocsURL mapping docs = Inr u"
    and "CHR '':'' \<notin> set (GetNamespace mapping)" and "CHR '']'' \<notin> set (GetNamespace mapping)"
  shows "\<exists>u0. Parse (m_Service mapping @ docs_path mapping docs) = Inr u0 \<and>
    (let h = with_host mapping (docs_path mapping docs) u0 in
     url_Scheme u = (if url_Scheme h = '''' then ''http'' else url_Scheme h) \<and> Port u = Port h \<and>
     Hostname u = (if Contains (Hostname h) ''.'' then Hostname h
                   else Hostname h @ ''.'' @ GetNamespace mapping) \<and>
     Contains (Hostname u) ''.'')"
proof -
  from assms(1) obtain u0 where u0: "Parse (m_Service mapping @ docs_path mapping docs) = Inr u0"
    and u: "u = with_scheme (with_namespace mapping (with_host mapping (docs_path mapping docs) u0))"
    by (auto simp: extractQueryableDocsURL_def Let_def split: sum.splits)
  let ?h = "with_host mapping (docs_path mapping docs) u0"
  have s: "url_Scheme (with_namespace mapping ?h) = url_Scheme ?h"
    by (simp add: with_namespace_def Let_def)
  have "Hostname u = Hostname (with_namespace mapping ?h)" "Port u = Port (with_namespace mapping ?h)"
    "url_Scheme u = (if url_Scheme ?h = '''' then ''http'' else url_Scheme ?h)"
    by (simp_all add: u with_scheme_def Hostname_def Port_def s)
  with with_namespace_host [OF assms(2,3)] u0 show ?thesis
    by (auto simp: Let_def Contains_dot)
qed

lemma docs_url_usable_witness:
  "\<exists>u. extractQueryableDocsURL sample_mapping sample_docs = Inr u \<and>
     url_Scheme u = ''http'' \<and> Port u = ''80'' \<and> Hostname u = ''svc.ns'' \<and> Contains (Hostname u) ''.''"
proof -
  have "(case extractQueryableDocsURL sample_mapping sample_docs of Inl e \<Rightarrow> False | Inr u \<Rightarrow>
      url_Scheme u = ''http'' \<and> Port u = ''80'' \<and> Hostname u = ''svc.ns'')" by code_simp
  then obtain u where u: "extractQueryableDocsURL sample_mapping sample_docs = Inr u"
      "url_Scheme u = ''http''" "Port u = ''80''" "Hostname u = ''svc.ns''"
    by (auto split: sum.splits)
  from docs_url_usable [OF u(1)] have "Contains (Hostname u) ''.''"
    by (auto simp: sample_mapping_def Let_def)
  with u show ?thesis by auto
qed

text \<open>
  Reading a fetched document panics exactly when the document parses but has an empty list
  of servers that is not nil; no other content of a document can bring the agent down.
\<close>

theorem newOpenAPI_returns_iff:
  "returns (newOpenAPI oa docBytes baseURL prefix keepExistingPrefix) \<longleftrightarrow>
     (case parseToOpenAPIV3 oa docBytes of Inl err \<Rightarrow> True | Inr doc \<Rightarrow> oa_servers oa doc \<noteq> Some [])"
proof -
  have sp: "server_path s = None \<longleftrightarrow> s = Some []" for s
    by (auto simp: server_path_def split: option.splits list.splits sum.splits)
  show ?thesis
  proof (cases "parseToOpenAPIV3 oa docBytes")
    case (Inl err)
    then show ?thesis by (simp add: newOpenAPI_def)
  next
    case (Inr doc)
    show ?thesis
    proof (cases "server_path (oa_servers oa doc)")
      case None
      then show ?thesis using Inr sp [of "oa_servers oa doc"] by (simp add: newOpenAPI_def)
    next
      case (Some p)
      then have "oa_servers oa doc \<noteq> Some []" using sp [of "oa_servers oa doc"] by auto
      with Some Inr show ?thesis by (auto simp: newOpenAPI_def Let_def split: sum.splits)
    qed
  qed
qed

end
