(* ===== verification/Crash_Correct.thy ===== *)
theory Crash_Correct
  imports System_Correct Docs_Correct
begin

text \<open>
  Which states of the running agent can panic, and only those: the invariant that every pending
  scrape holds documented mappings and that the watchers of the constructor stay in place, and
  the causes of a panic that remain.
\<close>

section \<open>How the process can crash\<close>

lemma docs_process_cases:
  assumes "APIDocs_ProcessSnapshot ord hord sord get oa now snapshot a w = r"
  shows "(case r of
      Panic w' \<Rightarrow> bad_answer get oa w'
    | Ret (a', later, w') \<Rightarrow> \<forall>ms. later = Some ms \<longrightarrow> (\<forall>m \<in> set ms. m_Docs m \<noteq> None))"
proof -
  obtain a1 plan where plan: "plan_ProcessSnapshot sord now snapshot a = (a1, plan)" by fastforce
  then have shape: "plan = NoScrape \<or> plan = ScrapeNow (getProcessableMappingsFromSnapshot snapshot) \<or>
      plan = ScrapeLater (getProcessableMappingsFromSnapshot snapshot)"
    by (auto simp: plan_ProcessSnapshot_def Let_def split: if_splits)
  show ?thesis
  proof (cases plan)
    case NoScrape
    with assms plan show ?thesis by (auto simp: APIDocs_ProcessSnapshot_def)
  next
    case (ScrapeLater ms)
    with assms plan shape processable_docs show ?thesis by (fastforce simp: APIDocs_ProcessSnapshot_def)
  next
    case (ScrapeNow ms)
    with shape have docs: "\<forall>m \<in> set ms. m_Docs m \<noteq> None" using processable_docs by blast
    show ?thesis
    proof (cases "scrape ord hord get oa ms a1 w")
      case (Ret p)
      with assms plan ScrapeNow show ?thesis by (auto simp: APIDocs_ProcessSnapshot_def split: prod.splits)
    next
      case (Panic w1)
      then have "r = Panic w1" using assms plan ScrapeNow by (simp add: APIDocs_ProcessSnapshot_def)
      with scrape_panic_cause [OF Panic docs] show ?thesis by simp
    qed
  qed
qed

text \<open>The causes, each of which is an input from outside or a race.\<close>

definition bad_document :: "('w, 'd, 'e) AgentCalls \<Rightarrow> 'w \<Rightarrow> bool" where
  "bad_document ac w \<longleftrightarrow> bad_answer (ac_docs_Get ac) (ac_openapi ac) w"

definition bad_ingress :: "'w FallbackWatchers \<Rightarrow> bool" where
  "bad_ingress fw \<longleftrightarrow> (\<exists>s. \<not> returns (ingress_List (fw_ingressWatchers fw) s))"

lemma load_docs_cases:
  "(case load_docs ac now a sn w of
      Panic w' \<Rightarrow> bad_document ac w'
    | Ret (a', sn', later, w') \<Rightarrow> ag_fallbackWatcher a' = ag_fallbackWatcher a \<and>
        ag_coreWatchers a' = ag_coreWatchers a \<and>
        (\<forall>ms. later = Some ms \<longrightarrow> (\<forall>m \<in> set ms. m_Docs m \<noteq> None)))"
proof (cases "ag_apiDocsStore a")
  case None
  then show ?thesis by (simp add: load_docs_def)
next
  case (Some ds)
  note c = docs_process_cases [OF refl, where ord = "ac_doc_range ac" and hord = "ac_header_range ac"
      and sord = "ac_store_range ac" and get = "ac_docs_Get ac" and oa = "ac_openapi ac" and now = now
      and snapshot = "Some sn" and a = ds and w = w]
  show ?thesis
  proof (cases "APIDocs_ProcessSnapshot (ac_doc_range ac) (ac_header_range ac) (ac_store_range ac)
      (ac_docs_Get ac) (ac_openapi ac) now (Some sn) ds w")
    case (Ret p)
    obtain ds' later w1 where "p = (ds', later, w1)" by (cases p)
    with Ret c Some show ?thesis by (simp add: load_docs_def)
  next
    case (Panic w1)
    with c Some show ?thesis by (simp add: load_docs_def bad_document_def)
  qed
qed

lemma load_watchers_panic:
  assumes "load_watchers a sn w = Panic w'" and "ag_fallbackWatcher a = Some fw" and "sn_Kubernetes sn \<noteq> None"
  shows "\<not> ag_emissaryPresent a \<and> bad_ingress fw"
proof (rule ccontr)
  assume n: "\<not> (\<not> ag_emissaryPresent a \<and> bad_ingress fw)"
  obtain k where k: "sn_Kubernetes sn = Some k" using assms(3) by blast
  have core: False if "CoreWatchers_LoadSnapshot cw (sn\<lparr>sn_Kubernetes := Some k1\<rparr>) w1 = Panic w2"
    for cw :: "'a CoreWatchers" and k1 w1 w2
    using core.load_total [of "sn\<lparr>sn_Kubernetes := Some k1\<rparr>" cw w1] that by simp
  show False
  proof (cases "ag_emissaryPresent a")
    case True
    have sn: "sn\<lparr>sn_Kubernetes := Some k\<rparr> = sn" using k by (cases sn) simp
    from True assms(1,2) obtain cw where "CoreWatchers_LoadSnapshot cw sn w = Panic w'"
      by (auto simp: load_watchers_def split: option.splits)
    with core [of cw k w w'] sn show False by simp
  next
    case False
    with n have "\<And>s. returns (ingress_List (fw_ingressWatchers fw) s)" by (simp add: bad_ingress_def)
    from fallback_returns [OF this assms(3), of w] obtain sn1 w1 where
      f: "FallbackWatchers_LoadSnapshot fw sn w = Ret (sn1, w1)" by (auto simp: returns_iff)
    then obtain k1 where sn1: "sn1 = sn\<lparr>sn_Kubernetes := Some k1\<rparr>" using fallback.load_frame [OF f] by blast
    from False f assms(1,2) obtain cw where "CoreWatchers_LoadSnapshot cw sn1 w1 = Panic w'"
      by (auto simp: load_watchers_def split: option.splits)
    with core [of cw k1 w1 w'] sn1 show False by simp
  qed
qed

text \<open>The watchers of the agent are the ones of its constructor.\<close>

definition same_watchers :: "'w Agent \<Rightarrow> 'w Agent \<Rightarrow> bool" where
  "same_watchers a a' \<longleftrightarrow> ag_fallbackWatcher a' = ag_fallbackWatcher a \<and> ag_coreWatchers a' = ag_coreWatchers a"

lemma only_settings_watchers:
  assumes "only_settings a a'"
  shows "ag_fallbackWatcher a' = ag_fallbackWatcher a" and "ag_coreWatchers a' = ag_coreWatchers a"
  by (subst assms [unfolded only_settings_def], simp)+

lemma finish_snapshot_watchers: "same_watchers a (fst (finish_snapshot ac now i a sn))"
  by (simp add: finish_snapshot_def same_watchers_def Let_def split: prod.splits option.splits sum.splits)

lemma get_snapshot_watchers: "get_snapshot ac a w = (a', sn, w') \<Longrightarrow>
    same_watchers a a' \<and> ag_emissaryPresent a' = ag_emissaryPresent a"
  by (auto simp: get_snapshot_def same_watchers_def Let_def split: if_splits prod.splits)

lemma load_argo_k: "sn_Kubernetes sn \<noteq> None \<Longrightarrow> sn_Kubernetes (load_argo ord a sn) \<noteq> None"
  by (auto simp: load_argo_def Let_def split: option.splits)

lemma ProcessSnapshot_cases:
  assumes fw: "ag_fallbackWatcher a = Some fw"
  shows "(case ProcessSnapshot ac now a snapshot w of
      Panic p \<Rightarrow> bad_document ac (snd p) \<or> \<not> ag_emissaryPresent a \<and> bad_ingress fw
    | Ret (a', later, err, w') \<Rightarrow> same_watchers a a' \<and> (\<forall>ms. later = Some ms \<longrightarrow> documented ms))"
proof (cases "\<exists>sn i. snapshot = Some sn \<and>
    GetIdentity (sn_AmbassadorMeta sn) (Hostname (AESSnapshotURL a)) = Some i")
  case False
  then have "ProcessSnapshot ac now a snapshot w = Ret (a, None, None, w)"
    by (auto simp: ProcessSnapshot_def split: option.splits)
  then show ?thesis by (simp add: same_watchers_def)
next
  case True
  then obtain sn i where sn: "snapshot = Some sn"
    and i: "GetIdentity (sn_AmbassadorMeta sn) (Hostname (AESSnapshotURL a)) = Some i" by blast
  let ?a1 = "a\<lparr>ag_agentID := Some i\<rparr>"
  have finish: "\<exists>a' e. finish_snapshot ac now i a2 s2 = (a', e) \<and> same_watchers a2 a'" for a2 :: "'a Agent" and s2
    using finish_snapshot_watchers [of a2 ac now i s2] by (cases "finish_snapshot ac now i a2 s2") auto
  show ?thesis
  proof (cases "sn_Kubernetes sn = None")
    case True
    obtain a' e where "finish_snapshot ac now i ?a1 sn = (a', e)" "same_watchers ?a1 a'"
      using finish by blast
    with True show ?thesis by (simp add: ProcessSnapshot_def sn i Let_def same_watchers_def)
  next
    case False
    then have nk: "(sn_Kubernetes sn = None) = False" by simp
    show ?thesis
    proof (cases "load_watchers ?a1 sn w")
      case (Panic w1)
      have "ag_fallbackWatcher ?a1 = Some fw" using fw by simp
      from load_watchers_panic [OF Panic this False] have "\<not> ag_emissaryPresent a \<and> bad_ingress fw" by simp
      moreover have "ProcessSnapshot ac now a snapshot w = Panic (?a1, w1)"
        by (simp only: ProcessSnapshot_def sn i option.case Let_def nk if_False Panic at_agent.simps bind_outcome.simps)
      ultimately show ?thesis by simp
    next
      case (Ret p)
      note load = Ret
      obtain sn1 w1 where p: "p = (sn1, w1)" by (cases p)
      let ?sn1 = "load_argo (ac_uid_range ac) ?a1 sn1"
      have c: "(case load_docs ac now ?a1 ?sn1 w1 of
          Panic w' \<Rightarrow> bad_document ac w'
        | Ret (a', sn', later, w') \<Rightarrow> ag_fallbackWatcher a' = ag_fallbackWatcher ?a1 \<and>
            ag_coreWatchers a' = ag_coreWatchers ?a1 \<and>
            (\<forall>ms. later = Some ms \<longrightarrow> (\<forall>m \<in> set ms. m_Docs m \<noteq> None)))"
        by (rule load_docs_cases)
      show ?thesis
      proof (cases "load_docs ac now ?a1 ?sn1 w1")
        case (Panic w2)
        have "ProcessSnapshot ac now a snapshot w = Panic (?a1, w2)"
          by (simp only: ProcessSnapshot_def sn i option.case Let_def nk if_False Ret p prod.case at_agent.simps bind_outcome.simps Panic)
        with c Panic show ?thesis by simp
      next
        case (Ret q)
        obtain a2 sn2 later w2 where q: "q = (a2, sn2, later, w2)" by (cases q)
        obtain a' e where f: "finish_snapshot ac now i a2 sn2 = (a', e)" "same_watchers a2 a'"
          using finish by blast
        have "ProcessSnapshot ac now a snapshot w = Ret (a', later, e, w2)"
          by (simp only: ProcessSnapshot_def sn i option.case Let_def nk if_False load p prod.case
              at_agent.simps bind_outcome.simps Ret q f(1))
        with c Ret q f(2) show ?thesis by (simp add: same_watchers_def documented_def)
      qed
    qed
  qed
qed

lemma watch_snapshot_cases:
  assumes fw: "ag_fallbackWatcher a = Some fw"
  shows "(case watch_snapshot ac now a w of
      Panic p \<Rightarrow> bad_document ac (snd p) \<or> \<not> ag_emissaryPresent a \<and> bad_ingress fw
    | Ret (a', later, w') \<Rightarrow> same_watchers a a' \<and> (\<forall>ms. later = Some ms \<longrightarrow> documented ms))"
proof (cases "\<not> ag_reportingStopped a \<and> \<not> ag_reportRunning a")
  case False
  then have "watch_snapshot ac now a w = Ret (a, None, w)" by (auto simp: watch_snapshot_def)
  then show ?thesis by (simp add: same_watchers_def)
next
  case True
  obtain a1 sn w1 where g: "get_snapshot ac a w = (a1, sn, w1)" using prod_cases3 by blast
  note f = get_snapshot_watchers [OF g]
  from f fw have "ag_fallbackWatcher a1 = Some fw" by (simp add: same_watchers_def)
  note c = ProcessSnapshot_cases [OF this, of ac now sn w1]
  show ?thesis
  proof (cases "ProcessSnapshot ac now a1 sn w1")
    case (Panic p)
    with True g f c show ?thesis by (simp add: watch_snapshot_def)
  next
    case (Ret p)
    obtain a' later err w' where "p = (a', later, err, w')" by (cases p)
    with True g f c Ret show ?thesis by (auto simp: watch_snapshot_def same_watchers_def)
  qed
qed

lemma watch_select_cases:
  assumes fw: "ag_fallbackWatcher a = Some fw"
  shows "(case watch_select ac ev a w of
      Panic p \<Rightarrow> (\<exists>d a1. take_directive a = Some (d, a1) \<and>
        (ag_comm a = None \<or> \<not> no_nil_command d \<or> factory_panic (ag_directiveHandler a) (snd p)))
    | Ret (a', w') \<Rightarrow> same_watchers a a')"
proof (cases ev)
  case Tick
  then show ?thesis by (simp add: watch_select_def same_watchers_def)
next
  case ConfigChanged
  obtain a' w' where h: "handleAPIKeyConfigChange ac a w = (a', w')" by fastforce
  with handleAPIKeyConfigChange_agent [of ac a w] have "a' = maybeResetComm (desired_key ac a w) a" by simp
  with ConfigChanged h show ?thesis
    by (simp add: watch_select_def same_watchers_def maybeResetComm_def ClearComm_def split: option.splits)
next
  case EndpointsChanged
  with fw show ?thesis
    by (simp add: watch_select_def handleAmbassadorEndpointChange_def same_watchers_def Let_def
        split: prod.splits)
next
  case DirectiveReady
  show ?thesis
  proof (cases "take_directive a")
    case None
    with DirectiveReady show ?thesis by (simp add: watch_select_def same_watchers_def)
  next
    case (Some p)
    obtain d a1 where p: "p = (d, a1)" by fastforce
    note t = take_directive_frame [OF Some [unfolded p]]
    have w1: "same_watchers a a1" using Some p
      by (auto simp: take_directive_def same_watchers_def split: option.splits list.splits)
    show ?thesis
    proof (cases "HandleDirective (ac_handler ac) (ag_directiveHandler a1) a1 d w")
      case (Ret q)
      obtain a' w' where q: "q = (a', w')" by (cases q)
      from basic.frame [OF Ret [unfolded q]] have "only_settings a1 a'" .
      then have "same_watchers a1 a'" by (simp add: same_watchers_def only_settings_watchers)
      with w1 have "same_watchers a a'" by (simp add: same_watchers_def)
      with Ret q Some p DirectiveReady show ?thesis by (simp add: watch_select_def)
    next
      case (Panic q)
      with HandleDirective_panic [of "ac_handler ac" "ag_directiveHandler a1" a1 d w "fst q" "snd q"] t
      have "ag_comm a = None \<or> \<not> no_nil_command d \<or> factory_panic (ag_directiveHandler a) (snd q)"
        by (simp add: same_reporting_def)
      with Some p Panic DirectiveReady show ?thesis by (simp add: watch_select_def)
    qed
  qed
qed

lemma handleAPIKey_watchers: "same_watchers a (fst (handleAPIKeyConfigChange ac a w))"
  by (simp add: handleAPIKeyConfigChange_agent same_watchers_def maybeResetComm_def ClearComm_def split: option.splits)

lemma wait_loop_watchers: "wait_loop ac evs a w = Some (a', w') \<Longrightarrow> same_watchers a a'"
proof (induction ac evs a w rule: wait_loop.induct)
  case (1 ac evs a w)
  show ?case
  proof (cases "AmbassadorAPIKey a = ''''")
    case False
    with 1 show ?thesis by (simp add: wait_loop.simps [of ac evs] same_watchers_def)
  next
    case True
    show ?thesis
    proof (cases evs)
      case Nil
      with 1 True show ?thesis by (simp add: wait_loop.simps [of ac "[]"])
    next
      case (Cons e es)
      obtain a1 w1 where h: "handleAPIKeyConfigChange ac a w = (a1, w1)" by fastforce
      with handleAPIKey_watchers [of a ac w] have "same_watchers a a1" by simp
      with 1 True Cons h show ?thesis
        by (cases e) (auto simp: wait_loop.simps [of ac "e # es" for e] same_watchers_def)
    qed
  qed
qed

definition crash_inv :: "'w FallbackWatchers \<Rightarrow> 'w Sys \<Rightarrow> bool" where
  "crash_inv fw s \<longleftrightarrow> ag_fallbackWatcher (sy_agent s) = Some fw \<and> (\<forall>ms \<in> set (sy_scrapes s). documented ms)"

lemma boot_crash_inv:
  assumes "boot ac evs a w now = Some s" and "ag_fallbackWatcher a = Some fw"
  shows "crash_inv fw s"
proof -
  from assms(1) obtain a1 w1 where st: "Watch_start ac evs a w = Ret (Some (a1, w1))"
    and s: "sy_agent s = a1" "sy_scrapes s = []"
    by (auto simp: boot_def split: outcome.splits option.splits)
  from st obtain a2 w2 where wk: "waitForAPIKey ac evs a w = Some (a2, w2)"
    by (auto simp: Watch_start_def split: option.splits)
  obtain a3 w3 where h: "handleAPIKeyConfigChange ac a w = (a3, w3)" by fastforce
  with wk have "wait_loop ac evs a3 w3 = Some (a2, w2)" by (simp add: waitForAPIKey_def)
  from wait_loop_watchers [OF this] handleAPIKey_watchers [of a ac w] h assms(2)
  have "ag_fallbackWatcher a2 = Some fw" by (simp add: same_watchers_def)
  moreover from st wk obtain cw b w4 where "ag_coreWatchers a2 = Some cw"
    "handleAmbassadorEndpointChange ac (Hostname (AESSnapshotURL a2)) a2 (CoreWatchers_EnsureStarted cw w2) = Ret (b, w4)"
    "a1 = b\<lparr>ag_apiDocsStore := Some NewAPIDocsStore\<rparr>"
    by (auto simp: Watch_start_def bind_outcome_Ret_iff split: option.splits)
  ultimately have "ag_fallbackWatcher a1 = Some fw"
    by (auto simp: handleAmbassadorEndpointChange_def Let_def split: prod.splits)
  with s show ?thesis by (simp add: crash_inv_def)
qed

lemma watch_comm_watchers: "watch_comm ac a w = (go, a', w') \<Longrightarrow> same_watchers a a'"
  by (auto simp: watch_comm_def same_watchers_def Let_def split: if_splits option.splits sum.splits prod.splits)

lemma watch_report_watchers: "watch_report a = (a', job) \<Longrightarrow> same_watchers a a'"
  by (auto simp: watch_report_def ReportSnapshot_def same_watchers_def split: if_splits option.splits)

lemma watch_diagnostics_watchers: "watch_diagnostics ac now a w = (a', job, w') \<Longrightarrow> same_watchers a a'"
  by (auto simp: watch_diagnostics_def ReportDiagnostics_def ProcessDiagnostics_def same_watchers_def Let_def
      split: if_splits option.splits sum.splits prod.splits)

lemma opt_list_documented:
  "\<forall>ms. later = Some ms \<longrightarrow> documented ms \<Longrightarrow> ms \<in> set (opt_list later) \<Longrightarrow> documented ms"
  by (auto simp: opt_list_def split: option.splits)

lemma step_crash_inv:
  assumes "sys_step ac s s'" and inv: "crash_inv fw s"
  shows "crash_inv fw s'"
proof -
  have fw: "ag_fallbackWatcher (sy_agent s) = Some fw" using inv by (simp add: crash_inv_def)
  show ?thesis using assms(1)
  proof cases
    case (select ev a' w')
    with watch_select_cases [OF fw, of ac ev "sy_world s"] inv show ?thesis
      by (simp add: crash_inv_def same_watchers_def)
  next
    case (snapshot a' later w')
    with watch_snapshot_cases [OF fw, of ac "sy_now s" "sy_world s"] inv show ?thesis
      by (auto simp: crash_inv_def same_watchers_def dest: opt_list_documented)
  next
    case (comm go a' w')
    with watch_comm_watchers [OF comm(4)] inv show ?thesis by (simp add: crash_inv_def same_watchers_def)
  next
    case (report a' job)
    with watch_report_watchers [OF report(4)] inv show ?thesis by (simp add: crash_inv_def same_watchers_def)
  next
    case (diagnostics a' djob w')
    with watch_diagnostics_watchers [OF diagnostics(4)] inv show ?thesis
      by (simp add: crash_inv_def same_watchers_def)
  next
    case (report_begin xs job ys a' w')
    from report_job_send_agent [OF report_begin(4)] report_begin(1) inv show ?thesis by (auto simp: crash_inv_def)
  next
    case (diags_begin dxs djob dys a' w')
    from diagnostics_job_send_agent [OF diags_begin(4)] diags_begin(1) inv show ?thesis by (auto simp: crash_inv_def)
  qed (use inv in \<open>auto simp: crash_inv_def\<close>)
qed

text \<open>What can be wrong in a state whose next step panics in the world \<open>w\<close>.\<close>

definition crash_cause ::
  "('w, 'd, 'e) AgentCalls \<Rightarrow> 'w FallbackWatchers \<Rightarrow> 'w Sys \<Rightarrow> 'w \<Rightarrow> bool" where
  "crash_cause ac fw t w \<longleftrightarrow>
     (sy_pc t = PSelect \<and> (\<exists>d a. take_directive (sy_agent t) = Some (d, a) \<and>
        (ag_comm (sy_agent t) = None \<or> \<not> no_nil_command d \<or>
         factory_panic (ag_directiveHandler (sy_agent t)) w))) \<or>
     (sy_pc t = PSnapshot \<and> \<not> ag_emissaryPresent (sy_agent t) \<and> bad_ingress fw) \<or>
     (bad_document ac w \<and> (sy_pc t = PSnapshot \<or> sy_scrapes t \<noteq> [])) \<or>
     (ag_comm (sy_agent t) = None \<and>
        ((\<exists>j. Started j \<in> set (sy_reports t)) \<or> (\<exists>j. Started j \<in> set (sy_diags t))))"

lemma job_send_panic:
  "report_job_send ac job a w = Panic p \<Longrightarrow> ag_comm a = None"
  "diagnostics_job_send ac djob a w = Panic p \<Longrightarrow> ag_comm a = None"
  by (auto simp: report_job_send_def diagnostics_job_send_def split: option.splits prod.splits)

text \<open>
  C13: The process panics for four reasons only: a directive with a nil command, one handled while
  the connection is cleared, or one with a secret command whose client cannot be made; an ingress
  without the parts the resolver dereferences, when emissary is absent; an answer of the HTTP
  client that is an OpenAPI document with an empty list of servers, during a scrape; and a started
  report or diagnostics goroutine that finds the connection cleared.
\<close>

theorem crash_causes:
  assumes "boot ac evs (main_agent rf sf cw fw domain env) w now = Some s"
    and "reach ac s t" and "sys_step ac t u" and "sy_crashed u"
  shows "crash_cause ac fw t (sy_world u)"
proof -
  have "ag_fallbackWatcher (main_agent rf sf cw fw domain env) = Some fw"
    by (simp add: main_agent_def SetReportDiagnosticsAllowed_def NewAgent_def Env.defs)
  from boot_crash_inv [OF assms(1) this] have "crash_inv fw t"
    by (rule reach_invariant [OF assms(2)]) (rule step_crash_inv)
  then have fw: "ag_fallbackWatcher (sy_agent t) = Some fw" and docs: "\<forall>ms \<in> set (sy_scrapes t). documented ms"
    by (simp_all add: crash_inv_def)
  note nc = step_not_crashed [OF assms(3)]
  show ?thesis using assms(3)
  proof cases
    case (select_panic ev a' w')
    with watch_select_cases [OF fw, of ac ev "sy_world t"] show ?thesis by (simp add: crash_cause_def)
  next
    case (snapshot_panic a' w')
    with watch_snapshot_cases [OF fw, of ac "sy_now t" "sy_world t"] show ?thesis
      by (auto simp: crash_cause_def)
  next
    case (report_panic xs job ys a' w')
    with job_send_panic(1) show ?thesis by (fastforce simp: crash_cause_def)
  next
    case (diags_panic dxs djob dys a' w')
    with job_send_panic(2) show ?thesis by (fastforce simp: crash_cause_def)
  next
    case (scrape_panic mxs ms mys ds w')
    with docs have "documented ms" by simp
    with scrape_panic_cause [OF scrape_panic(5)] scrape_panic show ?thesis
      by (auto simp: crash_cause_def bad_document_def documented_def)
  qed (use nc assms(4) in simp_all)
qed

text \<open>The key changes between the start of a report goroutine and its first statement.\<close>

definition race_choices :: "byte list choice list" where
  "race_choices = round_choices @ [Outside [], Watch_select ConfigChanged]"

lemma race_run:
  obtains t u where "reach sample_calls sample_start t" "sys_step sample_calls t u" "sy_crashed u"
    "ag_comm (sy_agent t) = None"
proof -
  have "(case exec_run sample_calls race_choices sample_start of None \<Rightarrow> False
    | Some t \<Rightarrow> \<not> sy_crashed t \<and> ag_comm (sy_agent t) = None \<and>
        (case exec sample_calls Report_begin t of None \<Rightarrow> False | Some u \<Rightarrow> sy_crashed u))"
    unfolding race_choices_def round_choices_def append.simps by code_simp
  then obtain t u where "exec_run sample_calls race_choices sample_start = Some t" "\<not> sy_crashed t"
    "exec sample_calls Report_begin t = Some u" "sy_crashed u" "ag_comm (sy_agent t) = None"
    by (auto simp del: exec.simps exec_run.simps split: option.splits)
  with exec_run_sound exec_sound that show thesis by blast
qed

lemma crash_causes_witness:
  "\<exists>t u. reach sample_calls sample_start t \<and> sys_step sample_calls t u \<and> sy_crashed u \<and>
     ag_comm (sy_agent t) = None \<and> crash_cause sample_calls sample_fallback t (sy_world u)"
proof -
  obtain t u where r: "reach sample_calls sample_start t" "sys_step sample_calls t u" "sy_crashed u"
    "ag_comm (sy_agent t) = None" by (rule race_run)
  from crash_causes [OF sample_boot [unfolded sample_agent_def] r(1-3)] r show ?thesis by blast
qed

end
