(* ===== verification/Report_Content.thy ===== *)
theory Report_Content
  imports System_Correct
begin

text \<open>
  What leaves the cluster: the content of the reports and diagnostics in flight, in every
  reachable state of the running agent.
\<close>

section \<open>The content of a report\<close>

text \<open>
  A report holds what the serialiser made of a sanitized snapshot, under an identity with a
  cluster ID, and a time that has passed. A diagnostics report holds serialised diagnostics.
\<close>

definition clean_report :: "('w, 'd, 'e) AgentCalls \<Rightarrow> int \<Rightarrow> Snapshot_report \<Rightarrow> bool" where
  "clean_report ac now r \<longleftrightarrow> sr_SnapshotTs r \<le> now \<and> (\<exists>loaded clean cluster host.
     ac_sanitize ac loaded = (None, clean) \<and> ac_marshal_snapshot ac clean = Inr (sr_RawSnapshot r) \<and>
     cluster \<noteq> '''' \<and> r = new_report ac (new_identity cluster host) (sr_RawSnapshot r) (sr_SnapshotTs r))"

definition clean_diagnostics :: "('w, 'd, 'e) AgentCalls \<Rightarrow> int \<Rightarrow> Diagnostics_report \<Rightarrow> bool" where
  "clean_diagnostics ac now r \<longleftrightarrow> dr_SnapshotTs r \<le> now \<and> (\<exists>d cluster host.
     ac_marshal_diagnostics ac d = Inr (dr_RawDiagnostics r) \<and> cluster \<noteq> '''' \<and>
     dr_Identity r = Some (new_identity cluster host))"

lemma clean_later:
  "clean_report ac now r \<Longrightarrow> now \<le> now' \<Longrightarrow> clean_report ac now' r"
  "clean_diagnostics ac now d \<Longrightarrow> now \<le> now' \<Longrightarrow> clean_diagnostics ac now' d"
  by (auto simp: clean_report_def clean_diagnostics_def)

section \<open>What the operations do to the report to send\<close>

lemma ProcessSnapshot_report:
  assumes "ProcessSnapshot ac now a snapshot w = Ret (a', later, err, w')"
  shows "ag_reportToSend a' = ag_reportToSend a \<or> (\<exists>r. ag_reportToSend a' = Some r \<and> clean_report ac now r)"
proof (cases "\<exists>sn i. snapshot = Some sn \<and>
    GetIdentity (sn_AmbassadorMeta sn) (Hostname (AESSnapshotURL a)) = Some i")
  case False
  then show ?thesis using assms by (auto simp: ProcessSnapshot_def split: option.splits)
next
  case True
  then obtain sn i where sn: "snapshot = Some sn"
    and i: "GetIdentity (sn_AmbassadorMeta sn) (Hostname (AESSnapshotURL a)) = Some i" by blast
  from i obtain m :: AmbassadorMetaInfo where m: "ami_ClusterID m \<noteq> ''''"
    "i = new_identity (ami_ClusterID m) (Hostname (AESSnapshotURL a))" unfolding GetIdentity_Some by blast
  obtain a2 sn2 where p: "ag_reportToSend a2 = ag_reportToSend a"
    and f: "finish_snapshot ac now i a2 sn2 = (a', err)"
    by (rule ProcessSnapshot_parts [OF assms [unfolded sn] i])
  show ?thesis
  proof (cases "\<exists>clean raw. ac_sanitize ac sn2 = (None, clean) \<and> ac_marshal_snapshot ac clean = Inr raw")
    case True
    then obtain clean raw where c: "ac_sanitize ac sn2 = (None, clean)" "ac_marshal_snapshot ac clean = Inr raw"
      by blast
    then have "clean_report ac now (new_report ac i raw now)"
      using m unfolding clean_report_def by (auto simp: new_report_def)
    with f c show ?thesis by (auto simp: finish_snapshot_def)
  next
    case False
    with f p show ?thesis by (auto simp: finish_snapshot_def Let_def split: prod.splits option.splits sum.splits)
  qed
qed

lemma watch_snapshot_report:
  assumes "watch_snapshot ac now a w = Ret (a', later, w')"
  shows "ag_reportToSend a' = ag_reportToSend a \<or> (\<exists>r. ag_reportToSend a' = Some r \<and> clean_report ac now r)"
proof (cases "\<not> ag_reportingStopped a \<and> \<not> ag_reportRunning a")
  case False
  with assms show ?thesis by (auto simp: watch_snapshot_def)
next
  case True
  obtain a1 sn w1 where g: "get_snapshot ac a w = (a1, sn, w1)" using prod_cases3 by blast
  then have "ag_reportToSend a1 = ag_reportToSend a"
    by (auto simp: get_snapshot_def Let_def split: if_splits prod.splits)
  moreover from g assms True obtain err where "ProcessSnapshot ac now a1 sn w1 = Ret (a', later, err, w')"
    by (auto simp: watch_snapshot_def bind_outcome_Ret_iff)
  ultimately show ?thesis using ProcessSnapshot_report by metis
qed

lemma maybeResetComm_report: "ag_reportToSend (maybeResetComm k a) = ag_reportToSend a"
  by (simp add: maybeResetComm_def frame_simps)

lemma watch_select_report:
  assumes "watch_select ac ev a w = Ret (a', w')"
  shows "ag_reportToSend a' = ag_reportToSend a"
proof (cases ev)
  case Tick
  with assms show ?thesis by (simp add: watch_select_def)
next
  case ConfigChanged
  with assms handleAPIKeyConfigChange_agent [of ac a w] show ?thesis
    by (auto simp: watch_select_def maybeResetComm_report)
next
  case EndpointsChanged
  with assms have "a' = a\<lparr>ag_emissaryPresent := ag_emissaryPresent a'\<rparr>"
    by (intro handleAmbassadorEndpointChange_frame) (simp add: watch_select_def)
  from arg_cong [OF this, of ag_reportToSend] show ?thesis by simp
next
  case DirectiveReady
  show ?thesis
  proof (cases "take_directive a")
    case None
    with DirectiveReady assms show ?thesis by (simp add: watch_select_def)
  next
    case (Some p)
    obtain d a1 where p: "p = (d, a1)" by fastforce
    from Some have "ag_reportToSend a1 = ag_reportToSend a"
      by (auto simp: p take_directive_def split: option.splits list.splits)
    moreover from Some p DirectiveReady assms
    have "HandleDirective (ac_handler ac) (ag_directiveHandler a1) a1 d w = Ret (a', w')"
      by (simp add: watch_select_def)
    ultimately show ?thesis using only_settings_frame(6) [OF basic.frame] by metis
  qed
qed

lemma watch_comm_report: "watch_comm ac a w = (go, a', w') \<Longrightarrow> ag_reportToSend a' = ag_reportToSend a"
  by (auto simp: watch_comm_def Let_def split: if_splits option.splits prod.splits sum.splits)

lemma ProcessDiagnostics_report:
  assumes "ProcessDiagnostics ac now a d = (a', r, err)"
  shows "ag_reportToSend a' = ag_reportToSend a \<and> (\<forall>x. r = Some x \<longrightarrow> clean_diagnostics ac now x)"
  using assms
  by (auto simp: ProcessDiagnostics_def clean_diagnostics_def GetIdentityFromDiagnostics_Some Let_def
      split: option.splits sum.splits) blast

lemma watch_diagnostics_report:
  assumes "watch_diagnostics ac now a w = (a', job, w')"
  shows "ag_reportToSend a' = ag_reportToSend a \<and> (\<forall>j. job = Some j \<longrightarrow>
    clean_diagnostics ac now (rj_report j) \<and> rj_apikey j = AmbassadorAPIKey a \<and> ag_reportDiagnosticsAllowed a)"
proof (cases "ag_emissaryPresent a \<and> \<not> ag_diagnosticsReportingStopped a \<and>
    \<not> ag_diagnosticsReportRunning a \<and> ag_reportDiagnosticsAllowed a")
  case False
  with assms show ?thesis by (auto simp: watch_diagnostics_def split: if_splits)
next
  case True
  obtain d err w1 where g: "getAmbDiagnosticsInfo ac (AESDiagnosticsURL a) w = ((d, err), w1)"
    by (metis prod.collapse)
  obtain a1 r e where pd: "ProcessDiagnostics ac now a d = (a1, r, e)" using prod_cases3 by blast
  from ProcessDiagnostics_frame [OF pd] have "AmbassadorAPIKey a1 = AmbassadorAPIKey a"
    by (simp add: same_comms_def)
  with ProcessDiagnostics_report [OF pd] assms True g pd show ?thesis
    by (auto simp: watch_diagnostics_def ReportDiagnostics_def split: option.splits)
qed

section \<open>The invariant\<close>

definition content_inv :: "('w, 'd, 'e) AgentCalls \<Rightarrow> bool \<Rightarrow> 'w Sys \<Rightarrow> bool" where
  "content_inv ac allowed s \<longleftrightarrow>
     (\<forall>r. ag_reportToSend (sy_agent s) = Some r \<longrightarrow> clean_report ac (sy_now s) r) \<and>
     (sy_pc s = PReport \<or> sy_pc s = PDiagnostics \<longrightarrow> AmbassadorAPIKey (sy_agent s) \<noteq> '''') \<and>
     (\<forall>f \<in> set (sy_reports s). clean_report ac (sy_now s) (rj_report (flight_job f)) \<and>
        rj_apikey (flight_job f) \<noteq> '''') \<and>
     (\<forall>f \<in> set (sy_diags s). clean_diagnostics ac (sy_now s) (rj_report (flight_job f)) \<and>
        rj_apikey (flight_job f) \<noteq> '''') \<and>
     ag_reportDiagnosticsAllowed (sy_agent s) = allowed \<and>
     (\<not> allowed \<longrightarrow> sy_diags s = [] \<and> sy_diags_sent s = [])"

lemma content_inv_step:
  assumes "sys_step ac s s'" and "content_inv ac allowed s"
  shows "content_inv ac allowed s'"
  using assms(1)
proof cases
  case (select ev a' w')
  then have "ag_reportToSend a' = ag_reportToSend (sy_agent s)" by (intro watch_select_report)
  with select assms(2) watch_select_frame [OF select(5)] show ?thesis by (auto simp: content_inv_def)
next
  case (snapshot a' later w')
  with assms(2) watch_snapshot_report [OF snapshot(4)] watch_snapshot_frame [OF snapshot(4)] show ?thesis
    by (auto simp: content_inv_def same_reporting_def)
next
  case (comm go a' w')
  with assms(2) watch_comm_report [OF comm(4)] watch_comm_frame [OF comm(4)] show ?thesis
    by (auto simp: content_inv_def same_reporting_def)
next
  case (report a' job)
  from report(4) show ?thesis
  proof (rule watch_report_cases)
    assume "a' = sy_agent s" "job = None"
    with report assms(2) show ?thesis by (simp add: content_inv_def opt_list_def)
  next
    fix r
    assume "ag_reportToSend (sy_agent s) = Some r"
      and "a' = (sy_agent s)\<lparr>ag_reportRunning := True, ag_reportToSend := None\<rparr>"
      and "job = Some \<lparr>rj_report = r, rj_delay = MinReportPeriod (sy_agent s),
                       rj_apikey = AmbassadorAPIKey (sy_agent s)\<rparr>"
    with report assms(2) show ?thesis by (auto simp: content_inv_def opt_list_def)
  qed
next
  case (diagnostics a' djob w')
  have f: "AmbassadorAPIKey a' = AmbassadorAPIKey (sy_agent s) \<and>
      ag_reportDiagnosticsAllowed a' = ag_reportDiagnosticsAllowed (sy_agent s)"
    using diagnostics(4) by (rule watch_diagnostics_cases) (simp_all add: same_reporting_def same_comms_def)
  from diagnostics assms(2) f watch_diagnostics_report [OF diagnostics(4)] show ?thesis
    by (cases djob) (auto simp: content_inv_def opt_list_def)
next
  case (report_begin xs job ys a' w')
  with assms(2) report_job_send_agent [OF report_begin(4)] show ?thesis by (auto simp: content_inv_def)
next
  case (diags_begin dxs djob dys a' w')
  with assms(2) diagnostics_job_send_agent [OF diags_begin(4)] show ?thesis by (auto simp: content_inv_def)
next
  case (clock d)
  with assms(2) clean_later [of ac "sy_now s" _ "sy_now s + d"] show ?thesis by (auto simp: content_inv_def)
qed (use assms(2) in \<open>auto simp: content_inv_def\<close>)

lemma wait_loop_report:
  "wait_loop ac evs a w = Some (a', w') \<Longrightarrow> ag_reportToSend a' = ag_reportToSend a"
proof (induction evs arbitrary: a w)
  case Nil
  then show ?case by (subst (asm) wait_loop.simps) (auto split: if_splits)
next
  case (Cons ev evs)
  obtain a1 w1 where h: "handleAPIKeyConfigChange ac a w = (a1, w1)" by fastforce
  then have a1: "ag_reportToSend a1 = ag_reportToSend a"
    using handleAPIKeyConfigChange_agent [of ac a w] by (simp add: maybeResetComm_report)
  from Cons.prems consider "a' = a" | "wait_loop ac evs a1 w1 = Some (a', w')" | "wait_loop ac evs a w = Some (a', w')"
    by (subst (asm) wait_loop.simps) (simp add: h split: if_splits wait_event.splits)
  then show ?case using Cons.IH a1 by cases auto
qed

lemma Watch_start_report:
  assumes "Watch_start ac evs a w = Ret (Some (a', w'))"
  shows "ag_reportToSend a' = ag_reportToSend a"
proof -
  obtain b u where h: "handleAPIKeyConfigChange ac a w = (b, u)" by fastforce
  then have b: "ag_reportToSend b = ag_reportToSend a"
    using handleAPIKeyConfigChange_agent [of ac a w] by (simp add: maybeResetComm_report)
  from assms obtain a1 w1 a2 w2 w3 where wl: "wait_loop ac evs b u = Some (a1, w1)"
    and e: "handleAmbassadorEndpointChange ac (Hostname (AESSnapshotURL a1)) a1 w2 = Ret (a2, w3)"
    and a': "a' = a2\<lparr>ag_apiDocsStore := Some NewAPIDocsStore\<rparr>"
    by (auto simp: Watch_start_def waitForAPIKey_def h bind_outcome_Ret_iff split: option.splits)
  from arg_cong [OF handleAmbassadorEndpointChange_frame [OF e], of ag_reportToSend]
    wait_loop_report [OF wl] b a' show ?thesis by simp
qed

lemma boot_content:
  assumes "boot ac evs (main_agent rf sf cw fw domain env) w now = Some s"
  shows "content_inv ac (AESReportDiagnostics env) s"
proof -
  let ?a = "main_agent rf sf cw fw domain env"
  from assms obtain a' w' where st: "Watch_start ac evs ?a w = Ret (Some (a', w'))"
    and s: "sy_agent s = a'" "sy_pc s = PSelect" "sy_reports s = []" "sy_diags s = []" "sy_diags_sent s = []"
    by (auto simp: boot_def split: outcome.splits option.splits)
  have "ag_reportToSend ?a = None" "ag_reportDiagnosticsAllowed ?a = AESReportDiagnostics env"
    by (simp_all add: main_agent_def SetReportDiagnosticsAllowed_def NewAgent_def Env.defs)
  with s Watch_start_report [OF st] Watch_start_frame [OF st] show ?thesis
    by (simp add: content_inv_def same_reporting_def)
qed

section \<open>Properties\<close>

text \<open>
  C9: What leaves the cluster. In every reachable state, every report that is started, being sent
  or was sent last holds what the serialiser made of a snapshot that \<open>Sanitize\<close> accepted and
  cleaned, under an identity with a cluster ID and with an API key; no path around the sanitizer
  exists, whatever emissary, the Director and the clock do. Diagnostics are the serialised ones
  under an identity, and none ever leave unless the environment allows them.
\<close>

theorem reports_sanitized:
  assumes "boot ac evs (main_agent rf sf cw fw domain env) w now = Some s" and "reach ac s t"
  shows "(\<forall>f \<in> set (sy_reports t). clean_report ac (sy_now t) (rj_report (flight_job f)) \<and>
      rj_apikey (flight_job f) \<noteq> '''') \<and>
    (\<forall>f \<in> set (sy_diags t). clean_diagnostics ac (sy_now t) (rj_report (flight_job f)) \<and>
      rj_apikey (flight_job f) \<noteq> '''') \<and>
    (\<not> AESReportDiagnostics env \<longrightarrow> sy_diags t = [] \<and> sy_diags_sent t = [])"
proof -
  have "content_inv ac (AESReportDiagnostics env) t"
    by (rule reach_invariant [where P = "content_inv ac (AESReportDiagnostics env)", OF assms(2) boot_content [OF assms(1)]])
      (rule content_inv_step)
  then show ?thesis by (simp add: content_inv_def)
qed

text \<open>With emissary present one round starts a report and diagnostics.\<close>

definition emissary_endpoints :: Endpoints where
  "emissary_endpoints = \<lparr>ko_Kind = ''Endpoints'', ko_APIVersion = ''v1'',
     ko_Meta = \<lparr>om_Name = ''ambassador-admin'', om_Namespace = ''ambassador'', om_UID = ''e'', om_ResourceVersion = '''',
       om_CreationTimestamp = '''', om_ManagedFields = [], om_Rest = ''''\<rparr>, ep_Rest = ''''\<rparr>"

definition emissary_calls :: "(byte list, unit, unit) AgentCalls" where
  "emissary_calls = sample_calls\<lparr>ac_endpoints_List := (\<lambda>w. (Inr [emissary_endpoints], w))\<rparr>"

lemma reports_sanitized_witness:
  "\<exists>s t j d. boot emissary_calls [] sample_agent [107, 101, 121] 0 = Some s \<and> reach emissary_calls s t \<and>
     sy_reports t = [Started j] \<and> sy_diags t = [Started d] \<and>
     clean_report emissary_calls 0 (rj_report j) \<and> clean_diagnostics emissary_calls 0 (rj_report d) \<and>
     rj_apikey j \<noteq> '''' \<and> rj_apikey d \<noteq> ''''"
proof -
  have "(case boot emissary_calls [] sample_agent [107, 101, 121] 0 of None \<Rightarrow> False
    | Some s \<Rightarrow> (case exec_run emissary_calls round_choices s of None \<Rightarrow> False
        | Some t \<Rightarrow> sy_now t = 0 \<and> (case sy_reports t of [Started j] \<Rightarrow> True | _ \<Rightarrow> False) \<and>
            (case sy_diags t of [Started d] \<Rightarrow> True | _ \<Rightarrow> False)))"
    unfolding round_choices_def by code_simp
  then obtain s t j d where b: "boot emissary_calls [] sample_agent [107, 101, 121] 0 = Some s"
    and r: "exec_run emissary_calls round_choices s = Some t"
    and t: "sy_now t = 0" "sy_reports t = [Started j]" "sy_diags t = [Started d]"
    by (auto simp del: exec_run.simps split: option.splits list.splits flight.splits)
  from exec_run_sound [OF r] have "reach emissary_calls s t" .
  from reports_sanitized [OF b [unfolded sample_agent_def] this] b this t show ?thesis by fastforce
qed

end
