(* ===== verification/Agent_Keys.thy ===== *)
theory Agent_Keys
  imports Report_Content
begin

text \<open>
  Whom the agent talks to, and as whom: the address, the credentials, the API key and the identity
  of every connection it ever dials (\<open>pkg/agent/agent.go\<close>, \<open>comm.go\<close>), in every reachable state of the
  running agent.
\<close>

section \<open>What a connection keeps\<close>

text \<open>Fields of a connection that are set when it is dialled and never change.\<close>

definition same_conn :: "RPCComm \<Rightarrow> RPCComm \<Rightarrow> bool" where
  "same_conn c c' \<longleftrightarrow> cc_address c' = cc_address c \<and> cc_creds c' = cc_creds c \<and>
     cc_extraHeaders c' = cc_extraHeaders c \<and> cc_retHeaders c' = cc_retHeaders c \<and> cc_agentID c' = cc_agentID c"

lemma same_conn_refl [simp]: "same_conn c c"
  by (simp add: same_conn_def)

lemma same_conn_trans: "same_conn a b \<Longrightarrow> same_conn b c \<Longrightarrow> same_conn a c"
  by (simp add: same_conn_def)

lemma same_conn_ops [simp, intro]:
  "same_conn c (Close c)" "same_conn c (wake c)" "same_conn c (c\<lparr>cc_directives := ds\<rparr>)"
  "same_conn c (c\<lparr>cc_rptWake := b\<rparr>)"
  by (simp_all add: same_conn_def Close_def wake_def)

lemma retr_step_same_conn: "retr_step (pc, c) e (pc', c') \<Longrightarrow> same_conn c c'"
  by (erule retr_stepE) (auto intro: same_conn_ops)

text \<open>Connections are only added, and what they were dialled with stays.\<close>

definition conns_kept :: "'w Agent \<Rightarrow> 'w Agent \<Rightarrow> bool" where
  "conns_kept a a' \<longleftrightarrow> length (ag_comms a) \<le> length (ag_comms a') \<and>
     (\<forall>i < length (ag_comms a). same_conn (ag_comms a ! i) (ag_comms a' ! i))"

lemma conns_kept_same: "ag_comms a' = ag_comms a \<Longrightarrow> conns_kept a a'"
  by (simp add: conns_kept_def)

lemma conns_kept_trans: "conns_kept a b \<Longrightarrow> conns_kept b c \<Longrightarrow> conns_kept a c"
  by (auto simp: conns_kept_def intro: same_conn_trans)

lemma conns_kept_update:
  "same_conn (ag_comms a ! i) c \<Longrightarrow> ag_comms a' = (ag_comms a)[i := c] \<Longrightarrow> conns_kept a a'"
  by (simp add: conns_kept_def) (metis nth_list_update_eq nth_list_update_neq same_conn_refl)

section \<open>Connections made with the configuration and the current key\<close>

definition dialled :: "Env \<Rightarrow> RPCComm \<Rightarrow> bool" where
  "dialled env c \<longleftrightarrow>
     cc_address c = ci_hostname (ConnAddress env) @ '':'' @ ci_port (ConnAddress env) \<and>
     cc_creds c = (if ci_secure (ConnAddress env) then TLS (ci_hostname (ConnAddress env)) else Insecure) \<and>
     cc_extraHeaders c = new_rpcExtraHeaders env \<and>
     (\<exists>k. k \<noteq> '''' \<and> cc_retHeaders c = getHeaders c k)"

lemma dialled_same_conn: "same_conn c c' \<Longrightarrow> dialled env c \<Longrightarrow> dialled env c'"
  by (auto simp: dialled_def same_conn_def getHeaders_def)

definition key_wf :: "Env \<Rightarrow> 'w Agent \<Rightarrow> bool" where
  "key_wf env a \<longleftrightarrow> ConnAddress a = ConnAddress env \<and> ag_rpcExtraHeaders a = new_rpcExtraHeaders env \<and>
     (\<forall>i < length (ag_comms a). dialled env (ag_comms a ! i)) \<and>
     (\<forall>i. ag_comm a = Some i \<longrightarrow> i < length (ag_comms a) \<and> AmbassadorAPIKey a \<noteq> '''' \<and>
        cc_retHeaders (ag_comms a ! i) = getHeaders (ag_comms a ! i) (AmbassadorAPIKey a))"

lemma key_wf_same: "same_comms a a' \<Longrightarrow> key_wf env a \<Longrightarrow> key_wf env a'"
  by (simp add: same_comms_def key_wf_def)

lemma key_wf_conns:
  assumes "key_wf env a" and "conns_kept a a'" and "length (ag_comms a') = length (ag_comms a)"
    and "ag_comm a' = None \<or> ag_comm a' = ag_comm a \<and> AmbassadorAPIKey a' = AmbassadorAPIKey a"
    and "ConnAddress a' = ConnAddress a" and "ag_rpcExtraHeaders a' = ag_rpcExtraHeaders a"
  shows "key_wf env a'"
proof -
  have "dialled env (ag_comms a' ! i)" if "i < length (ag_comms a')" for i
    using that assms(1-3) dialled_same_conn [of "ag_comms a ! i" "ag_comms a' ! i" env]
    by (simp add: key_wf_def conns_kept_def)
  moreover have "cc_retHeaders (ag_comms a' ! i) = getHeaders (ag_comms a' ! i) (AmbassadorAPIKey a)"
    if "ag_comm a = Some i" for i
    using that assms(1,2) by (auto simp: key_wf_def conns_kept_def same_conn_def getHeaders_def)
  ultimately show ?thesis using assms by (auto simp: key_wf_def)
qed

lemma maybeResetComm_conns:
  "conns_kept a (maybeResetComm k a)" "length (ag_comms (maybeResetComm k a)) = length (ag_comms a)"
  "ag_comm (maybeResetComm k a) = None \<or> maybeResetComm k a = a"
  "ConnAddress (maybeResetComm k a) = ConnAddress a"
  "ag_rpcExtraHeaders (maybeResetComm k a) = ag_rpcExtraHeaders a"
proof -
  have "conns_kept a (ClearComm (a\<lparr>AmbassadorAPIKey := k\<rparr>))"
  proof (cases "ag_comm a")
    case (Some i)
    then show ?thesis by (intro conns_kept_update [of a i "Close (ag_comms a ! i)"]) (simp_all add: ClearComm_def)
  qed (simp add: ClearComm_def conns_kept_same)
  then show "conns_kept a (maybeResetComm k a)" by (simp add: maybeResetComm_def conns_kept_same)
qed (auto simp: maybeResetComm_def ClearComm_def split: option.split)

lemma maybeResetComm_key_wf: "key_wf env a \<Longrightarrow> key_wf env (maybeResetComm k a)"
  by (rule key_wf_conns [of env a]) (use maybeResetComm_conns [where k = k and a = a] in auto)

lemma take_directive_conns:
  assumes "take_directive a = Some (d, a')"
  shows "conns_kept a a' \<and> length (ag_comms a') = length (ag_comms a) \<and> ag_comm a' = ag_comm a \<and>
    AmbassadorAPIKey a' = AmbassadorAPIKey a \<and> ConnAddress a' = ConnAddress a \<and>
    ag_rpcExtraHeaders a' = ag_rpcExtraHeaders a"
  using assms
  by (auto simp: take_directive_def split: option.splits list.splits intro!: conns_kept_update same_conn_ops(3))

text \<open>One \<open>select\<close>, as far as connections and the key go.\<close>

lemma watch_select_keys:
  assumes "watch_select ac ev a w = Ret (a', w')"
  obtains (config) "a' = maybeResetComm (desired_key ac a w) a"
  | (directive) a1 d where "take_directive a = Some (d, a1)" "same_comms a1 a'"
  | (same) "same_comms a a'"
proof (cases ev)
  case Tick
  with assms same show thesis by (simp add: watch_select_def)
next
  case ConfigChanged
  with assms handleAPIKeyConfigChange_agent [of ac a w] config show thesis by (simp add: watch_select_def)
next
  case EndpointsChanged
  with assms have "a' = a\<lparr>ag_emissaryPresent := ag_emissaryPresent a'\<rparr>"
    by (intro handleAmbassadorEndpointChange_frame) (simp add: watch_select_def)
  with emissaryPresent_same same show thesis by blast
next
  case DirectiveReady
  show thesis
  proof (cases "take_directive a")
    case None
    with DirectiveReady assms same show thesis by (simp add: watch_select_def)
  next
    case (Some p)
    obtain d a1 where p: "p = (d, a1)" by fastforce
    with Some DirectiveReady assms
    have "HandleDirective (ac_handler ac) (ag_directiveHandler a1) a1 d w = Ret (a', w')"
      by (simp add: watch_select_def)
    from only_settings_comms [OF basic.frame [OF this]] Some p directive show thesis by blast
  qed
qed

lemma watch_select_conns:
  assumes "watch_select ac ev a w = Ret (a', w')"
  shows "conns_kept a a' \<and> length (ag_comms a') = length (ag_comms a) \<and> (key_wf env a \<longrightarrow> key_wf env a')"
  using assms
proof (cases rule: watch_select_keys)
  case config
  then show ?thesis using maybeResetComm_conns maybeResetComm_key_wf by auto
next
  case (directive a1 d)
  note t = take_directive_conns [OF directive(1)]
  from directive(2) have c: "ag_comms a' = ag_comms a1" by (simp add: same_comms_def)
  then have k: "conns_kept a1 a'" by (rule conns_kept_same)
  have "key_wf env a'" if "key_wf env a"
    by (rule key_wf_same [OF directive(2)], rule key_wf_conns [OF that]) (use t in auto)
  with t c k conns_kept_trans show ?thesis by auto
next
  case same
  then have "ag_comms a' = ag_comms a" by (simp add: same_comms_def)
  with key_wf_same [OF same] conns_kept_same show ?thesis by auto
qed

lemma NewComm_fields:
  assumes "NewComm dial ci agentID apiKey hs w = (Inr c, w')"
  shows "cc_address c = ci_hostname ci @ '':'' @ ci_port ci"
    "cc_creds c = (if ci_secure ci then TLS (ci_hostname ci) else Insecure)" "cc_extraHeaders c = hs"
    "cc_retHeaders c = getHeaders c apiKey" "cc_agentID c = agentID"
  using assms by (auto simp: NewComm_def Let_def getHeaders_def split: prod.splits option.splits)

lemma watch_comm_cases:
  assumes "watch_comm ac a w = (go, a', w')"
  obtains (same) "a' = a" "go \<longrightarrow> AmbassadorAPIKey a \<noteq> '''' \<and> ag_comm a \<noteq> None"
  | (dial) c where "AmbassadorAPIKey a \<noteq> ''''" "ag_comm a = None"
      "NewComm (ac_dial ac) (ConnAddress a) (ag_agentID a) (AmbassadorAPIKey a) (ag_rpcExtraHeaders a) w = (Inr c, w')"
      "a' = a\<lparr>ag_comms := ag_comms a @ [c], ag_comm := Some (length (ag_comms a)),
        ag_newDirective := Some (length (ag_comms a))\<rparr>"
proof (cases "AmbassadorAPIKey a = '''' \<or> ag_comm a \<noteq> None")
  case True
  with assms same show thesis by (auto simp: watch_comm_def split: if_splits)
next
  case False
  obtain r w1 where n: "NewComm (ac_dial ac) (ConnAddress a) (ag_agentID a) (AmbassadorAPIKey a)
      (ag_rpcExtraHeaders a) w = (r, w1)" by fastforce
  show thesis
  proof (cases r)
    case (Inl err)
    with assms False n same show thesis by (simp add: watch_comm_def)
  next
    case (Inr c)
    with assms False n dial show thesis by (auto simp: watch_comm_def Let_def)
  qed
qed

lemma key_wf_dial:
  assumes "key_wf env a" and "dialled env c" and "AmbassadorAPIKey a \<noteq> ''''"
    and "cc_retHeaders c = getHeaders c (AmbassadorAPIKey a)"
  shows "key_wf env (a\<lparr>ag_comms := ag_comms a @ [c], ag_comm := Some (length (ag_comms a)), ag_newDirective := d\<rparr>)"
  using assms by (auto simp: key_wf_def nth_append less_Suc_eq)

lemma watch_comm_conns:
  assumes "watch_comm ac a w = (go, a', w')"
  shows "conns_kept a a' \<and> (key_wf env a \<longrightarrow> key_wf env a')"
  using assms
proof (cases rule: watch_comm_cases)
  case same
  then show ?thesis by (simp add: conns_kept_same)
next
  case (dial c)
  note f = NewComm_fields [OF dial(3)]
  have "dialled env c" if "key_wf env a"
    using that f dial(1) unfolding dialled_def by (auto simp: key_wf_def)
  with dial f key_wf_dial show ?thesis by (auto simp: conns_kept_def nth_append)
qed

section \<open>Every step\<close>

lemma conn_update:
  assumes "same_conn (ag_comms a ! i) c" and "a' = a\<lparr>ag_comms := (ag_comms a)[i := c]\<rparr>"
  shows "conns_kept a a' \<and> (key_wf env a \<longrightarrow> key_wf env a')"
proof -
  have k: "conns_kept a a'" using assms by (intro conns_kept_update [of a i c]) simp_all
  have "key_wf env a'" if "key_wf env a"
    by (rule key_wf_conns [OF that k]) (simp_all add: assms(2))
  with k show ?thesis by blast
qed

lemma step_keys:
  assumes "sys_step ac s s'"
  shows "conns_kept (sy_agent s) (sy_agent s') \<and> (key_wf env (sy_agent s) \<longrightarrow> key_wf env (sy_agent s'))"
proof -
  have same: ?thesis if "same_comms (sy_agent s) (sy_agent s')"
    using that key_wf_same [OF that] by (simp add: conns_kept_same same_comms_def)
  show ?thesis using assms
  proof cases
    case (select ev a' w')
    then show ?thesis using watch_select_conns [OF select(5)] by simp
  next
    case (snapshot a' later w')
    then show ?thesis using watch_snapshot_frame [OF snapshot(4)] by (intro same) simp
  next
    case (comm go a' w')
    then show ?thesis using watch_comm_conns [OF comm(4)] by simp
  next
    case (report a' job)
    from report(4) have "same_comms (sy_agent s) a'" by (rule watch_report_cases) (simp_all add: same_comms_def)
    with report(1) show ?thesis by (intro same) simp
  next
    case (diagnostics a' djob w')
    from diagnostics(4) have "same_comms (sy_agent s) a'"
      by (rule watch_diagnostics_cases) (simp_all add: same_comms_def)
    with diagnostics(1) show ?thesis by (intro same) simp
  next
    case (report_begin xs job ys a' w')
    from report_job_send_agent [OF report_begin(4)] report_begin(1) show ?thesis
      using conn_update [OF same_conn_ops(2)] by auto
  next
    case (diags_begin dxs djob dys a' w')
    from diagnostics_job_send_agent [OF diags_begin(4)] diags_begin(1) show ?thesis
      using conn_update [OF same_conn_ops(2)] by auto
  next
    case (retriever i e pc' c')
    from conn_update [OF retr_step_same_conn [OF retriever(6)] refl] retriever(1) show ?thesis by simp
  qed (rule same, simp add: same_comms_def)+
qed

lemma reach_conns: "reach ac s t \<Longrightarrow> conns_kept (sy_agent s) (sy_agent t)"
proof (induction rule: rtranclp_induct)
  case base
  show ?case by (simp add: conns_kept_same)
next
  case (step t u)
  with step_keys [OF step.hyps(2)] conns_kept_trans show ?case by blast
qed

lemma reach_key_wf: "reach ac s t \<Longrightarrow> key_wf env (sy_agent s) \<Longrightarrow> key_wf env (sy_agent t)"
  by (erule (1) reach_invariant [where P = "\<lambda>x. key_wf env (sy_agent x)"]) (use step_keys in blast)

lemma wait_loop_key_wf: "wait_loop ac evs a w = Some (a', w') \<Longrightarrow> key_wf env a \<Longrightarrow> key_wf env a'"
proof (induction evs arbitrary: a w)
  case Nil
  then show ?case by (subst (asm) wait_loop.simps) (auto split: if_splits)
next
  case (Cons ev evs)
  obtain a1 w1 where h: "handleAPIKeyConfigChange ac a w = (a1, w1)" by fastforce
  then have a1: "key_wf env a1"
    using handleAPIKeyConfigChange_agent [of ac a w] Cons.prems(2) by (simp add: maybeResetComm_key_wf)
  from Cons.prems(1) consider "a' = a" | "wait_loop ac evs a1 w1 = Some (a', w')" | "wait_loop ac evs a w = Some (a', w')"
    by (subst (asm) wait_loop.simps) (simp add: h split: if_splits wait_event.splits)
  then show ?case using Cons.IH Cons.prems(2) a1 by cases auto
qed

lemma Watch_start_key_wf:
  assumes "Watch_start ac evs a w = Ret (Some (a', w'))" and "key_wf env a"
  shows "key_wf env a'"
proof -
  obtain b u where h: "handleAPIKeyConfigChange ac a w = (b, u)" by fastforce
  then have b: "key_wf env b"
    using handleAPIKeyConfigChange_agent [of ac a w] assms(2) by (simp add: maybeResetComm_key_wf)
  from assms(1) obtain a1 w1 a2 w2 w3 where wl: "wait_loop ac evs b u = Some (a1, w1)"
    and e: "handleAmbassadorEndpointChange ac (Hostname (AESSnapshotURL a1)) a1 w2 = Ret (a2, w3)"
    and a': "a' = a2\<lparr>ag_apiDocsStore := Some NewAPIDocsStore\<rparr>"
    by (auto simp: Watch_start_def waitForAPIKey_def h bind_outcome_Ret_iff split: option.splits)
  have "same_comms a1 a'"
    using emissaryPresent_same [OF handleAmbassadorEndpointChange_frame [OF e]] by (simp add: a' same_comms_def)
  with wait_loop_key_wf [OF wl b] key_wf_same show ?thesis by blast
qed

lemma boot_key_wf:
  assumes "boot ac evs (main_agent rf sf cw fw domain env) w now = Some s"
  shows "key_wf env (sy_agent s)"
proof -
  have "key_wf env (main_agent rf sf cw fw domain env)"
    by (simp add: key_wf_def main_agent_def SetReportDiagnosticsAllowed_def NewAgent_def Env.defs)
  moreover from assms obtain a' w' where "Watch_start ac evs (main_agent rf sf cw fw domain env) w = Ret (Some (a', w'))"
    and "sy_agent s = a'" by (auto simp: boot_def split: outcome.splits option.splits)
  ultimately show ?thesis using Watch_start_key_wf by metis
qed

section \<open>Rounds that dial\<close>

lemma watch_comm_dials:
  assumes "AmbassadorAPIKey a \<noteq> ''''" and "ag_comm a = None"
    and "\<forall>address creds w. fst (ac_dial ac address creds w) = None"
  obtains c w' where "cc_agentID c = ag_agentID a"
    "watch_comm ac a w = (True, a\<lparr>ag_comms := ag_comms a @ [c], ag_comm := Some (length (ag_comms a)),
        ag_newDirective := Some (length (ag_comms a))\<rparr>, w')"
proof -
  let ?new = "NewComm (ac_dial ac) (ConnAddress a) (ag_agentID a) (AmbassadorAPIKey a) (ag_rpcExtraHeaders a) w"
  obtain r w' where n: "?new = (r, w')" by fastforce
  then obtain c where "r = Inr c"
    using assms(3) by (cases r) (auto simp: NewComm_def Let_def split: prod.splits option.splits, metis fst_conv option.distinct(1))
  with n have nc: "?new = (Inr c, w')" by simp
  show thesis
    by (rule that [of c w']) (use assms(1,2) nc NewComm_fields(5) [OF nc] in \<open>simp_all add: watch_comm_def Let_def\<close>)
qed

lemma unreadable_snapshot:
  assumes "ag_emissaryPresent a" and "fst (ac_http_Get ac (url_String (AESSnapshotURL a)) w) = Inl err"
  shows "\<exists>w'. watch_snapshot ac now a w = Ret (a, None, w')"
proof -
  obtain w1 where "ac_http_Get ac (url_String (AESSnapshotURL a)) w = (Inl err, w1)"
    using assms(2) by (metis prod.collapse)
  with assms(1) show ?thesis
    by (simp add: watch_snapshot_def get_snapshot_def getAmbSnapshotInfo_def ProcessSnapshot_def)
qed

lemma report_job_returns: "ag_comm a = Some i \<Longrightarrow> \<exists>a' w'. report_job_send ac job a w = Ret (a', w')"
  by (auto simp: report_job_send_def split: prod.split)

section \<open>Without a key\<close>

text \<open>While there is no key, the loop comes back to its \<open>select\<close> before it would report.\<close>

lemma keyless_step:
  assumes "sys_step ac s s'" and "key_wf env (sy_agent s)" and "content_inv ac allowed s"
    and "AmbassadorAPIKey (sy_agent s) = ''''" and "AmbassadorAPIKey (sy_agent s') = ''''"
  shows "length (ag_comms (sy_agent s')) = length (ag_comms (sy_agent s)) \<and>
    sy_sent s' = sy_sent s \<and> sy_diags_sent s' = sy_diags_sent s \<and>
    length (sy_reports s') \<le> length (sy_reports s) \<and> length (sy_diags s') \<le> length (sy_diags s)"
proof -
  have none: "ag_comm (sy_agent s) = None" using assms(2,4) by (auto simp: key_wf_def)
  have pc: "sy_pc s \<noteq> PReport" "sy_pc s \<noteq> PDiagnostics" using assms(3,4) by (auto simp: content_inv_def)
  show ?thesis using assms(1)
  proof cases
    case (select ev a' w')
    then show ?thesis using watch_select_conns [OF select(5)] by simp
  next
    case (snapshot a' later w')
    then show ?thesis using watch_snapshot_frame [OF snapshot(4)] by (simp add: same_comms_def)
  next
    case (comm go a' w')
    then show ?thesis using assms(4) by (auto simp: watch_comm_def)
  next
    case (report_begin xs job ys a' w')
    then show ?thesis using none report_job_send_agent [OF report_begin(4)] by auto
  next
    case (diags_begin dxs djob dys a' w')
    then show ?thesis using none diagnostics_job_send_agent [OF diags_begin(4)] by auto
  qed (use pc in auto)
qed

section \<open>Properties\<close>

text \<open>
  C10: Whom the agent talks to, and as whom. In every reachable state every connection it has ever
  dialled goes to the configured address, with TLS for the configured host unless the address says
  plain HTTP, and its stream of directives carries an API key that is not empty and the configured
  headers. The connection in use is open, carries the current key, and is the one directives are
  read from; every other one is closed with its retriever told to stop.
\<close>

theorem connections_authentic:
  assumes "boot ac evs (main_agent rf sf cw fw domain env) w now = Some s"
    and "parse_report_period fmul str = Inr (MinReportPeriod env)" and "reach ac s t"
    and "i < length (ag_comms (sy_agent t))" and "c = ag_comms (sy_agent t) ! i"
  shows "cc_address c = ci_hostname (ConnAddress env) @ '':'' @ ci_port (ConnAddress env) \<and>
    cc_creds c = (if ci_secure (ConnAddress env) then TLS (ci_hostname (ConnAddress env)) else Insecure) \<and>
    (\<exists>k. k \<noteq> '''' \<and> cc_retHeaders c = [''x-ambassador-api-key'', k] @ new_rpcExtraHeaders env \<and>
      (if ag_comm (sy_agent t) = Some i
       then k = AmbassadorAPIKey (sy_agent t) \<and> \<not> cc_connClosed c \<and> \<not> cc_retCancelled c \<and>
            ag_newDirective (sy_agent t) = Some i
       else cc_connClosed c \<and> cc_retCancelled c))"
proof -
  have wf: "key_wf env (sy_agent t)" by (rule reach_key_wf [OF assms(3) boot_key_wf [OF assms(1)]])
  with assms(4) have d: "dialled env c" by (simp add: key_wf_def assms(5))
  then obtain k where k: "k \<noteq> ''''" "cc_retHeaders c = [''x-ambassador-api-key'', k] @ new_rpcExtraHeaders env"
    by (auto simp: dialled_def getHeaders_def APIKeyMetadataKey_def)
  have "k = AmbassadorAPIKey (sy_agent t)" if "ag_comm (sy_agent t) = Some i"
    using wf that k(2) d by (auto simp: key_wf_def assms(5) getHeaders_def dialled_def APIKeyMetadataKey_def)
  with k d connections_closed [OF assms(1-4)] show ?thesis by (auto simp: dialled_def assms(5))
qed

lemma connections_authentic_witness:
  "\<exists>t. reach sample_calls sample_start t \<and> length (ag_comms (sy_agent t)) = 1 \<and>
     cc_creds (ag_comms (sy_agent t) ! 0) = TLS ''app.getambassador.io''"
proof -
  obtain t where t: "reach sample_calls sample_start t" "length (ag_comms (sy_agent t)) = 1"
    by (rule two_reports_run)
  from connections_authentic [OF sample_boot [unfolded sample_agent_def] sample_period t(1) _ refl, of 0] t
  show ?thesis by (auto simp: sample_env_def defaultHostname_def)
qed

text \<open>
  C11: An agent that is turned off stays silent. From any reachable state without an API key, and for
  as long as none is configured: there is no connection in use and none is dialled, no report and no
  diagnostics are sent, and no goroutine that would send any is started.
\<close>

theorem keyless_agent_silent:
  assumes "boot ac evs (main_agent rf sf cw fw domain env) w now = Some s" and "reach ac s t"
    and "AmbassadorAPIKey (sy_agent t) = ''''"
    and "rtranclp (\<lambda>x y. sys_step ac x y \<and> AmbassadorAPIKey (sy_agent y) = '''') t u"
  shows "ag_comm (sy_agent u) = None \<and> length (ag_comms (sy_agent u)) = length (ag_comms (sy_agent t)) \<and>
    sy_sent u = sy_sent t \<and> sy_diags_sent u = sy_diags_sent t \<and>
    length (sy_reports u) \<le> length (sy_reports t) \<and> length (sy_diags u) \<le> length (sy_diags t)"
proof -
  let ?inv = "\<lambda>x. key_wf env (sy_agent x) \<and> content_inv ac (AESReportDiagnostics env) x"
  have inv: "?inv t"
    by (rule reach_invariant [where P = ?inv, OF assms(2)])
      (use boot_key_wf [OF assms(1)] boot_content [OF assms(1)] step_keys content_inv_step in blast)+
  from assms(4) have "?inv u \<and> AmbassadorAPIKey (sy_agent u) = '''' \<and>
    length (ag_comms (sy_agent u)) = length (ag_comms (sy_agent t)) \<and>
    sy_sent u = sy_sent t \<and> sy_diags_sent u = sy_diags_sent t \<and>
    length (sy_reports u) \<le> length (sy_reports t) \<and> length (sy_diags u) \<le> length (sy_diags t)"
  proof (induction rule: rtranclp_induct)
    case base
    with inv assms(3) show ?case by simp
  next
    case (step x y)
    then have st: "sys_step ac x y" and x: "?inv x" "AmbassadorAPIKey (sy_agent x) = ''''"
      and y: "AmbassadorAPIKey (sy_agent y) = ''''" by blast+
    have "?inv y" using step_keys [OF st] content_inv_step [OF st] x(1) by blast
    with keyless_step [OF st _ _ x(2) y] x y step.IH show ?case by (auto intro: le_trans)
  qed
  then show ?thesis by (auto simp: key_wf_def)
qed

text \<open>A report is sent, the token disappears, and the loop goes round once.\<close>

definition turned_off :: "byte list choice list" where
  "turned_off = round_choices @ [Report_begin, Outside [], Watch_select ConfigChanged]"

lemma keyless_agent_silent_witness:
  "\<exists>t u. reach sample_calls sample_start t \<and> AmbassadorAPIKey (sy_agent t) = '''' \<and> sy_sent t = [0] \<and>
     sys_step sample_calls t u \<and> ag_comm (sy_agent u) = None \<and> sy_sent u = [0]"
proof -
  have "(case exec_run sample_calls turned_off sample_start of None \<Rightarrow> False
    | Some t \<Rightarrow> AmbassadorAPIKey (sy_agent t) = '''' \<and> sy_sent t = [0] \<and> \<not> sy_crashed t \<and>
       (case exec sample_calls Watch_next t of None \<Rightarrow> False | Some u \<Rightarrow> AmbassadorAPIKey (sy_agent u) = ''''))"
    unfolding turned_off_def round_choices_def append.simps by code_simp
  then obtain t u where r: "exec_run sample_calls turned_off sample_start = Some t"
    and t: "AmbassadorAPIKey (sy_agent t) = ''''" "sy_sent t = [0]" "\<not> sy_crashed t"
    and u: "exec sample_calls Watch_next t = Some u" "AmbassadorAPIKey (sy_agent u) = ''''"
    by (auto simp del: exec_run.simps exec.simps split: option.splits)
  note rt = exec_run_sound [OF r] and st = exec_sound [OF u(1) t(3)]
  have "rtranclp (\<lambda>x y. sys_step sample_calls x y \<and> AmbassadorAPIKey (sy_agent y) = '''') t u"
    using st u(2) by (simp add: r_into_rtranclp)
  note k = keyless_agent_silent [OF sample_boot [unfolded sample_agent_def] rt t(1) this]
  have "ag_comm (sy_agent u) = None" by (rule k [THEN conjunct1])
  moreover have "sy_sent u = [0]" unfolding t(2) [symmetric] by (rule k [THEN conjunct2, THEN conjunct2, THEN conjunct1])
  ultimately show ?thesis using rt st t(1,2) by (intro exI [of _ t] exI [of _ u] conjI)
qed

text \<open>
  C22: An agent that cannot read a snapshot, and so knows no identity to report under, dials the
  Director all the same: with a key and no connection, one round of the loop leads to a connection
  whose stream of directives is asked for without identity, with nothing to report, and that
  connection keeps no identity in whatever happens later, also once the agent knows its own.
\<close>

theorem anonymous_connection:
  assumes "\<not> sy_crashed s" and "sy_pc s = PSelect" and "a = sy_agent s"
    and "ag_emissaryPresent a" and "ag_agentID a = None" and "ag_comm a = None" and "AmbassadorAPIKey a \<noteq> ''''"
    and "fst (ac_http_Get ac (url_String (AESSnapshotURL a)) (sy_world s)) = Inl err"
    and "\<forall>address creds w. fst (ac_dial ac address creds w) = None"
  shows "\<exists>t i. reach ac s t \<and> sy_reports t = sy_reports s \<and> ag_reportToSend (sy_agent t) = ag_reportToSend a \<and>
    ag_comm (sy_agent t) = Some i \<and>
    (\<forall>u. reach ac t u \<longrightarrow> i < length (ag_comms (sy_agent u)) \<and> cc_agentID (ag_comms (sy_agent u) ! i) = None)"
proof -
  let ?s1 = "s\<lparr>sy_pc := PSnapshot\<rparr>"
  have s1: "sys_step ac s ?s1"
    using sys_step.select [of s Tick ac a "sy_world s"] assms(1-3) by (simp add: watch_select_def)
  from unreadable_snapshot [OF assms(4,8)]
  obtain w2 where "watch_snapshot ac (sy_now s) a (sy_world s) = Ret (a, None, w2)" by blast
  then have s2: "sys_step ac ?s1 (?s1\<lparr>sy_world := w2, sy_pc := PComm\<rparr>)" (is "sys_step ac _ ?s2")
    using sys_step.snapshot [of ?s1 ac a None w2] assms(1,3) by (simp add: opt_list_def)
  obtain c w3 where c: "cc_agentID c = None" "watch_comm ac a w2 = (True, a\<lparr>ag_comms := ag_comms a @ [c],
      ag_comm := Some (length (ag_comms a)), ag_newDirective := Some (length (ag_comms a))\<rparr>, w3)" (is "_ = (True, ?a3, w3)")
    by (rule watch_comm_dials [OF assms(7,6,9)]) (use assms(5) in simp)
  let ?s3 = "?s2\<lparr>sy_agent := ?a3, sy_world := w3, sy_pc := PReport, sy_retrievers := with_retrievers ?a3 (sy_retrievers s)\<rparr>"
  have "sys_step ac ?s2 ?s3" using sys_step.comm [of ?s2 ac True ?a3 w3] assms(1,3) c(2) by simp
  with s1 s2 have r: "reach ac s ?s3" by (meson rtranclp.rtrancl_refl rtranclp.rtrancl_into_rtrancl)
  have "length (ag_comms a) < length (ag_comms (sy_agent u)) \<and>
      cc_agentID (ag_comms (sy_agent u) ! length (ag_comms a)) = None" if "reach ac ?s3 u" for u
    using reach_conns [OF that] c(1) by (auto simp: conns_kept_def same_conn_def less_Suc_eq_le)
  with r show ?thesis
    by (intro exI [of _ ?s3] exI [of _ "length (ag_comms a)"]) auto
qed

text \<open>Emissary is in the cluster and does not answer.\<close>

definition unreachable_calls :: "(byte list, unit, unit) AgentCalls" where
  "unreachable_calls = emissary_calls\<lparr>ac_http_Get := (\<lambda>u w. (Inl (ErrText ''refused''), w))\<rparr>"

lemma anonymous_connection_witness:
  "\<exists>s t i. boot unreachable_calls [] sample_agent [107, 101, 121] 0 = Some s \<and> reach unreachable_calls s t \<and>
     sy_reports t = [] \<and> ag_comm (sy_agent t) = Some i \<and> cc_agentID (ag_comms (sy_agent t) ! i) = None"
proof -
  have "(case boot unreachable_calls [] sample_agent [107, 101, 121] 0 of None \<Rightarrow> False
    | Some s \<Rightarrow> \<not> sy_crashed s \<and> (case sy_pc s of PSelect \<Rightarrow> True | _ \<Rightarrow> False) \<and> sy_reports s = [] \<and>
       ag_emissaryPresent (sy_agent s) \<and> ag_agentID (sy_agent s) = None \<and> ag_comm (sy_agent s) = None \<and>
       AmbassadorAPIKey (sy_agent s) \<noteq> '''')"
    by code_simp
  then obtain s where b: "boot unreachable_calls [] sample_agent [107, 101, 121] 0 = Some s"
    and s: "\<not> sy_crashed s" "sy_pc s = PSelect" "sy_reports s = []" "ag_emissaryPresent (sy_agent s)"
      "ag_agentID (sy_agent s) = None" "ag_comm (sy_agent s) = None" "AmbassadorAPIKey (sy_agent s) \<noteq> ''''"
    by (auto split: option.splits watch_pc.splits)
  have h: "fst (ac_http_Get unreachable_calls (url_String (AESSnapshotURL (sy_agent s))) (sy_world s)) =
      Inl (ErrText ''refused'')" by (simp add: unreachable_calls_def)
  have d: "\<forall>address creds w. fst (ac_dial unreachable_calls address creds w) = None"
    by (simp add: unreachable_calls_def emissary_calls_def sample_calls_def)
  from anonymous_connection [OF s(1,2) refl s(4-7) h d] b s(3) show ?thesis by fastforce
qed

text \<open>
  A report that was started under the old key can go out after the key was changed: over the
  connection dialled with the new key, and still with the old one.
\<close>

theorem old_key_on_new_connection:
  assumes "\<not> sy_crashed s" and "sy_pc s = PSelect" and "sy_reports s = [Started job]"
    and "ag_reportRunning (sy_agent s)" and "rj_apikey job = AmbassadorAPIKey (sy_agent s)"
    and "desired_key ac (sy_agent s) w' \<noteq> AmbassadorAPIKey (sy_agent s)" and "desired_key ac (sy_agent s) w' \<noteq> ''''"
    and "\<forall>address creds w. fst (ac_dial ac address creds w) = None"
  shows "\<exists>t i. reach ac s t \<and> sy_reports t = [InRpc job] \<and> ag_comm (sy_agent t) = Some i \<and>
    rj_apikey job \<noteq> AmbassadorAPIKey (sy_agent t)"
proof -
  let ?s1 = "s\<lparr>sy_world := w'\<rparr>"
  obtain a2 w2 where h: "handleAPIKeyConfigChange ac (sy_agent s) w' = (a2, w2)" by fastforce
  then have a2: "a2 = ClearComm ((sy_agent s)\<lparr>AmbassadorAPIKey := desired_key ac (sy_agent s) w'\<rparr>)"
    using handleAPIKeyConfigChange_agent [of ac "sy_agent s" w'] assms(6) by (simp add: maybeResetComm_def)
  let ?s2 = "?s1\<lparr>sy_agent := a2, sy_world := w2, sy_pc := PSnapshot\<rparr>"
  have "sys_step ac s ?s1" by (rule sys_step.outside) (rule assms(1))
  moreover have "sys_step ac ?s1 ?s2"
    by (rule sys_step.select [of ?s1 ConfigChanged]) (use assms h in \<open>simp_all add: watch_select_def\<close>)
  moreover have "watch_snapshot ac (sy_now s) a2 w2 = Ret (a2, None, w2)"
    using assms(4) by (simp add: watch_snapshot_def a2 frame_simps)
  then have "sys_step ac ?s2 (?s2\<lparr>sy_pc := PComm\<rparr>)" (is "sys_step ac _ ?s3")
    using sys_step.snapshot [of ?s2 ac a2 None w2] assms(1) by (simp add: opt_list_def)
  moreover have "AmbassadorAPIKey a2 \<noteq> ''''" "ag_comm a2 = None" using assms(7) by (simp_all add: a2 frame_simps)
  then obtain c w3 where c: "watch_comm ac a2 w2 = (True, a2\<lparr>ag_comms := ag_comms a2 @ [c],
      ag_comm := Some (length (ag_comms a2)), ag_newDirective := Some (length (ag_comms a2))\<rparr>, w3)" (is "_ = (True, ?a3, w3)")
    by (rule watch_comm_dials [OF _ _ assms(8)])
  let ?s4 = "?s3\<lparr>sy_agent := ?a3, sy_world := w3, sy_pc := PReport, sy_retrievers := with_retrievers ?a3 (sy_retrievers s)\<rparr>"
  have "sys_step ac ?s3 ?s4" using sys_step.comm [of ?s3 ac True ?a3 w3] assms(1) c  by simp
  moreover obtain a4 w4 where b: "report_job_send ac job ?a3 w3 = Ret (a4, w4)"
    using report_job_returns [of ?a3 "length (ag_comms a2)" ac job w3] by auto
  then have "sys_step ac ?s4 (?s4\<lparr>sy_agent := a4, sy_world := w4, sy_reports := [InRpc job], sy_sent := sy_now s # sy_sent s\<rparr>)"
      (is "sys_step ac _ ?s5")
    using sys_step.report_begin [of ?s4 "[]" job "[]" ac a4 w4] assms(1,3) by simp
  ultimately have "reach ac s ?s5" by (meson rtranclp.rtrancl_refl rtranclp.rtrancl_into_rtrancl)
  moreover have "ag_comm a4 = ag_comm ?a3" "AmbassadorAPIKey a4 = AmbassadorAPIKey ?a3"
    using report_job_send_agent [OF b] by auto
  ultimately show ?thesis using assms(5,6) by (intro exI [of _ ?s5]) (auto simp: a2 frame_simps)
qed

end
