(* ===== verification/Ingress_Service.thy ===== *)
theory Ingress_Service
  imports K8s_Types Go_Url
begin

text \<open>
  The gRPC service of the agent (\<open>pkg/agent/service.go\<close>): \<open>ResolveIngress\<close> answers with the
  ingress of the current snapshot, or else with the address of the service itself; \<open>Version\<close>.
  The messages that explain a default answer are kept, since the code hands them on.
\<close>

section \<open>Messages\<close>

record IngressInfoRequest =
  iq_Namespace :: string
  iq_ServiceId :: string
  iq_ServiceName :: string
  iq_ServicePortName :: string
  iq_ServicePortProto :: string
  iq_ServicePortNumber :: int32

record IngressInfoResponse =
  ir_L3Host :: string
  ir_L4Proto :: string
  ir_Port :: int32
  ir_UseTls :: bool
  ir_L5Host :: string

record VersionInfo =
  vi_Name :: string
  vi_Version :: string

definition Version_rpc :: "string \<Rightarrow> VersionInfo" where
  "Version_rpc Version = \<lparr>vi_Name = ''ambassador-agent'', vi_Version = Version\<rparr>"

text \<open>
  The verb \<open>%q\<close> of package \<open>fmt\<close>. Bytes from 128 on stand for printable characters and are
  copied; the control characters without a letter of their own are written in hexadecimal.
\<close>

definition hex_digit :: "nat \<Rightarrow> char" where
  "hex_digit n = (''0123456789abcdef'' ! n)"

definition quote_char :: "char \<Rightarrow> string" where
  "quote_char c =
     (let n = (of_char c :: nat) in
      if n = 34 \<or> n = 92 then [char_of (92::nat), c]
      else if n \<in> {7, 8, 9, 10, 11, 12, 13} then [char_of (92::nat), ''abtnvfr'' ! (n - 7)]
      else if n < 32 \<or> n = 127
      then [char_of (92::nat), CHR ''x'', hex_digit (n div 16), hex_digit (n mod 16)]
      else [c])"

definition Quote :: "string \<Rightarrow> string" where
  "Quote s = [char_of (34::nat)] @ concat (map quote_char s) @ [char_of (34::nat)]"

section \<open>Looking things up in the snapshot\<close>

text \<open>A nil element of a list of the snapshot is dereferenced: the functions panic there.\<close>

fun findService_from :: "Service option list \<Rightarrow> string \<Rightarrow> (unit, Service option) outcome" where
  "findService_from [] serviceID = Ret None"
| "findService_from (None # svcs) serviceID = Panic ()"
| "findService_from (Some svc # svcs) serviceID =
     (if GetUID svc = serviceID then Ret (Some svc) else findService_from svcs serviceID)"

definition findServiceInSnapshot ::
  "KubernetesSnapshot \<Rightarrow> string \<Rightarrow> (unit, Service option) outcome" where
  "findServiceInSnapshot snapshot serviceID = findService_from (ks_Services snapshot) serviceID"

fun findIngressByName_in :: "Service option list \<Rightarrow> string \<Rightarrow> (unit, Service option) outcome" where
  "findIngressByName_in [] name = Ret None"
| "findIngressByName_in (None # svcs) name = Panic ()"
| "findIngressByName_in (Some svc # svcs) name =
     (if GetName svc = name \<and> 0 < length (svc_Ports svc) then Ret (Some svc)
      else findIngressByName_in svcs name)"

fun findIngressByNameInSnapshot ::
  "KubernetesSnapshot \<Rightarrow> string list \<Rightarrow> (unit, Service option) outcome" where
  "findIngressByNameInSnapshot snapshot [] = Ret None"
| "findIngressByNameInSnapshot snapshot (name # names) =
     bind_outcome (findIngressByName_in (ks_Services snapshot) name) (\<lambda>r.
       case r of Some svc \<Rightarrow> Ret (Some svc)
       | None \<Rightarrow> findIngressByNameInSnapshot snapshot names)"

definition mapping_serves :: "string \<Rightarrow> string \<Rightarrow> bool" where
  "mapping_serves svc name \<longleftrightarrow>
     svc = name \<or> (case Parse svc of Inl _ \<Rightarrow> False | Inr parsedURL \<Rightarrow> Hostname parsedURL = name)"

fun collectMappings ::
  "string \<Rightarrow> string \<Rightarrow> Mapping option list \<Rightarrow> (string, Mapping) gomap \<Rightarrow>
   (unit, (string, Mapping) gomap) outcome" where
  "collectMappings name namespace [] mm = Ret mm"
| "collectMappings name namespace (None # ms) mm = Panic ()"
| "collectMappings name namespace (Some m # ms) mm =
     collectMappings name namespace ms
       (if GetNamespace m = namespace \<and> mapping_serves (m_Service m) name
        then AList.update (GetUID m) m mm else mm)"

type_synonym mapping_range = "(string \<times> Mapping) list \<Rightarrow> (string \<times> Mapping) list"

definition findServiceMappingsInSnapshot ::
  "mapping_range \<Rightarrow> KubernetesSnapshot \<Rightarrow> string \<Rightarrow> string \<Rightarrow> (unit, Mapping list) outcome" where
  "findServiceMappingsInSnapshot ord snapshot name namespace =
     bind_outcome (collectMappings name namespace (ks_Mappings snapshot) [])
       (\<lambda>mm. Ret (map snd (ord mm)))"

fun findHostname :: "Mapping list \<Rightarrow> string" where
  "findHostname [] = ''''"
| "findHostname (m # ms) =
     (if m_Hostname m \<noteq> '''' \<and> \<not> HasPrefix (m_Hostname m) ''*'' then m_Hostname m
      else findHostname ms)"

text \<open>
  The conjunction binds tighter than the disjunction: a port named \<open>https\<close> (\<open>http\<close>) matches
  whatever its protocol and number are.
\<close>

definition tls_port :: "string \<Rightarrow> ServicePort \<Rightarrow> bool" where
  "tls_port proto p \<longleftrightarrow> sp_Protocol p = proto \<and> sp_Port p = 443 \<or> sp_Name p = ''https''"

definition plain_port :: "string \<Rightarrow> ServicePort \<Rightarrow> bool" where
  "plain_port proto p \<longleftrightarrow> sp_Protocol p = proto \<and> sp_Port p = 80 \<or> sp_Name p = ''http''"

definition resolveIngressPort ::
  "ServicePort list \<Rightarrow> string \<Rightarrow> (unit, int32 \<times> string \<times> bool) outcome" where
  "resolveIngressPort ports proto =
     (case List.find (tls_port proto) ports of
        Some p \<Rightarrow> Ret (sp_Port p, sp_Protocol p, True)
      | None \<Rightarrow> (case List.find (plain_port proto) ports of
          Some p \<Rightarrow> Ret (sp_Port p, sp_Protocol p, False)
        | None \<Rightarrow> (case ports of
            [] \<Rightarrow> Panic ()
          | p # _ \<Rightarrow> Ret (sp_Port p, sp_Protocol p, False))))"

section \<open>ResolveIngress\<close>

definition getDefaultIngressInfo :: "string \<Rightarrow> IngressInfoRequest \<Rightarrow> IngressInfoResponse" where
  "getDefaultIngressInfo clusterDomain request =
     (let fqdn = iq_ServiceName request @ ''.'' @ iq_Namespace request @ ''.svc.'' @ clusterDomain
      in \<lparr>ir_L3Host = fqdn, ir_L4Proto = iq_ServicePortProto request,
          ir_Port = iq_ServicePortNumber request,
          ir_UseTls = (iq_ServicePortName request = ''https'' \<or> iq_ServicePortNumber request = 443),
          ir_L5Host = fqdn\<rparr>)"

definition ingress_names :: "string list" where
  "ingress_names = [''emissary-ingress'', ''edge-stack'', ''ambassador'']"

definition getSnapshotIngress ::
  "mapping_range \<Rightarrow> string \<Rightarrow> Snapshot option \<Rightarrow> IngressInfoRequest \<Rightarrow>
   (unit, IngressInfoResponse option \<times> string) outcome" where
  "getSnapshotIngress ord clusterDomain currentSnapshot request =
     (case currentSnapshot of
        None \<Rightarrow> Ret (None, ''No current snapshot'')
      | Some sn \<Rightarrow>
     (case sn_Kubernetes sn of
        None \<Rightarrow> Ret (None, ''No Kubernetes snapshot in current snapshot'')
      | Some ksn \<Rightarrow>
          bind_outcome (findServiceInSnapshot ksn (iq_ServiceId request)) (\<lambda>found.
     (case found of
        None \<Rightarrow> Ret (None, ''No snapshot found for service '' @ Quote (iq_ServiceId request))
      | Some svc \<Rightarrow>
          bind_outcome (findServiceMappingsInSnapshot ord ksn (GetName svc) (GetNamespace svc)) (\<lambda>mappings.
     (let hostName = findHostname mappings in
      if hostName = '''' then
        Ret (None, ''Could not resolve hostname in mappings of service '' @ Quote (iq_ServiceId request))
      else
        bind_outcome (findIngressByNameInSnapshot ksn ingress_names) (\<lambda>candidate.
     (case candidate of
        None \<Rightarrow> Ret (None, ''No ingress candidate found in cluster'')
      | Some ingressSvc \<Rightarrow>
          bind_outcome (resolveIngressPort (svc_Ports ingressSvc) (iq_ServicePortProto request))
            (\<lambda>(port, proto, useTLS).
              Ret (Some \<lparr>ir_L3Host = GetName ingressSvc @ ''.'' @ GetNamespace ingressSvc @ ''.svc.''
                                     @ clusterDomain,
                         ir_L4Proto = proto, ir_Port = port, ir_UseTls = useTLS,
                         ir_L5Host = hostName\<rparr>, ''''))))))))))"

definition ResolveIngress ::
  "mapping_range \<Rightarrow> string \<Rightarrow> Snapshot option \<Rightarrow> IngressInfoRequest \<Rightarrow>
   (unit, IngressInfoResponse) outcome" where
  "ResolveIngress ord clusterDomain currentSnapshot request =
     bind_outcome (getSnapshotIngress ord clusterDomain currentSnapshot request) (\<lambda>(r, msg).
       case r of Some resp \<Rightarrow> Ret resp
       | None \<Rightarrow> Ret (getDefaultIngressInfo clusterDomain request))"

section \<open>Lemmas\<close>

definition no_nil :: "Snapshot option \<Rightarrow> bool" where
  "no_nil currentSnapshot =
     (case currentSnapshot of
        None \<Rightarrow> True
      | Some sn \<Rightarrow> (case sn_Kubernetes sn of
          None \<Rightarrow> True
        | Some ksn \<Rightarrow> None \<notin> set (ks_Services ksn) \<and> None \<notin> set (ks_Mappings ksn)))"

lemma findService_from_eq:
  "None \<notin> set svcs \<Longrightarrow>
   findService_from svcs uid = Ret (List.find (\<lambda>s. GetUID s = uid) (map the svcs))"
  by (induction svcs uid rule: findService_from.induct) auto

lemma findIngressByName_in_eq:
  "None \<notin> set svcs \<Longrightarrow>
   findIngressByName_in svcs name =
     Ret (List.find (\<lambda>s. GetName s = name \<and> svc_Ports s \<noteq> []) (map the svcs))"
  by (induction svcs name rule: findIngressByName_in.induct) auto

lemma collectMappings_eq:
  "None \<notin> set ms \<Longrightarrow> collectMappings name namespace ms mm =
     Ret (put_all (\<lambda>m. GetUID m)
       (filter (\<lambda>m. GetNamespace m = namespace \<and> mapping_serves (m_Service m) name) (map the ms)) mm)"
  by (induction name namespace ms mm rule: collectMappings.induct) auto

lemma findHostname_spec:
  "findHostname ms \<noteq> '''' \<Longrightarrow>
   \<exists>m \<in> set ms. m_Hostname m = findHostname ms \<and> \<not> HasPrefix (findHostname ms) ''*''"
  by (induction ms) (auto split: if_splits)

lemma resolveIngressPort_cases:
  assumes "ports \<noteq> []"
  obtains p where "p \<in> set ports"
    "resolveIngressPort ports proto = Ret (sp_Port p, sp_Protocol p, tls_port proto p)"
    "tls_port proto p \<longleftrightarrow> (\<exists>q \<in> set ports. tls_port proto q)"
    "\<not> tls_port proto p \<Longrightarrow> plain_port proto p \<longleftrightarrow> (\<exists>q \<in> set ports. plain_port proto q)"
proof (cases "List.find (tls_port proto) ports")
  case (Some p)
  then show thesis using find_Some_mem [OF Some] that [of p] by (auto simp: resolveIngressPort_def)
next
  case None
  then have no_tls: "\<forall>q \<in> set ports. \<not> tls_port proto q" by (auto simp: find_None_iff)
  show thesis
  proof (cases "List.find (plain_port proto) ports")
    case (Some p)
    then show thesis
      using None no_tls find_Some_mem [OF Some] that [of p] by (auto simp: resolveIngressPort_def)
  next
    case no_plain: None
    obtain p ps where "ports = p # ps" using assms by (cases ports) auto
    moreover have "resolveIngressPort ports proto = Ret (sp_Port p, sp_Protocol p, False)"
      using None no_plain calculation by (simp only: resolveIngressPort_def option.case list.case)
    moreover have "\<forall>q \<in> set ports. \<not> plain_port proto q" using no_plain by (auto simp: find_None_iff)
    ultimately show thesis using no_tls that [of p] by auto
  qed
qed

text \<open>The first name of the list a service with ports carries.\<close>

definition ingress_candidates :: "KubernetesSnapshot \<Rightarrow> string \<Rightarrow> Service list" where
  "ingress_candidates ksn name = [s. Some s \<leftarrow> ks_Services ksn, GetName s = name \<and> svc_Ports s \<noteq> []]"

lemma those_filter_services:
  "None \<notin> set svcs \<Longrightarrow> filter P (map the svcs) = [s. Some s \<leftarrow> svcs, P s]"
  by (induction svcs) (auto split: option.splits)

lemma find_eq_filter: "List.find P xs = (case filter P xs of [] \<Rightarrow> None | x # _ \<Rightarrow> Some x)"
  by (induction xs) simp_all

lemma findIngress_eq:
  assumes "None \<notin> set (ks_Services ksn)"
  shows "findIngressByNameInSnapshot ksn names =
    Ret (case concat (map (ingress_candidates ksn) names) of [] \<Rightarrow> None | s # _ \<Rightarrow> Some s)"
proof (induction names)
  case Nil
  then show ?case by simp
next
  case (Cons name names)
  have f: "findIngressByName_in (ks_Services ksn) name =
      Ret (case ingress_candidates ksn name of [] \<Rightarrow> None | s # _ \<Rightarrow> Some s)"
    by (simp add: findIngressByName_in_eq [OF assms] find_eq_filter those_filter_services [OF assms]
        ingress_candidates_def)
  show ?case
    by (cases "ingress_candidates ksn name") (simp_all add: f Cons.IH)
qed

lemma findHostname_empty_iff:
  "findHostname ms = '''' \<longleftrightarrow> (\<forall>m \<in> set ms. m_Hostname m = '''' \<or> HasPrefix (m_Hostname m) ''*'')"
  by (induction ms) auto

text \<open>The mappings that make a service reachable from outside, as the code reads them.\<close>

definition exposes :: "KubernetesSnapshot \<Rightarrow> Service \<Rightarrow> Mapping \<Rightarrow> bool" where
  "exposes ksn svc m \<longleftrightarrow> Some m \<in> set (ks_Mappings ksn) \<and> GetNamespace m = GetNamespace svc \<and>
     mapping_serves (m_Service m) (GetName svc)"

definition usable_hostname :: "Mapping \<Rightarrow> bool" where
  "usable_hostname m \<longleftrightarrow> m_Hostname m \<noteq> '''' \<and> \<not> HasPrefix (m_Hostname m) ''*''"

lemma findServiceMappings_set:
  assumes "None \<notin> set (ks_Mappings ksn)" and "range_ok ord"
  obtains ms where "findServiceMappingsInSnapshot ord ksn (GetName svc) (GetNamespace svc) = Ret ms"
    "\<And>m. m \<in> set ms \<Longrightarrow> exposes ksn svc m"
    "\<And>m. distinct (map (\<lambda>m. GetUID m) (map the (ks_Mappings ksn))) \<Longrightarrow> exposes ksn svc m \<Longrightarrow> m \<in> set ms"
proof -
  let ?ok = "\<lambda>m. GetNamespace m = GetNamespace svc \<and> mapping_serves (m_Service m) (GetName svc)"
  let ?fs = "filter ?ok (map the (ks_Mappings ksn))"
  let ?put = "put_all (\<lambda>m. GetUID m) ?fs []"
  have eq: "findServiceMappingsInSnapshot ord ksn (GetName svc) (GetNamespace svc) = Ret (map snd (ord ?put))"
    by (simp add: findServiceMappingsInSnapshot_def collectMappings_eq [OF assms(1)])
  have mem: "m \<in> set ?fs \<longleftrightarrow> exposes ksn svc m" for m
  proof -
    have "m \<in> set (map the (ks_Mappings ksn)) \<longleftrightarrow> Some m \<in> set (ks_Mappings ksn)"
      using assms(1) by (metis (no_types, lifting) image_iff list.set_map option.collapse option.sel)
    then show ?thesis by (auto simp: exposes_def)
  qed
  have set: "set (map snd (ord ?put)) = snd ` set ?put" by (simp add: range_ok_set [OF assms(2)])
  have sound: "exposes ksn svc m" if "m \<in> set (map snd (ord ?put))" for m
  proof -
    from that obtain k where "(k, m) \<in> set ?put" unfolding set by auto
    then have "m \<in> set ?fs" by (rule conjunct2 [OF put_all_snd])
    then show ?thesis by (simp only: mem)
  qed
  have complete: "m \<in> set (map snd (ord ?put))"
    if d: "distinct (map (\<lambda>m. GetUID m) (map the (ks_Mappings ksn)))" and "exposes ksn svc m" for m
  proof -
    have m: "m \<in> set ?fs" using \<open>exposes ksn svc m\<close> by (simp only: mem)
    have "distinct (map (\<lambda>m. GetUID m) ?fs)" using d by (rule distinct_map_filter)
    then have inj: "inj_on (\<lambda>m. GetUID m) (set ?fs)" by (simp add: distinct_map)
    let ?same = "filter (\<lambda>x. GetUID x = GetUID m) ?fs"
    have all: "\<forall>x \<in> set ?same. x = m" using inj m by (auto dest: inj_onD)
    have "?same \<noteq> []" using m by (auto simp: filter_empty_conv)
    then have "last ?same = m" using all last_in_set by blast
    then have "map_of ?put (GetUID m) = Some m"
      using \<open>?same \<noteq> []\<close> by (simp only: map_of_put_all map_of.simps case_last_Some) simp
    then have "(GetUID m, m) \<in> set ?put" by (rule map_of_SomeD)
    then have "snd (GetUID m, m) \<in> snd ` set ?put" by (rule imageI)
    then show ?thesis unfolding set by simp
  qed
  show thesis by (rule that [OF eq]) (use sound complete in blast)+
qed

section \<open>Properties\<close>

text \<open>
  C15: On every snapshot without nil elements a call of \<open>ResolveIngress\<close> returns. The answer is
  either the address of the service itself, or it is read from the snapshot: the asked service is
  in it, the host name is a usable one of a mapping that exposes that service, and host, port and
  protocol are those of the first service that carries one of the ingress names, with TLS as soon
  as it has a TLS port.
\<close>

theorem resolve_ingress_answer:
  assumes "no_nil currentSnapshot" and "range_ok ord"
  shows "\<exists>resp. ResolveIngress ord clusterDomain currentSnapshot request = Ret resp \<and>
    (resp = getDefaultIngressInfo clusterDomain request \<or>
     (\<exists>sn ksn svc m ing p. currentSnapshot = Some sn \<and> sn_Kubernetes sn = Some ksn \<and>
        Some svc \<in> set (ks_Services ksn) \<and> GetUID svc = iq_ServiceId request \<and>
        exposes ksn svc m \<and> usable_hostname m \<and>
        (\<exists>rest. concat (map (ingress_candidates ksn) ingress_names) = ing # rest) \<and>
        p \<in> set (svc_Ports ing) \<and>
        (tls_port (iq_ServicePortProto request) p \<longleftrightarrow>
           (\<exists>q \<in> set (svc_Ports ing). tls_port (iq_ServicePortProto request) q)) \<and>
        resp = \<lparr>ir_L3Host = GetName ing @ ''.'' @ GetNamespace ing @ ''.svc.'' @ clusterDomain,
                ir_L4Proto = sp_Protocol p, ir_Port = sp_Port p,
                ir_UseTls = tls_port (iq_ServicePortProto request) p, ir_L5Host = m_Hostname m\<rparr>))"
    (is "\<exists>resp. _ \<and> (_ \<or> ?snap resp)")
proof (cases "\<exists>sn ksn. currentSnapshot = Some sn \<and> sn_Kubernetes sn = Some ksn")
  case False
  then show ?thesis
    by (auto simp: ResolveIngress_def getSnapshotIngress_def split: option.splits)
next
  case True
  then obtain sn ksn where sn: "currentSnapshot = Some sn" "sn_Kubernetes sn = Some ksn" by blast
  with assms(1) have ns: "None \<notin> set (ks_Services ksn)" and nm: "None \<notin> set (ks_Mappings ksn)"
    by (auto simp: no_nil_def)
  note run = ResolveIngress_def getSnapshotIngress_def sn findServiceInSnapshot_def
    findService_from_eq [OF ns] findIngress_eq [OF ns]
  show ?thesis
  proof (cases "List.find (\<lambda>s. GetUID s = iq_ServiceId request) (map the (ks_Services ksn))")
    case None
    then show ?thesis by (auto simp: run)
  next
    case (Some svc)
    from find_Some_mem [OF Some] have svc: "Some svc \<in> set (ks_Services ksn)" "GetUID svc = iq_ServiceId request"
      using ns by (auto simp: image_iff) (metis option.collapse)
    obtain ms where ms: "findServiceMappingsInSnapshot ord ksn (GetName svc) (GetNamespace svc) = Ret ms"
      and exp: "\<And>m. m \<in> set ms \<Longrightarrow> exposes ksn svc m"
      by (rule findServiceMappings_set [OF nm assms(2), of svc]) (rule that)
    show ?thesis
    proof (cases "findHostname ms = '''' \<or> concat (map (ingress_candidates ksn) ingress_names) = []")
      case True
      then have "ResolveIngress ord clusterDomain currentSnapshot request =
          Ret (getDefaultIngressInfo clusterDomain request)"
        by (elim disjE) (simp_all add: run Some ms Let_def del: concat_eq_Nil_conv)
      then show ?thesis by blast
    next
      case False
      then obtain m where m: "m \<in> set ms" "m_Hostname m = findHostname ms" "usable_hostname m"
        using findHostname_spec [of ms] by (auto simp: usable_hostname_def)
      from False obtain ing rest where
        ing: "concat (map (ingress_candidates ksn) ingress_names) = ing # rest"
        by (cases "concat (map (ingress_candidates ksn) ingress_names)") auto
      then have "ing \<in> set (concat (map (ingress_candidates ksn) ingress_names))" by simp
      then have "svc_Ports ing \<noteq> []" by (auto simp: ingress_candidates_def split: option.splits)
      then obtain p where p: "p \<in> set (svc_Ports ing)"
        "resolveIngressPort (svc_Ports ing) (iq_ServicePortProto request) =
           Ret (sp_Port p, sp_Protocol p, tls_port (iq_ServicePortProto request) p)"
        "tls_port (iq_ServicePortProto request) p \<longleftrightarrow>
           (\<exists>q \<in> set (svc_Ports ing). tls_port (iq_ServicePortProto request) q)"
        by (rule resolveIngressPort_cases)
      let ?resp = "\<lparr>ir_L3Host = GetName ing @ ''.'' @ GetNamespace ing @ ''.svc.'' @ clusterDomain,
                ir_L4Proto = sp_Protocol p, ir_Port = sp_Port p,
                ir_UseTls = tls_port (iq_ServicePortProto request) p, ir_L5Host = m_Hostname m\<rparr>"
      have "ResolveIngress ord clusterDomain currentSnapshot request = Ret ?resp"
        using False by (simp add: run Some ms Let_def ing p(2) m(2))
      moreover have "?snap ?resp" using sn svc exp [OF m(1)] m(3) ing p(1,3) by blast
      ultimately show ?thesis by blast
    qed
  qed
qed


definition svc_of :: "string \<Rightarrow> string \<Rightarrow> ServicePort list \<Rightarrow> Service" where
  "svc_of name uid ports = \<lparr>ko_Kind = ''Service'', ko_APIVersion = ''v1'',
     ko_Meta = \<lparr>om_Name = name, om_Namespace = ''ns'', om_UID = uid, om_ResourceVersion = ''1'',
       om_CreationTimestamp = '''', om_ManagedFields = [], om_Rest = ''''\<rparr>,
     svc_ClusterIP = '''', svc_Ports = ports, svc_Rest = ''''\<rparr>"

definition exposing_mapping :: Mapping where
  "exposing_mapping = \<lparr>ko_Kind = ''Mapping'', ko_APIVersion = ''v3alpha1'',
     ko_Meta = \<lparr>om_Name = ''m'', om_Namespace = ''ns'', om_UID = ''mu'', om_ResourceVersion = ''1'',
       om_CreationTimestamp = '''', om_ManagedFields = [], om_Rest = ''''\<rparr>,
     m_Hostname = ''shop.example'', m_DeprecatedHost = '''', m_Prefix = ''/'', m_Service = ''http://web:80/x'',
     m_Rewrite = None, m_Headers = [], m_Docs = None\<rparr>"

definition edge_stack :: Service where
  "edge_stack = svc_of ''edge-stack'' ''eu'' [\<lparr>sp_Name = ''p'', sp_Protocol = ''TCP'', sp_Port = 80\<rparr>,
     \<lparr>sp_Name = ''https'', sp_Protocol = ''TCP'', sp_Port = 8443\<rparr>]"

definition exposed_kubernetes :: KubernetesSnapshot where
  "exposed_kubernetes = empty_kubernetes\<lparr>
     ks_Services := [Some (svc_of ''web'' ''su'' []), Some edge_stack],
     ks_Mappings := [Some exposing_mapping]\<rparr>"

definition exposed_snapshot :: Snapshot where
  "exposed_snapshot = \<lparr>sn_AmbassadorMeta = None, sn_Kubernetes = Some exposed_kubernetes,
     sn_APIDocs = [], sn_Rest = ''''\<rparr>"

definition web_request :: IngressInfoRequest where
  "web_request = \<lparr>iq_Namespace = ''ns'', iq_ServiceId = ''su'', iq_ServiceName = ''web'',
     iq_ServicePortName = '''', iq_ServicePortProto = ''TCP'', iq_ServicePortNumber = 80\<rparr>"

lemma exposed_no_nil: "no_nil (Some exposed_snapshot)"
  by (simp add: no_nil_def exposed_snapshot_def exposed_kubernetes_def)

lemma resolve_ingress_answer_witness:
  "\<exists>resp. ResolveIngress rev ''cluster.local'' (Some exposed_snapshot) web_request = Ret resp \<and>
     ir_L5Host resp = ''shop.example'' \<and> ir_Port resp = 8443 \<and> ir_UseTls resp"
proof -
  from resolve_ingress_answer [OF exposed_no_nil range_ok_rev, of "''cluster.local''" web_request]
  obtain resp where
    r: "ResolveIngress rev ''cluster.local'' (Some exposed_snapshot) web_request = Ret resp" by blast
  have "case ResolveIngress rev ''cluster.local'' (Some exposed_snapshot) web_request of
      Ret x \<Rightarrow> ir_L5Host x = ''shop.example'' \<and> ir_Port x = 8443 \<and> ir_UseTls x | Panic _ \<Rightarrow> False"
    by code_simp
  with r show ?thesis by simp
qed

text \<open>
  C27: The answer is read from the snapshot exactly when it can be: the asked service is there,
  some mapping that exposes it has a usable host name, and some service with ports carries an
  ingress name; UIDs are unique, as Kubernetes makes them.
\<close>

theorem snapshot_ingress_iff:
  assumes "sn_Kubernetes sn = Some ksn" and "no_nil (Some sn)" and "range_ok ord"
    and "distinct (map (\<lambda>s. GetUID s) (map the (ks_Services ksn)))"
    and "distinct (map (\<lambda>m. GetUID m) (map the (ks_Mappings ksn)))"
  shows "(\<exists>resp. getSnapshotIngress ord clusterDomain (Some sn) request = Ret (Some resp, '''')) \<longleftrightarrow>
    (\<exists>svc m ing. Some svc \<in> set (ks_Services ksn) \<and> GetUID svc = iq_ServiceId request \<and>
       exposes ksn svc m \<and> usable_hostname m \<and>
       Some ing \<in> set (ks_Services ksn) \<and> GetName ing \<in> set ingress_names \<and> svc_Ports ing \<noteq> [])"
    (is "?L \<longleftrightarrow> ?R")
proof -
  from assms(1,2) have ns: "None \<notin> set (ks_Services ksn)" and nm: "None \<notin> set (ks_Mappings ksn)"
    by (auto simp: no_nil_def)
  let ?cands = "concat (map (ingress_candidates ksn) ingress_names)"
  note run = getSnapshotIngress_def assms(1) findServiceInSnapshot_def
    findService_from_eq [OF ns] findIngress_eq [OF ns]
  have mem: "s \<in> set (map the (ks_Services ksn)) \<longleftrightarrow> Some s \<in> set (ks_Services ksn)" for s
    using ns by (metis (no_types, lifting) image_iff list.set_map option.collapse option.sel)
  have candI: "ing \<in> set (ingress_candidates ksn name) \<longleftrightarrow>
      Some ing \<in> set (ks_Services ksn) \<and> GetName ing = name \<and> svc_Ports ing \<noteq> []" for ing name
    by (auto simp: ingress_candidates_def split: option.splits)
  have set: "set ?cands = {ing. Some ing \<in> set (ks_Services ksn) \<and> GetName ing \<in> set ingress_names \<and>
      svc_Ports ing \<noteq> []}" by (auto simp: candI)
  have "?cands \<noteq> [] \<longleftrightarrow> set ?cands \<noteq> {}" by (simp only: set_empty)
  then have cand: "?cands \<noteq> [] \<longleftrightarrow>
      (\<exists>ing. Some ing \<in> set (ks_Services ksn) \<and> GetName ing \<in> set ingress_names \<and> svc_Ports ing \<noteq> [])"
    unfolding set by blast
  show ?thesis
  proof (cases "List.find (\<lambda>s. GetUID s = iq_ServiceId request) (map the (ks_Services ksn))")
    case None
    then have "\<not> ?R" using mem by (auto simp: find_None_iff)
    moreover have "\<not> ?L" using None by (simp add: run)
    ultimately show ?thesis by blast
  next
    case (Some svc)
    from find_Some_mem [OF Some] have svc: "svc \<in> set (map the (ks_Services ksn))"
      "GetUID svc = iq_ServiceId request" by auto
    have uniq: "s = svc" if "Some s \<in> set (ks_Services ksn)" "GetUID s = iq_ServiceId request" for s
    proof -
      have "inj_on (\<lambda>s. GetUID s) (set (map the (ks_Services ksn)))"
        using assms(4) by (simp only: distinct_map)
      moreover have "s \<in> set (map the (ks_Services ksn))" using that(1) by (simp only: mem)
      ultimately show ?thesis using svc that(2) unfolding inj_on_def by metis
    qed
    obtain ms where ms: "findServiceMappingsInSnapshot ord ksn (GetName svc) (GetNamespace svc) = Ret ms"
      and exp: "\<And>m. m \<in> set ms \<longleftrightarrow> exposes ksn svc m"
      by (rule findServiceMappings_set [OF nm assms(3), of svc]) (use that assms(5) in blast)
    have host: "findHostname ms \<noteq> '''' \<longleftrightarrow> (\<exists>m. exposes ksn svc m \<and> usable_hostname m)"
      by (auto simp: findHostname_empty_iff exp usable_hostname_def)
    have R: "?R \<longleftrightarrow> findHostname ms \<noteq> '''' \<and> ?cands \<noteq> []"
      unfolding host cand using uniq svc mem by blast
    have L: "?L \<longleftrightarrow> findHostname ms \<noteq> '''' \<and> ?cands \<noteq> []"
    proof (cases ?cands)
      case Nil
      then show ?thesis by (simp add: run Some ms Let_def del: concat_eq_Nil_conv)
    next
      case (Cons ing rest)
      then have "ing \<in> set ?cands" by simp
      then have "svc_Ports ing \<noteq> []" by (auto simp: ingress_candidates_def split: option.splits)
      then obtain p where "resolveIngressPort (svc_Ports ing) (iq_ServicePortProto request) =
           Ret (sp_Port p, sp_Protocol p, tls_port (iq_ServicePortProto request) p)"
        by (rule resolveIngressPort_cases)
      with Cons show ?thesis by (simp add: run Some ms Let_def)
    qed
    from L R show ?thesis by simp
  qed
qed

lemma snapshot_ingress_iff_witness:
  "\<exists>resp. getSnapshotIngress rev ''cluster.local'' (Some exposed_snapshot) web_request = Ret (Some resp, '''')"
proof -
  have k: "sn_Kubernetes exposed_snapshot = Some exposed_kubernetes" by (simp add: exposed_snapshot_def)
  have d: "distinct (map (\<lambda>s. GetUID s) (map the (ks_Services exposed_kubernetes)))"
      "distinct (map (\<lambda>m. GetUID m) (map the (ks_Mappings exposed_kubernetes)))"
    by (simp_all add: exposed_kubernetes_def svc_of_def edge_stack_def)
  have "exposes exposed_kubernetes (svc_of ''web'' ''su'' []) exposing_mapping" "usable_hostname exposing_mapping"
    by code_simp+
  moreover have "Some edge_stack \<in> set (ks_Services exposed_kubernetes) \<and>
      GetName edge_stack \<in> set ingress_names \<and> svc_Ports edge_stack \<noteq> []"
    by (simp add: exposed_kubernetes_def edge_stack_def svc_of_def ingress_names_def)
  moreover have "Some (svc_of ''web'' ''su'' []) \<in> set (ks_Services exposed_kubernetes)"
    "GetUID (svc_of ''web'' ''su'' []) = iq_ServiceId web_request"
    by (simp_all add: exposed_kubernetes_def svc_of_def web_request_def)
  ultimately show ?thesis
    unfolding snapshot_ingress_iff [OF k exposed_no_nil range_ok_rev d, of "''cluster.local''" web_request]
    by blast
qed

end
