(* ===== verification/Stores.thy ===== *)
theory Stores
  imports K8s_Types
begin

text \<open>
  The state-of-the-world stores of \<open>pkg/agent/store.go\<close>: a map from \<open>name.namespace\<close> to the
  object, filled once from a list. The contract the four stores share is the locale
  \<open>sotw_store\<close>.
\<close>

section \<open>Construction\<close>

definition allowedNamespace :: "string \<Rightarrow> bool" where
  "allowedNamespace namespace \<longleftrightarrow> namespace \<noteq> ''kube-system''"

definition PodSucceeded :: string where "PodSucceeded = ''Succeeded''"

definition store_key :: "'a KObject_scheme \<Rightarrow> string" where
  "store_key x = GetName x @ ''.'' @ GetNamespace x"

fun NewPodStore_from :: "(string, Pod) gomap \<Rightarrow> Pod list \<Rightarrow> (string, Pod) gomap" where
  "NewPodStore_from sotw [] = sotw"
| "NewPodStore_from sotw (pod # pods) =
     (if allowedNamespace (GetNamespace pod) \<and> pod_Phase pod \<noteq> PodSucceeded
      then NewPodStore_from (AList.update (store_key pod) pod sotw) pods
      else NewPodStore_from sotw pods)"

definition NewPodStore :: "Pod list \<Rightarrow> (string, Pod) gomap" where
  "NewPodStore pods = NewPodStore_from [] pods"

fun NewConfigMapStore_from ::
  "(string, ConfigMap) gomap \<Rightarrow> ConfigMap list \<Rightarrow> (string, ConfigMap) gomap" where
  "NewConfigMapStore_from sotw [] = sotw"
| "NewConfigMapStore_from sotw (cm # cms) =
     (if allowedNamespace (GetNamespace cm)
      then NewConfigMapStore_from (AList.update (store_key cm) cm sotw) cms
      else NewConfigMapStore_from sotw cms)"

definition NewConfigMapStore :: "ConfigMap list \<Rightarrow> (string, ConfigMap) gomap" where
  "NewConfigMapStore cms = NewConfigMapStore_from [] cms"

fun NewDeploymentStore_from ::
  "(string, Deployment) gomap \<Rightarrow> Deployment list \<Rightarrow> (string, Deployment) gomap" where
  "NewDeploymentStore_from sotw [] = sotw"
| "NewDeploymentStore_from sotw (d # ds) =
     (if allowedNamespace (GetNamespace d)
      then NewDeploymentStore_from (AList.update (store_key d) d sotw) ds
      else NewDeploymentStore_from sotw ds)"

definition NewDeploymentStore :: "Deployment list \<Rightarrow> (string, Deployment) gomap" where
  "NewDeploymentStore ds = NewDeploymentStore_from [] ds"

fun NewEndpointsStore_from ::
  "(string, Endpoints) gomap \<Rightarrow> Endpoints list \<Rightarrow> (string, Endpoints) gomap" where
  "NewEndpointsStore_from sotw [] = sotw"
| "NewEndpointsStore_from sotw (ep # es) =
     (if allowedNamespace (GetNamespace ep)
      then NewEndpointsStore_from (AList.update (store_key ep) ep sotw) es
      else NewEndpointsStore_from sotw es)"

definition NewEndpointsStore :: "Endpoints list \<Rightarrow> (string, Endpoints) gomap" where
  "NewEndpointsStore es = NewEndpointsStore_from [] es"

section \<open>The state of the world\<close>

text \<open>Appending the values in the order \<open>range\<close> yields the entries.\<close>

type_synonym 'a map_range = "(string \<times> 'a) list \<Rightarrow> (string \<times> 'a) list"

definition podStore_StateOfWorld :: "Pod map_range \<Rightarrow> (string, Pod) gomap \<Rightarrow> Pod list" where
  "podStore_StateOfWorld ord sotw = map snd (ord sotw)"

definition configMapStore_StateOfWorld ::
  "ConfigMap map_range \<Rightarrow> (string, ConfigMap) gomap \<Rightarrow> ConfigMap list" where
  "configMapStore_StateOfWorld ord sotw = map snd (ord sotw)"

definition deploymentStore_StateOfWorld ::
  "Deployment map_range \<Rightarrow> (string, Deployment) gomap \<Rightarrow> Deployment list" where
  "deploymentStore_StateOfWorld ord sotw = map snd (ord sotw)"

definition endpointStore_StateOfWorld ::
  "Endpoints map_range \<Rightarrow> (string, Endpoints) gomap \<Rightarrow> Endpoints list" where
  "endpointStore_StateOfWorld ord sotw = map snd (ord sotw)"

section \<open>The contract of a store\<close>

text \<open>
  A store is built by putting the objects that pass its filter under their keys, and lists its
  values in an order the runtime picks.
\<close>

locale sotw_store =
  fixes keep :: "'a \<Rightarrow> bool"
    and key :: "'a \<Rightarrow> string"
    and new :: "'a list \<Rightarrow> (string, 'a) gomap"
    and world :: "'a map_range \<Rightarrow> (string, 'a) gomap \<Rightarrow> 'a list"
  assumes new_put: "new xs = put_all key (filter keep xs) []"
    and world_map: "world ord m = map snd (ord m)"
begin

lemma wf: "gomap_wf (new xs)"
  by (simp add: new_put gomap_wf_put_all)

lemma lookup:
  "map_of (new xs) k = (case filter (\<lambda>x. keep x \<and> key x = k) xs of [] \<Rightarrow> None | ys \<Rightarrow> Some (last ys))"
  by (simp add: new_put map_of_put_all conj_commute split: list.split)

lemma in_world:
  assumes "range_ok ord"
  shows "x \<in> set (world ord (new xs)) \<longleftrightarrow> map_of (new xs) (key x) = Some x"
proof -
  have "x \<in> set (world ord (new xs)) \<longleftrightarrow> (\<exists>k. (k, x) \<in> set (new xs))"
    by (force simp: world_map range_ok_set [OF assms])
  also have "\<dots> \<longleftrightarrow> (key x, x) \<in> set (new xs)"
    unfolding new_put by (metis put_all_snd)
  also have "\<dots> \<longleftrightarrow> map_of (new xs) (key x) = Some x"
    using wf by (rule gomap_mem_iff)
  finally show ?thesis .
qed

lemma world_sound:
  assumes "range_ok ord" and "x \<in> set (world ord (new xs))"
  shows "x \<in> set xs \<and> keep x"
proof -
  from assms have "map_of (put_all key (filter keep xs) []) (key x) = Some x"
    by (simp add: in_world [unfolded new_put] new_put)
  from map_of_put_all_Some [OF this] show ?thesis by simp
qed

lemma world_keys_distinct:
  assumes "range_ok ord"
  shows "distinct (map key (world ord (new xs)))"
proof -
  have "map key (world ord (new xs)) = map (\<lambda>p. key (snd p)) (ord (new xs))"
    by (simp add: world_map)
  also have "\<dots> = map fst (ord (new xs))"
    using range_ok_set [OF assms] put_all_snd unfolding new_put
    by (intro map_cong) force+
  finally show ?thesis
    using wf range_ok_map_distinct [OF assms, where f = fst] by (simp add: gomap_wf_def)
qed

lemma world_complete:
  assumes "range_ok ord" and "inj_on key (set (filter keep xs))"
  shows "set (world ord (new xs)) = set (filter keep xs)"
proof (intro equalityI subsetI)
  fix x
  assume "x \<in> set (world ord (new xs))"
  then show "x \<in> set (filter keep xs)" using world_sound [OF assms(1)] by auto
next
  fix x
  assume x: "x \<in> set (filter keep xs)"
  let ?ys = "filter (\<lambda>y. keep y \<and> key y = key x) xs"
  have "set ?ys = {x}" using x assms(2) by (auto dest: inj_onD)
  then have "?ys \<noteq> []" and "last ?ys = x"
    by (metis empty_iff insert_not_empty set_empty) (metis \<open>set ?ys = {x}\<close> last_in_set set_empty insert_not_empty singletonD)
  then have "map_of (new xs) (key x) = Some x"
    by (cases ?ys) (simp_all add: lookup)
  then show "x \<in> set (world ord (new xs))" by (simp add: in_world [OF assms(1)])
qed

end

section \<open>The four stores\<close>

definition keep_pod :: "Pod \<Rightarrow> bool" where
  "keep_pod pod \<longleftrightarrow> allowedNamespace (GetNamespace pod) \<and> pod_Phase pod \<noteq> PodSucceeded"

definition keep_object :: "'a KObject_scheme \<Rightarrow> bool" where
  "keep_object x \<longleftrightarrow> allowedNamespace (GetNamespace x)"

lemma NewPodStore_from_put:
  "NewPodStore_from m xs = put_all store_key (filter keep_pod xs) m"
  by (induction xs arbitrary: m) (simp_all add: keep_pod_def)

lemma NewConfigMapStore_from_put:
  "NewConfigMapStore_from m xs = put_all store_key (filter keep_object xs) m"
  by (induction xs arbitrary: m) (simp_all add: keep_object_def)

lemma NewDeploymentStore_from_put:
  "NewDeploymentStore_from m xs = put_all store_key (filter keep_object xs) m"
  by (induction xs arbitrary: m) (simp_all add: keep_object_def)

lemma NewEndpointsStore_from_put:
  "NewEndpointsStore_from m xs = put_all store_key (filter keep_object xs) m"
  by (induction xs arbitrary: m) (simp_all add: keep_object_def)

interpretation pods: sotw_store keep_pod store_key NewPodStore podStore_StateOfWorld
  by unfold_locales (simp_all add: NewPodStore_def NewPodStore_from_put podStore_StateOfWorld_def)

interpretation cmaps: sotw_store keep_object store_key NewConfigMapStore configMapStore_StateOfWorld
  by unfold_locales
    (simp_all add: NewConfigMapStore_def NewConfigMapStore_from_put configMapStore_StateOfWorld_def)

interpretation deploys: sotw_store keep_object store_key NewDeploymentStore deploymentStore_StateOfWorld
  by unfold_locales
    (simp_all add: NewDeploymentStore_def NewDeploymentStore_from_put deploymentStore_StateOfWorld_def)

interpretation endpts: sotw_store keep_object store_key NewEndpointsStore endpointStore_StateOfWorld
  by unfold_locales
    (simp_all add: NewEndpointsStore_def NewEndpointsStore_from_put endpointStore_StateOfWorld_def)

section \<open>Keys\<close>

text \<open>
  The key is unambiguous as long as namespaces have no dot, which Kubernetes guarantees: a
  namespace is a DNS label. Names may have dots.
\<close>

lemma takeWhile_not: "c \<notin> set b \<Longrightarrow> takeWhile (\<lambda>x. x \<noteq> c) (b @ c # t) = b"
  by (induction b) auto

lemma append_dot_inj:
  assumes "a @ CHR ''.'' # b = a' @ CHR ''.'' # b'" and "CHR ''.'' \<notin> set b" "CHR ''.'' \<notin> set b'"
  shows "a = a' \<and> b = b'"
proof -
  have "takeWhile (\<lambda>c. c \<noteq> CHR ''.'') (rev (a @ CHR ''.'' # b)) = rev b"
    "takeWhile (\<lambda>c. c \<noteq> CHR ''.'') (rev (a' @ CHR ''.'' # b')) = rev b'"
    using takeWhile_not [of _ "rev b"] takeWhile_not [of _ "rev b'"] assms(2,3) by simp_all
  with assms(1) have "b = b'" by simp
  with assms(1) show ?thesis by simp
qed

lemma store_key_inj:
  "CHR ''.'' \<notin> set (GetNamespace x) \<Longrightarrow> CHR ''.'' \<notin> set (GetNamespace y) \<Longrightarrow>
   store_key x = store_key y \<longleftrightarrow> GetName x = GetName y \<and> GetNamespace x = GetNamespace y"
  using append_dot_inj [of "GetName x" "GetNamespace x" "GetName y" "GetNamespace y"]
  by (auto simp: store_key_def)

section \<open>Properties\<close>

text \<open>
  The state of the world of a pod store holds, for any list of pods, exactly the last pod
  of each name and namespace among those that are outside \<open>kube-system\<close> and not finished,
  each once, in some order.
\<close>

theorem pod_store_world:
  assumes "range_ok ord"
  shows "distinct (map store_key (podStore_StateOfWorld ord (NewPodStore xs))) \<and>
    set (podStore_StateOfWorld ord (NewPodStore xs)) =
      {x. \<exists>pre post. xs = pre @ x # post \<and> keep_pod x \<and>
         (\<forall>y \<in> set post. \<not> (keep_pod y \<and> store_key y = store_key x))}"
proof -
  have "x \<in> set (podStore_StateOfWorld ord (NewPodStore xs)) \<longleftrightarrow>
      (\<exists>pre post. xs = pre @ x # post \<and> keep_pod x \<and>
         (\<forall>y \<in> set post. \<not> (keep_pod y \<and> store_key y = store_key x)))" for x
    using last_filter_split [of "\<lambda>y. keep_pod y \<and> store_key y = store_key x" xs x]
    by (simp add: pods.in_world [OF assms] pods.lookup case_last_Some)
  then show ?thesis using pods.world_keys_distinct [OF assms] by blast
qed

definition sample_pod :: "string \<Rightarrow> string \<Rightarrow> string \<Rightarrow> Pod" where
  "sample_pod ns ph rest = \<lparr>ko_Kind = ''Pod'', ko_APIVersion = ''v1'',
     ko_Meta = \<lparr>om_Name = ''p'', om_Namespace = ns, om_UID = ''u'', om_ResourceVersion = ''1'',
       om_CreationTimestamp = '''', om_ManagedFields = [], om_Rest = ''''\<rparr>,
     pod_Phase = ph, pod_Rest = rest\<rparr>"

lemma pod_store_world_witness:
  "set (podStore_StateOfWorld rev (NewPodStore
     [sample_pod ''ns'' ''Running'' ''old'', sample_pod ''kube-system'' ''Running'' '''',
      sample_pod ''ns'' ''Running'' ''new'', sample_pod ''other'' ''Succeeded'' ''''])) =
   {sample_pod ''ns'' ''Running'' ''new''} \<and>
   distinct (map store_key (podStore_StateOfWorld rev (NewPodStore [sample_pod ''ns'' ''Running'' ''new''])))"
proof -
  have "podStore_StateOfWorld rev (NewPodStore
     [sample_pod ''ns'' ''Running'' ''old'', sample_pod ''kube-system'' ''Running'' '''',
      sample_pod ''ns'' ''Running'' ''new'', sample_pod ''other'' ''Succeeded'' '''']) =
    [sample_pod ''ns'' ''Running'' ''new'']"
    by (simp add: sample_pod_def NewPodStore_def podStore_StateOfWorld_def Stores.allowedNamespace_def
        PodSucceeded_def store_key_def)
  then show ?thesis using pod_store_world [OF range_ok_rev] by simp
qed

text \<open>
  Two pods get the same key only if they have the same name and the same namespace, provided
  that namespaces hold no dot (a namespace is a DNS label), so that no object hides another.
\<close>

theorem store_key_unambiguous:
  assumes "CHR ''.'' \<notin> set (GetNamespace x)" and "CHR ''.'' \<notin> set (GetNamespace y)"
  shows "store_key x = store_key y \<longleftrightarrow> GetName x = GetName y \<and> GetNamespace x = GetNamespace y"
  using assms by (rule store_key_inj)

lemma store_key_unambiguous_witness:
  "store_key (sample_pod ''a'' '''' '''') \<noteq> store_key (sample_pod ''b'' '''' '''')"
  using store_key_unambiguous [of "sample_pod ''a'' '''' ''''" "sample_pod ''b'' '''' ''''"]
  by (simp add: sample_pod_def)

end
