(* ===== verification/Docs_Http.thy ===== *)
theory Docs_Http
  imports Docs_Correct Agent_Ops
begin

text \<open>
  The HTTP client of the API documents (\<open>apiDocsHTTPClient\<close> in \<open>pkg/agent/api_docs.go\<close>): the
  request it builds for a mapping, with the parts of package \<open>net/http\<close> it relies on, and what
  it makes of the answer. The transport (\<open>Client.Do\<close>) is a parameter.
\<close>

section \<open>Requests\<close>

record http_request =
  rq_Method :: string
  rq_URL :: URL
  rq_Host :: string
  rq_Header :: "(string, string) gomap"
  rq_Close :: bool

text \<open>\<open>removeEmptyPort\<close> of package \<open>net/http\<close>: a host that ends with a colon loses it.\<close>

definition removeEmptyPort :: "string \<Rightarrow> string" where
  "removeEmptyPort host =
     (case cut_last (CHR '':'') host of
        None \<Rightarrow> host
      | Some (h, p) \<Rightarrow> if p = '''' then h else host)"

definition NewRequest :: "string \<Rightarrow> string \<Rightarrow> go_error + http_request" where
  "NewRequest method url =
     (case Parse url of
        Inl err \<Rightarrow> Inl err
      | Inr u \<Rightarrow>
          (let u' = u\<lparr>url_Host := removeEmptyPort (url_Host u)\<rparr> in
           Inr \<lparr>rq_Method = method, rq_URL = u', rq_Host = url_Host u', rq_Header = [], rq_Close = False\<rparr>))"

text \<open>
  \<open>CanonicalMIMEHeaderKey\<close>: a name with a character that is not allowed is left as it is;
  otherwise the first letter and the letters after a hyphen are upper case, the others lower.
\<close>

definition to_upper :: "char \<Rightarrow> char" where
  "to_upper c = (let n = (of_char c :: nat) in if 97 \<le> n \<and> n \<le> 122 then char_of (n - 32) else c)"

definition validHeaderFieldByte :: "char \<Rightarrow> bool" where
  "validHeaderFieldByte c \<longleftrightarrow> is_alpha c \<or> is_digit c \<or> c \<in> set ''!#$%&*+-.^_`|~'' \<or> (of_char c :: nat) = 39"

fun canonical_from :: "bool \<Rightarrow> string \<Rightarrow> string" where
  "canonical_from upper [] = []"
| "canonical_from upper (c # cs) =
     (if upper then to_upper c else to_lower c) # canonical_from (c = CHR ''-'') cs"

definition CanonicalMIMEHeaderKey :: "string \<Rightarrow> string" where
  "CanonicalMIMEHeaderKey s =
     (if \<forall>c \<in> set s. validHeaderFieldByte c then canonical_from True s else s)"

definition Header_Set :: "string \<Rightarrow> string \<Rightarrow> http_request \<Rightarrow> http_request" where
  "Header_Set key value req =
     req\<lparr>rq_Header := AList.update (CanonicalMIMEHeaderKey key) value (rq_Header req)\<rparr>"

section \<open>Get\<close>

text \<open>The request before it is sent; the answer; and the whole of \<open>Get\<close>.\<close>

definition docs_request :: "string \<Rightarrow> Header list \<Rightarrow> http_request \<Rightarrow> http_request" where
  "docs_request requestHost requestHeaders req =
     fold (\<lambda>h. Header_Set (hd_Name h) (hd_Value h)) requestHeaders
       ((req\<lparr>rq_Close := True\<rparr>)
          \<lparr>rq_Host := (if requestHost \<noteq> '''' then requestHost else rq_Host req)\<rparr>)"

definition docs_answer :: "URL \<Rightarrow> http_response \<Rightarrow> go_error + byte list option" where
  "docs_answer requestURL res =
     (if hr_StatusCode res \<noteq> 200
      then Inl (ErrText (''HTTP error '' @ dec_int (hr_StatusCode res) @ '' from '' @ url_String requestURL))
      else (case hr_Body res of
          Inl err \<Rightarrow> Inl (ErrWrap ''failed to read HTTP response body: '' err)
        | Inr buf \<Rightarrow> Inr (Some buf)))"

definition apiDocs_Get ::
  "(http_request \<Rightarrow> 'w \<Rightarrow> (go_error + http_response) \<times> 'w) \<Rightarrow> 'w http_get" where
  "apiDocs_Get Do requestURL requestHost requestHeaders w =
     (case NewRequest ''GET'' (url_String requestURL) of
        Inl err \<Rightarrow> (Inl err, w)
      | Inr req \<Rightarrow>
          (case Do (docs_request requestHost requestHeaders req) w of
             (Inl err, w1) \<Rightarrow> (Inl err, w1)
           | (Inr res, w1) \<Rightarrow> (docs_answer requestURL res, w1)))"

section \<open>Lemmas\<close>

lemma docs_request_rest:
  "rq_Method (docs_request host hs req) = rq_Method req" "rq_URL (docs_request host hs req) = rq_URL req"
  "rq_Host (docs_request host hs req) = (if host \<noteq> '''' then host else rq_Host req)"
  "rq_Close (docs_request host hs req) = True"
proof -
  have "rq_Method (fold (\<lambda>h. Header_Set (hd_Name h) (hd_Value h)) hs r) = rq_Method r \<and>
      rq_URL (fold (\<lambda>h. Header_Set (hd_Name h) (hd_Value h)) hs r) = rq_URL r \<and>
      rq_Host (fold (\<lambda>h. Header_Set (hd_Name h) (hd_Value h)) hs r) = rq_Host r \<and>
      rq_Close (fold (\<lambda>h. Header_Set (hd_Name h) (hd_Value h)) hs r) = rq_Close r" for r
    by (induction hs arbitrary: r) (simp_all add: Header_Set_def)
  then show "rq_Method (docs_request host hs req) = rq_Method req" "rq_URL (docs_request host hs req) = rq_URL req"
    "rq_Host (docs_request host hs req) = (if host \<noteq> '''' then host else rq_Host req)"
    "rq_Close (docs_request host hs req) = True"
    by (simp_all add: docs_request_def)
qed

text \<open>The last header of a canonical name wins.\<close>

definition named :: "string \<Rightarrow> Header list \<Rightarrow> Header list" where
  "named k hs = filter (\<lambda>h. CanonicalMIMEHeaderKey (hd_Name h) = k) hs"

lemma docs_request_header:
  "map_of (rq_Header (docs_request host hs req)) k =
     (case named k hs of [] \<Rightarrow> map_of (rq_Header req) k | ys \<Rightarrow> Some (hd_Value (last ys)))"
proof -
  have "map_of (rq_Header (fold (\<lambda>h. Header_Set (hd_Name h) (hd_Value h)) hs r)) k =
      (case named k hs of [] \<Rightarrow> map_of (rq_Header r) k | ys \<Rightarrow> Some (hd_Value (last ys)))" for r
  proof (induction hs arbitrary: r)
    case Nil
    then show ?case by (simp add: named_def)
  next
    case (Cons h hs)
    then show ?case by (auto simp: named_def Header_Set_def map_of_update_iff split: list.splits)
  qed
  from this [of "(req\<lparr>rq_Close := True\<rparr>)\<lparr>rq_Host := (if host \<noteq> '''' then host else rq_Host req)\<rparr>"]
  show ?thesis by (simp add: docs_request_def split: list.split)
qed

lemma valid_char_not_colon: "validHeaderFieldByte c \<Longrightarrow> to_upper c \<noteq> CHR '':'' \<and> to_lower c \<noteq> CHR '':''"
proof -
  assume v: "validHeaderFieldByte c"
  have of_colon: "(of_char (CHR '':'') :: nat) = 58" by simp
  have char: "char_of n \<noteq> CHR '':''" if "n \<noteq> 58" "n < 256" for n :: nat
    using that of_colon by (metis of_char_of mod_less)
  have "c \<noteq> CHR '':''" using v by (auto simp: validHeaderFieldByte_def is_alpha_def is_digit_def)
  moreover have "char_of (ord_of c - 32) \<noteq> CHR '':''" if "97 \<le> ord_of c" "ord_of c \<le> 122"
    using that by (intro char) simp_all
  moreover have "char_of (ord_of c + 32) \<noteq> CHR '':''" if "65 \<le> ord_of c" "ord_of c \<le> 90"
    using that by (intro char) simp_all
  ultimately show ?thesis by (simp add: to_upper_def to_lower_def Let_def)
qed

lemma canonical_no_colon: "\<forall>c \<in> set s. validHeaderFieldByte c \<Longrightarrow> CHR '':'' \<notin> set (canonical_from b s)"
  by (induction s arbitrary: b) (auto dest: valid_char_not_colon)

lemma canonical_authority: "CanonicalMIMEHeaderKey s = '':authority'' \<longleftrightarrow> s = '':authority''"
proof -
  have inv: "\<not> (\<forall>c \<in> set '':authority''. validHeaderFieldByte c)"
    by (auto simp: validHeaderFieldByte_def is_alpha_def is_digit_def)
  show ?thesis
  proof
    assume c: "CanonicalMIMEHeaderKey s = '':authority''"
    show "s = '':authority''"
    proof (cases "\<forall>c \<in> set s. validHeaderFieldByte c")
      case True
      from canonical_no_colon [OF True, of True] c True show ?thesis by (simp add: CanonicalMIMEHeaderKey_def)
    next
      case False
      with c show ?thesis by (simp add: CanonicalMIMEHeaderKey_def split: if_splits)
    qed
  next
    assume "s = '':authority''"
    with inv show "CanonicalMIMEHeaderKey s = '':authority''" by (simp only: CanonicalMIMEHeaderKey_def if_False)
  qed
qed

lemma NewRequest_header: "NewRequest m url = Inr req \<Longrightarrow> rq_Header req = [] \<and> rq_Method req = m"
  by (auto simp: NewRequest_def Let_def split: sum.splits)

lemma built_headers_authority:
  "named '':authority'' (buildMappingRequestHeaders ord hm) = []"
  by (auto simp: named_def canonical_authority buildMappingRequestHeaders_def filter_empty_conv split: if_splits)

section \<open>Properties\<close>

text \<open>
  C29: The request made for a mapping is a GET that closes its connection, goes to the host asked
  for (else the host of the URL), and carries the headers of the mapping with canonical names
  and never the pseudo header \<open>:authority\<close>. Its document is taken exactly when the answer has
  status 200 and a body that can be read in full; every other answer is an error.
\<close>

theorem docs_get_request:
  assumes "NewRequest ''GET'' (url_String u) = Inr req"
    and "hs = buildMappingRequestHeaders ord hm"
    and "sent = docs_request host hs req"
  shows "rq_Method sent = ''GET'' \<and> rq_Close sent \<and>
    rq_Host sent = (if host = '''' then rq_Host req else host) \<and>
    map_of (rq_Header sent) '':authority'' = None \<and>
    (\<forall>k. map_of (rq_Header sent) k =
       (case named k hs of [] \<Rightarrow> None | ys \<Rightarrow> Some (hd_Value (last ys)))) \<and>
    (apiDocs_Get Do u host hs w = (Inr doc, w') \<longleftrightarrow>
       (\<exists>res buf. Do sent w = (Inr res, w') \<and> hr_StatusCode res = 200 \<and> hr_Body res = Inr buf \<and>
          doc = Some buf))"
proof -
  note r = NewRequest_header [OF assms(1)]
  have get: "apiDocs_Get Do u host hs w = (Inr doc, w') \<longleftrightarrow>
       (\<exists>res buf. Do sent w = (Inr res, w') \<and> hr_StatusCode res = 200 \<and> hr_Body res = Inr buf \<and>
          doc = Some buf)"
    using assms(1,3) by (auto simp: apiDocs_Get_def docs_answer_def split: prod.splits sum.splits if_splits)
  have hd: "map_of (rq_Header sent) k =
       (case named k hs of [] \<Rightarrow> None | ys \<Rightarrow> Some (hd_Value (last ys)))" for k
    using r by (simp add: assms(3) docs_request_header split: list.split)
  then have "map_of (rq_Header sent) '':authority'' = None"
    by (simp add: assms(2) built_headers_authority)
  with hd get r show ?thesis by (simp add: assms(3) docs_request_rest)
qed

text \<open>A server that answers with the name of the host it was asked for.\<close>

definition echo_host :: "http_request \<Rightarrow> unit \<Rightarrow> (go_error + http_response) \<times> unit" where
  "echo_host req w = (Inr \<lparr>hr_StatusCode = 200, hr_Body = Inr (map (\<lambda>c. of_nat (of_char c)) (rq_Host req))\<rparr>, w)"

definition sample_docs_url :: URL where
  "sample_docs_url = (case Parse ''http://api.ns/openapi'' of Inr u \<Rightarrow> u | Inl e \<Rightarrow> empty_URL)"

lemma docs_get_request_witness:
  "\<exists>req. NewRequest ''GET'' (url_String sample_docs_url) = Inr req \<and>
     map_of (rq_Header (docs_request ''h'' (buildMappingRequestHeaders (\<lambda>xs. xs)
       [('':authority'', ''a''), (''x-key'', ''v'')]) req)) ''X-Key'' = Some ''v'' \<and>
     apiDocs_Get echo_host sample_docs_url ''h'' (buildMappingRequestHeaders (\<lambda>xs. xs)
       [('':authority'', ''a''), (''x-key'', ''v'')]) () = (Inr (Some [104]), ())"
proof -
  let ?hs = "buildMappingRequestHeaders (\<lambda>xs. xs) [('':authority'', ''a''), (''x-key'', ''v'')]"
  have "(case NewRequest ''GET'' (url_String sample_docs_url) of Inl e \<Rightarrow> False | Inr req \<Rightarrow> True)"
    by code_simp
  then obtain req where req: "NewRequest ''GET'' (url_String sample_docs_url) = Inr req"
    by (auto split: sum.splits)
  have n: "map hd_Value (named ''X-Key'' ?hs) = [''v'']" by code_simp
  from docs_get_request [OF req refl refl, where ord = "\<lambda>xs. xs" and hm = "[('':authority'', ''a''), (''x-key'', ''v'')]"
      and host = "''h''" and Do = echo_host and w = "()" and doc = "Some [104]" and w' = "()"] req n
  show ?thesis
    by (auto simp: echo_host_def docs_request_rest split: list.splits)
qed

end
