(* ===== verification/Docs_Overlap.thy ===== *)
theory Docs_Overlap
  imports Docs_Correct
begin

text \<open>
  The store of API documents while scrapes run in goroutines (\<open>scrape\<close> in \<open>pkg/agent/api_docs.go\<close>),
  one step per shared access: marking a mapping as seen, storing its document, and the deferred
  deletion. As long as every scrape ends within the minute the result is that of the sequential
  run of \<open>Docs_Correct\<close>; when two scrapes overlap, documents are lost.
\<close>

section \<open>Scrapes in flight\<close>

datatype docs_pc = Scraping "Mapping list" | Fetching Mapping MappingDocs "Mapping list"

record docs_job =
  dj_start :: int
  dj_sync :: bool
  dj_pc :: docs_pc

record 'w DocsRun =
  dz_store :: APIDocsStore
  dz_world :: 'w
  dz_jobs :: "docs_job list"
  dz_started :: "int list"

definition docs_init :: "'w \<Rightarrow> 'w DocsRun" where
  "docs_init w = \<lparr>dz_store = NewAPIDocsStore, dz_world = w, dz_jobs = [], dz_started = []\<rparr>"

datatype docs_action = SnapshotAt int "Snapshot option" | Mark nat | Fetch nat | Finish nat

text \<open>
  \<open>ProcessSnapshot\<close> holds its mutex, also during a scrape of its own, so no other snapshot is
  processed then. A scrape in a goroutine holds no lock.
\<close>

definition start_scrape ::
  "store_range \<Rightarrow> int \<Rightarrow> Snapshot option \<Rightarrow> 'w DocsRun \<Rightarrow> 'w DocsRun option" where
  "start_scrape sord now sn z =
     (if \<exists>j \<in> set (dz_jobs z). dj_sync j then None
      else (case plan_ProcessSnapshot sord now sn (dz_store z) of
          (a, NoScrape) \<Rightarrow> Some z
        | (a, ScrapeNow ms) \<Rightarrow> Some (z\<lparr>dz_store := a,
            dz_jobs := dz_jobs z @ [\<lparr>dj_start = now, dj_sync = True, dj_pc = Scraping ms\<rparr>],
            dz_started := dz_started z @ [now]\<rparr>)
        | (a, ScrapeLater ms) \<Rightarrow> Some (z\<lparr>dz_store := a,
            dz_jobs := dz_jobs z @ [\<lparr>dj_start = now, dj_sync = False, dj_pc = Scraping ms\<rparr>],
            dz_started := dz_started z @ [now]\<rparr>)))"

definition set_pc :: "nat \<Rightarrow> docs_pc \<Rightarrow> docs_job list \<Rightarrow> docs_job list" where
  "set_pc i pc jobs = jobs[i := (jobs ! i)\<lparr>dj_pc := pc\<rparr>]"

definition mark_mapping :: "Mapping \<Rightarrow> MappingDocs \<Rightarrow> APIDocsStore \<Rightarrow> APIDocsStore" where
  "mark_mapping mapping docs a = a\<lparr>ds_docsDiff := docsDiff_add
     (Some \<lparr>dm_Ref = Some (mapping_ref mapping), dm_Name = mapping_displayName mapping docs\<rparr>) (ds_docsDiff a)\<rparr>"

definition store_doc :: "Mapping \<Rightarrow> MappingDocs \<Rightarrow> openAPIDoc option \<Rightarrow> APIDocsStore \<Rightarrow> APIDocsStore" where
  "store_doc mapping docs doc a = a\<lparr>ds_store :=
     (case doc of None \<Rightarrow> ds_store a
      | Some x \<Rightarrow> store_add (mapping_ref mapping) (mapping_displayName mapping docs) x (ds_store a))\<rparr>"

fun docs_action_step ::
  "doc_range \<Rightarrow> header_range \<Rightarrow> store_range \<Rightarrow> 'w http_get \<Rightarrow> ('d, 'e) OpenAPI \<Rightarrow> docs_action \<Rightarrow>
   'w DocsRun \<Rightarrow> 'w DocsRun option" where
  "docs_action_step ord hord sord get oa (SnapshotAt now sn) z = start_scrape sord now sn z"
| "docs_action_step ord hord sord get oa (Mark i) z =
     (if i < length (dz_jobs z) then
        (case dj_pc (dz_jobs z ! i) of
           Scraping (mapping # ms) \<Rightarrow>
             (case m_Docs mapping of
                None \<Rightarrow> None
              | Some docs \<Rightarrow> Some (z\<lparr>dz_store := mark_mapping mapping docs (dz_store z),
                  dz_jobs := set_pc i (Fetching mapping docs ms) (dz_jobs z)\<rparr>))
         | _ \<Rightarrow> None)
      else None)"
| "docs_action_step ord hord sord get oa (Fetch i) z =
     (if i < length (dz_jobs z) then
        (case dj_pc (dz_jobs z ! i) of
           Fetching mapping docs ms \<Rightarrow>
             (case scrape_doc hord get oa mapping docs (dz_world z) of
                Panic w1 \<Rightarrow> None
              | Ret (doc, w1) \<Rightarrow> Some (z\<lparr>dz_store := store_doc mapping docs doc (dz_store z), dz_world := w1,
                  dz_jobs := set_pc i (Scraping ms) (dz_jobs z)\<rparr>))
         | _ \<Rightarrow> None)
      else None)"
| "docs_action_step ord hord sord get oa (Finish i) z =
     (if i < length (dz_jobs z) then
        (case dj_pc (dz_jobs z ! i) of
           Scraping [] \<Rightarrow>
             (case deleteOld ord (ds_docsDiff (dz_store z)) (ds_store (dz_store z)) of
                (d, store) \<Rightarrow> Some (z\<lparr>dz_store := (dz_store z)\<lparr>ds_docsDiff := d, ds_store := store\<rparr>,
                  dz_jobs := take i (dz_jobs z) @ drop (Suc i) (dz_jobs z)\<rparr>))
         | _ \<Rightarrow> None)
      else None)"

text \<open>
  A run of actions, and the condition on it: when a snapshot arrives every scrape in flight was
  started less than a minute ago.
\<close>

fun docs_actions ::
  "doc_range \<Rightarrow> header_range \<Rightarrow> store_range \<Rightarrow> 'w http_get \<Rightarrow> ('d, 'e) OpenAPI \<Rightarrow> docs_action list \<Rightarrow>
   'w DocsRun \<Rightarrow> 'w DocsRun option" where
  "docs_actions ord hord sord get oa [] z = Some z"
| "docs_actions ord hord sord get oa (x # xs) z =
     (case docs_action_step ord hord sord get oa x z of
        None \<Rightarrow> None | Some z1 \<Rightarrow> docs_actions ord hord sord get oa xs z1)"

fun prompt_action :: "docs_action \<Rightarrow> 'w DocsRun \<Rightarrow> bool" where
  "prompt_action (SnapshotAt now sn) z = (\<forall>j \<in> set (dz_jobs z). now < dj_start j + one_minute)"
| "prompt_action x z = True"

fun prompt ::
  "doc_range \<Rightarrow> header_range \<Rightarrow> store_range \<Rightarrow> 'w http_get \<Rightarrow> ('d, 'e) OpenAPI \<Rightarrow> docs_action list \<Rightarrow>
   'w DocsRun \<Rightarrow> bool" where
  "prompt ord hord sord get oa [] z = True"
| "prompt ord hord sord get oa (x # xs) z =
     (prompt_action x z \<and> (case docs_action_step ord hord sord get oa x z of
        None \<Rightarrow> True | Some z1 \<Rightarrow> prompt ord hord sord get oa xs z1))"

section \<open>Prompt scrapes are sequential\<close>

lemma docs_run_append:
  "docs_run ord hord sord get oa (cs @ ds) a w =
     bind_outcome (docs_run ord hord sord get oa cs a w) (\<lambda>(a1, ts, w1).
     bind_outcome (docs_run ord hord sord get oa ds a1 w1) (\<lambda>(a2, us, w2). Ret (a2, ts @ us, w2)))"
proof (induction cs arbitrary: a w)
  case Nil
  then show ?case by (cases "docs_run ord hord sord get oa ds a w") auto
next
  case (Cons c cs)
  obtain now sn where c: "c = (now, sn)" by (cases c)
  show ?case
  proof (cases "docs_step ord hord sord get oa now sn a w")
    case (Panic w1)
    then show ?thesis by (simp add: c)
  next
    case (Ret p)
    obtain a1 w1 where p: "p = (a1, w1)" by (cases p)
    show ?thesis
    proof (cases "docs_run ord hord sord get oa cs a1 w1")
      case (Panic w2)
      then show ?thesis using Cons.IH [of a1 w1] by (simp add: c Ret p)
    next
      case (Ret q)
      obtain a2 ts w2 where q: "q = (a2, ts, w2)" by (cases q)
      show ?thesis using Cons.IH [of a1 w1] Ret \<open>docs_step ord hord sord get oa now sn a w = Ret p\<close>
        by (cases "docs_run ord hord sord get oa ds a2 w2") (auto simp: c p q)
    qed
  qed
qed

text \<open>What a scrape in flight still does to the store.\<close>

fun rest_of_scrape ::
  "header_range \<Rightarrow> 'w http_get \<Rightarrow> ('d, 'e) OpenAPI \<Rightarrow> docs_pc \<Rightarrow> APIDocsStore \<Rightarrow> 'w \<Rightarrow>
   ('w, docsDiffCalculator \<times> docsRefMap \<times> 'w) outcome" where
  "rest_of_scrape hord get oa (Scraping ms) a w = scrape_loop hord get oa ms (ds_docsDiff a) (ds_store a) w"
| "rest_of_scrape hord get oa (Fetching mapping docs ms) a w =
     bind_outcome (scrape_doc hord get oa mapping docs w) (\<lambda>(doc, w1).
       scrape_loop hord get oa ms (ds_docsDiff a) (ds_store (store_doc mapping docs doc a)) w1)"

definition overlap_inv ::
  "doc_range \<Rightarrow> header_range \<Rightarrow> store_range \<Rightarrow> 'w http_get \<Rightarrow> ('d, 'e) OpenAPI \<Rightarrow> 'w \<Rightarrow> 'w DocsRun \<Rightarrow> bool" where
  "overlap_inv ord hord sord get oa w0 z \<longleftrightarrow>
     (case dz_jobs z of
        [] \<Rightarrow> \<exists>calls. docs_run ord hord sord get oa calls NewAPIDocsStore w0 =
                Ret (dz_store z, dz_started z, dz_world z)
      | [j] \<Rightarrow> \<exists>calls a w ts sn.
          docs_run ord hord sord get oa calls NewAPIDocsStore w0 = Ret (a, ts, w) \<and>
          dz_started z = ts @ [dj_start j] \<and> scrapes_at sord (dj_start j) sn a \<and>
          ds_DontProcessSnapshotBeforeTime a \<le> dj_start j \<and>
          ds_DontProcessSnapshotBeforeTime (dz_store z) = dj_start j + one_minute \<and>
          rest_of_scrape hord get oa (dj_pc j) (dz_store z) (dz_world z) =
            scrape_loop hord get oa (getProcessableMappingsFromSnapshot sn) (ds_docsDiff a) (ds_store a) w
      | _ \<Rightarrow> False)"

lemma start_scrape_cases:
  assumes "start_scrape sord now sn z = Some z'"
  obtains (none) "z' = z"
  | (scrape) sync where "scrapes_at sord now sn (dz_store z)"
      "ds_DontProcessSnapshotBeforeTime (dz_store z) \<le> now"
      "z' = z\<lparr>dz_store := (dz_store z)\<lparr>ds_DontProcessSnapshotBeforeTime := now + one_minute\<rparr>,
         dz_jobs := dz_jobs z @ [\<lparr>dj_start = now, dj_sync = sync,
           dj_pc = Scraping (getProcessableMappingsFromSnapshot sn)\<rparr>],
         dz_started := dz_started z @ [now]\<rparr>"
  using assms that
  by (auto simp: start_scrape_def plan_ProcessSnapshot_def scrapes_at_def Let_def split: if_splits)

lemma docs_step_scrape:
  assumes "scrapes_at sord now sn a"
  shows "docs_step ord hord sord get oa now sn a w =
    scrape ord hord get oa (getProcessableMappingsFromSnapshot sn)
      (a\<lparr>ds_DontProcessSnapshotBeforeTime := now + one_minute\<rparr>) w"
  using assms
  by (cases "scrape ord hord get oa (getProcessableMappingsFromSnapshot sn)
      (a\<lparr>ds_DontProcessSnapshotBeforeTime := now + one_minute\<rparr>) w")
    (auto simp: docs_step_def APIDocs_ProcessSnapshot_def scrapes_at_def plan_ProcessSnapshot_def Let_def
      split: if_splits prod.splits)

lemma overlap_inv_step:
  assumes "overlap_inv ord hord sord get oa w0 z" and "prompt_action x z"
    and "docs_action_step ord hord sord get oa x z = Some z'"
  shows "overlap_inv ord hord sord get oa w0 z'"
proof (cases x)
  case (SnapshotAt now sn)
  with assms(3) have st: "start_scrape sord now sn z = Some z'" by simp
  show ?thesis using st
  proof (cases rule: start_scrape_cases)
    case none
    with assms(1) show ?thesis by simp
  next
    case (scrape sync)
    show ?thesis
    proof (cases "dz_jobs z")
      case Nil
      with assms(1) obtain calls where "docs_run ord hord sord get oa calls NewAPIDocsStore w0 =
          Ret (dz_store z, dz_started z, dz_world z)" by (auto simp: overlap_inv_def)
      with scrape Nil show ?thesis by (simp add: overlap_inv_def) blast
    next
      case (Cons j js)
      with assms(1) have "ds_DontProcessSnapshotBeforeTime (dz_store z) = dj_start j + one_minute"
        by (auto simp: overlap_inv_def split: list.splits)
      with Cons scrape(2) assms(2) SnapshotAt show ?thesis by simp
    qed
  qed
next
  case (Mark i)
  with assms(3) have "i < length (dz_jobs z)" by (simp split: if_splits)
  with assms(1) obtain j where j: "dz_jobs z = [j]" "i = 0"
    by (auto simp: overlap_inv_def split: list.splits)
  with assms(3) Mark obtain m ms docs where pc: "dj_pc j = Scraping (m # ms)" and d: "m_Docs m = Some docs"
    and z': "z' = z\<lparr>dz_store := mark_mapping m docs (dz_store z), dz_jobs := [j\<lparr>dj_pc := Fetching m docs ms\<rparr>]\<rparr>"
    by (auto simp: set_pc_def split: docs_pc.splits list.splits option.splits)
  have "rest_of_scrape hord get oa (Fetching m docs ms) (mark_mapping m docs (dz_store z)) (dz_world z) =
      rest_of_scrape hord get oa (Scraping (m # ms)) (dz_store z) (dz_world z)"
    by (simp add: d Let_def mark_mapping_def store_doc_def cong: option.case_cong)
  with assms(1) j pc z' show ?thesis by (simp add: overlap_inv_def mark_mapping_def)
next
  case (Fetch i)
  with assms(3) have "i < length (dz_jobs z)" by (simp split: if_splits)
  with assms(1) obtain j where j: "dz_jobs z = [j]" "i = 0"
    by (auto simp: overlap_inv_def split: list.splits)
  with assms(3) Fetch obtain m ms docs doc w1 where pc: "dj_pc j = Fetching m docs ms"
    and s: "scrape_doc hord get oa m docs (dz_world z) = Ret (doc, w1)"
    and z': "z' = z\<lparr>dz_store := store_doc m docs doc (dz_store z), dz_world := w1, dz_jobs := [j\<lparr>dj_pc := Scraping ms\<rparr>]\<rparr>"
    by (auto simp: set_pc_def split: docs_pc.splits outcome.splits)
  have "rest_of_scrape hord get oa (Scraping ms) (store_doc m docs doc (dz_store z)) w1 =
      rest_of_scrape hord get oa (Fetching m docs ms) (dz_store z) (dz_world z)"
    by (simp add: s store_doc_def)
  with assms(1) j pc z' show ?thesis by (simp add: overlap_inv_def store_doc_def)
next
  case (Finish i)
  with assms(3) have "i < length (dz_jobs z)" by (simp split: if_splits)
  with assms(1) obtain j where j: "dz_jobs z = [j]" "i = 0"
    by (auto simp: overlap_inv_def split: list.splits)
  obtain d store where del: "deleteOld ord (ds_docsDiff (dz_store z)) (ds_store (dz_store z)) = (d, store)" by fastforce
  with j assms(3) Finish have pc: "dj_pc j = Scraping []"
    and z': "z' = z\<lparr>dz_store := (dz_store z)\<lparr>ds_docsDiff := d, ds_store := store\<rparr>, dz_jobs := []\<rparr>"
    by (auto split: docs_pc.splits list.splits)
  from assms(1) j pc obtain calls a w ts sn where
    run: "docs_run ord hord sord get oa calls NewAPIDocsStore w0 = Ret (a, ts, w)"
    and started: "dz_started z = ts @ [dj_start j]" and at: "scrapes_at sord (dj_start j) sn a"
    and time: "ds_DontProcessSnapshotBeforeTime (dz_store z) = dj_start j + one_minute"
    and rest: "scrape_loop hord get oa (getProcessableMappingsFromSnapshot sn) (ds_docsDiff a) (ds_store a) w =
       Ret (ds_docsDiff (dz_store z), ds_store (dz_store z), dz_world z)"
    by (auto simp: overlap_inv_def)
  have "scrape ord hord get oa (getProcessableMappingsFromSnapshot sn)
      (a\<lparr>ds_DontProcessSnapshotBeforeTime := dj_start j + one_minute\<rparr>) w = Ret (dz_store z', dz_world z)"
    using rest del time by (simp add: scrape_def z')
  then have "docs_step ord hord sord get oa (dj_start j) sn a w = Ret (dz_store z', dz_world z)"
    by (simp add: docs_step_scrape [OF at])
  then have "docs_run ord hord sord get oa (calls @ [(dj_start j, sn)]) NewAPIDocsStore w0 =
      Ret (dz_store z', dz_started z', dz_world z')"
    using run at started by (simp add: docs_run_append z')
  then show ?thesis by (auto simp: overlap_inv_def z')
qed

lemma overlap_inv_actions:
  "docs_actions ord hord sord get oa xs z = Some z' \<Longrightarrow> prompt ord hord sord get oa xs z \<Longrightarrow>
   overlap_inv ord hord sord get oa w0 z \<Longrightarrow> overlap_inv ord hord sord get oa w0 z'"
  by (induction xs arbitrary: z) (auto split: option.splits intro: overlap_inv_step)

lemma overlap_inv_init: "overlap_inv ord hord sord get oa w0 (docs_init w0)"
  by (simp add: overlap_inv_def docs_init_def exI [of _ "[]"])

section \<open>Overlapping scrapes\<close>

definition solo :: "Mapping list \<Rightarrow> docs_action list" where
  "solo ms = concat (map (\<lambda>m. [Mark 0, Fetch 0]) ms)"

lemma docs_actions_append:
  "docs_actions ord hord sord get oa (xs @ ys) z =
     Option.bind (docs_actions ord hord sord get oa xs z) (docs_actions ord hord sord get oa ys)"
  by (induction xs arbitrary: z) (auto split: option.split)

text \<open>A scrape that runs alone does what \<open>scrape_loop\<close> does.\<close>

lemma solo_scrape:
  assumes "docs_actions ord hord sord get oa (solo ms) z = Some z'" and "dz_jobs z = [j]"
    and "dj_pc j = Scraping ms"
  shows "\<exists>d store w. scrape_loop hord get oa ms (ds_docsDiff (dz_store z)) (ds_store (dz_store z)) (dz_world z) =
      Ret (d, store, w) \<and> dz_store z' = (dz_store z)\<lparr>ds_docsDiff := d, ds_store := store\<rparr> \<and>
      dz_jobs z' = [j\<lparr>dj_pc := Scraping []\<rparr>]"
  using assms
proof (induction ms arbitrary: z j)
  case Nil
  then show ?case by (simp add: solo_def)
next
  case (Cons m ms)
  obtain docs where d: "m_Docs m = Some docs"
    using Cons.prems by (cases "m_Docs m") (simp_all add: solo_def)
  let ?z1 = "z\<lparr>dz_store := mark_mapping m docs (dz_store z), dz_jobs := [j\<lparr>dj_pc := Fetching m docs ms\<rparr>]\<rparr>"
  from Cons.prems d obtain doc w1 where s: "scrape_doc hord get oa m docs (dz_world z) = Ret (doc, w1)"
    by (cases "scrape_doc hord get oa m docs (dz_world z)") (auto simp: solo_def set_pc_def)
  let ?z2 = "?z1\<lparr>dz_store := store_doc m docs doc (dz_store ?z1), dz_world := w1,
      dz_jobs := [j\<lparr>dj_pc := Scraping ms\<rparr>]\<rparr>"
  have run: "docs_actions ord hord sord get oa (solo ms) ?z2 = Some z'"
    using Cons.prems d s by (simp add: solo_def set_pc_def)
  from Cons.IH [OF run, of "j\<lparr>dj_pc := Scraping ms\<rparr>"] show ?case
    by (auto simp: d s Let_def mark_mapping_def store_doc_def cong: option.case_cong)
qed

lemma deleteOld_drops:
  assumes "deleteOld ord d store = (d', store')" and "range_ok ord"
    and "u \<in> dom (map_of (dd_previous d))" and "map_of (dd_current d) u \<noteq> Some True"
  shows "map_of store' u = None"
proof -
  have "set (ord (dd_previous d)) = set (dd_previous d)" by (rule range_ok_set [OF assms(2)])
  moreover from assms(3) obtain b where "(u, b) \<in> set (dd_previous d)" by (auto dest: map_of_SomeD)
  ultimately have "u \<in> set (fst (newRound ord d))" using assms(4) by (force simp: newRound_def)
  with assms(1) show ?thesis by (auto simp: deleteOld_def fold_deleteRefUID split: prod.splits)
qed

section \<open>Properties\<close>


text \<open>Two mappings, and the snapshot that holds them.\<close>

definition second_mapping :: Mapping where
  "second_mapping = sample_mapping\<lparr>ko_Meta := (ko_Meta sample_mapping)\<lparr>om_Name := ''m2'', om_UID := ''u2''\<rparr>\<rparr>"

definition two_mappings :: Snapshot where
  "two_mappings = sample_docs_snapshot\<lparr>sn_Kubernetes :=
     Some (empty_kubernetes\<lparr>ks_Mappings := [Some sample_mapping, Some second_mapping]\<rparr>)\<rparr>"

definition sample_actions :: "docs_action list \<Rightarrow> string DocsRun option" where
  "sample_actions xs = docs_actions (\<lambda>xs. xs) (\<lambda>xs. xs) (\<lambda>xs. xs) sample_get sample_oa xs (docs_init '''')"

definition first_scrape :: "docs_action list" where
  "first_scrape = [SnapshotAt 0 (Some two_mappings), Mark 0, Fetch 0, Mark 0, Fetch 0, Finish 0]"


text \<open>
  C18: When a scrape ends while another is under way, the end of the other one deletes the
  documents of every mapping that was marked before, unless it is among those the other scrape
  still had to visit: mappings of the current snapshot lose the documents they just got.
\<close>

theorem overlap_loses_documents:
  assumes "dz_jobs z = [a, b]" and "dj_pc a = Scraping []" and "dj_pc b = Scraping rest"
    and "docs_actions ord hord sord get oa (Finish 0 # solo rest @ [Finish 0]) z = Some z'"
    and "range_ok ord" and "list_all snd (dd_current (ds_docsDiff (dz_store z)))"
    and "u \<in> fst ` set (dd_current (ds_docsDiff (dz_store z)))" and "u \<notin> (\<lambda>m. GetUID m) ` set rest"
  shows "dz_jobs z' = [] \<and> map_of (ds_store (dz_store z')) u = None"
proof -
  let ?d = "ds_docsDiff (dz_store z)"
  obtain d1 s1 where del: "deleteOld ord ?d (ds_store (dz_store z)) = (d1, s1)" by fastforce
  then have d1: "d1 = \<lparr>dd_previous = dd_current ?d, dd_current = []\<rparr>"
    by (auto simp: deleteOld_def newRound_def)
  let ?z1 = "z\<lparr>dz_store := (dz_store z)\<lparr>ds_docsDiff := d1, ds_store := s1\<rparr>, dz_jobs := [b]\<rparr>"
  from assms(1-4) del obtain z2 where solo: "docs_actions ord hord sord get oa (solo rest) ?z1 = Some z2"
    and fin: "docs_action_step ord hord sord get oa (Finish 0) z2 = Some z'"
    by (auto simp: docs_actions_append bind_eq_Some_conv split: option.splits)
  from solo_scrape [OF solo, of b] assms(3) obtain d2 s2 w2 where
    loop: "scrape_loop hord get oa rest d1 s1 (dz_world z) = Ret (d2, s2, w2)"
    and z2: "dz_store z2 = (dz_store z)\<lparr>ds_docsDiff := d2, ds_store := s2\<rparr>"
      "dz_jobs z2 = [b\<lparr>dj_pc := Scraping []\<rparr>]" by auto
  have "\<forall>k b. map_of (dd_current d1) k = Some b \<longrightarrow> b" by (simp add: d1)
  note dom = scrape_loop_dom [OF loop this]
  have prev: "u \<in> dom (map_of (dd_previous d2))"
    using dom assms(7) by (simp add: d1 dom_map_of_conv_image_fst)
  have cur: "map_of (dd_current d2) u \<noteq> Some True"
    using dom assms(8) by (auto simp: d1 domIff)
  obtain d3 s3 where del2: "deleteOld ord d2 s2 = (d3, s3)" by fastforce
  from fin z2 del2 have "dz_jobs z' = []" "ds_store (dz_store z') = s3" by auto
  with deleteOld_drops [OF del2 assms(5) prev cur] show ?thesis by simp
qed

text \<open>
  The second scrape lasts longer than a minute; the third one starts before it ends. Every
  snapshot holds both mappings and every request is answered, yet one document is gone.
\<close>

definition overlap_actions :: "docs_action list" where
  "overlap_actions = first_scrape @
     [SnapshotAt one_minute (Some two_mappings), Mark 0, Fetch 0, Mark 0,
      SnapshotAt (2 * one_minute) (Some two_mappings), Mark 1, Fetch 1, Fetch 0]"

lemma overlap_loses_documents_witness:
  "\<exists>z z'. sample_actions overlap_actions = Some z \<and> sample_actions (overlap_actions @ Finish 0 # solo [second_mapping] @ [Finish 0]) = Some z' \<and>
     map_of (ds_store (dz_store z)) ''u'' \<noteq> None \<and> dz_jobs z' = [] \<and> map_of (ds_store (dz_store z')) ''u'' = None"
proof -
  let ?tail = "Finish 0 # solo [second_mapping] @ [Finish 0]"
  have "(case sample_actions overlap_actions of None \<Rightarrow> False
      | Some z \<Rightarrow> (case dz_jobs z of
            [a, b] \<Rightarrow> dj_pc a = Scraping [] \<and> dj_pc b = Scraping [second_mapping] | _ \<Rightarrow> False) \<and>
         map_of (ds_store (dz_store z)) ''u'' \<noteq> None \<and>
         list_all snd (dd_current (ds_docsDiff (dz_store z))) \<and>
         ''u'' \<in> fst ` set (dd_current (ds_docsDiff (dz_store z))) \<and>
         (case docs_actions (\<lambda>xs. xs) (\<lambda>xs. xs) (\<lambda>xs. xs) sample_get sample_oa ?tail z of None \<Rightarrow> False | Some z' \<Rightarrow> True))"
    by code_simp
  then obtain z a b z' where z: "sample_actions overlap_actions = Some z" "dz_jobs z = [a, b]"
      "dj_pc a = Scraping []" "dj_pc b = Scraping [second_mapping]"
      "map_of (ds_store (dz_store z)) ''u'' \<noteq> None"
      "list_all snd (dd_current (ds_docsDiff (dz_store z)))" "''u'' \<in> fst ` set (dd_current (ds_docsDiff (dz_store z)))"
    and run: "docs_actions (\<lambda>xs. xs) (\<lambda>xs. xs) (\<lambda>xs. xs) sample_get sample_oa ?tail z = Some z'"
    by (auto simp del: docs_actions.simps split: option.splits list.splits)
  have u: "''u'' \<notin> (\<lambda>m. GetUID m) ` set [second_mapping]" by code_simp
  have "sample_actions (overlap_actions @ ?tail) = Some z'"
    using z(1) run unfolding sample_actions_def docs_actions_append by simp
  with overlap_loses_documents [OF z(2-4) run range_ok_id z(6,7) u] z(1,5) show ?thesis by blast
qed

end
