(* ===== verification/Docs_Ends.thy ===== *)
theory Docs_Ends
  imports Docs_Overlap
begin

text \<open>
  What holds of the store of API documents in every state its scrapes reach, however their
  accesses interleave: the shape of the shared maps and of the scrapes in flight, and that the
  scrapes end.
\<close>

section \<open>The shape of a state\<close>

fun pc_documented :: "docs_pc \<Rightarrow> bool" where
  "pc_documented (Scraping ms) = documented ms"
| "pc_documented (Fetching mapping docs ms) = (m_Docs mapping = Some docs \<and> documented ms)"

definition store_wf :: "APIDocsStore \<Rightarrow> bool" where
  "store_wf a \<longleftrightarrow> gomap_wf (ds_store a) \<and> refs_ok (ds_store a) \<and>
     gomap_wf (dd_previous (ds_docsDiff a)) \<and> list_all snd (dd_previous (ds_docsDiff a)) \<and>
     gomap_wf (dd_current (ds_docsDiff a)) \<and> list_all snd (dd_current (ds_docsDiff a))"

definition jobs_wf :: "docs_job list \<Rightarrow> bool" where
  "jobs_wf jobs \<longleftrightarrow> (\<forall>j \<in> set jobs. pc_documented (dj_pc j)) \<and> length (filter dj_sync jobs) \<le> 1"

definition starts_wf :: "int \<Rightarrow> int list \<Rightarrow> bool" where
  "starts_wf next ts \<longleftrightarrow> sorted_wrt (\<lambda>s t. s + one_minute \<le> t) ts \<and> (\<forall>t \<in> set ts. t + one_minute \<le> next)"

definition docs_wf :: "'w DocsRun \<Rightarrow> bool" where
  "docs_wf z \<longleftrightarrow> store_wf (dz_store z) \<and> jobs_wf (dz_jobs z) \<and>
     starts_wf (ds_DontProcessSnapshotBeforeTime (dz_store z)) (dz_started z) \<and>
     dj_start ` set (dz_jobs z) \<subseteq> set (dz_started z)"

lemma list_all_snd_update: "list_all snd m \<Longrightarrow> list_all snd (AList.update k True m)"
  using set_update_subset_insert by (fastforce simp: list_all_iff)

lemma gomap_wf_deleteRefUID: "gomap_wf es \<Longrightarrow> gomap_wf (deleteRefUID uid es)"
proof -
  have "gomap_wf (fold (\<lambda>e es. if uid = e then AList.delete e es else es) ks es)" if "gomap_wf es"
    for ks and es :: docsRefMap
    using that by (induction ks arbitrary: es) auto
  then show "gomap_wf es \<Longrightarrow> gomap_wf (deleteRefUID uid es)" by (simp add: deleteRefUID_def)
qed

lemma gomap_wf_fold_deleteRefUID: "gomap_wf es \<Longrightarrow> gomap_wf (fold deleteRefUID uids es)"
  by (induction uids arbitrary: es) (auto intro: gomap_wf_deleteRefUID)

lemma store_wf_init: "store_wf NewAPIDocsStore"
  by (simp add: store_wf_def NewAPIDocsStore_def refs_ok_def newMappingDocsCalculator_def)

lemma store_wf_mark: "store_wf a \<Longrightarrow> store_wf (mark_mapping m docs a)"
  by (simp add: store_wf_def mark_mapping_def docsDiff_add_def list_all_snd_update)

lemma store_wf_store: "store_wf a \<Longrightarrow> store_wf (store_doc m docs doc a)"
  by (cases doc) (auto simp: store_wf_def store_doc_def store_add_def intro: refs_ok_add [unfolded store_add_def])

lemma store_wf_delete:
  assumes "store_wf a" and "deleteOld ord (ds_docsDiff a) (ds_store a) = (d, store)"
  shows "store_wf (a\<lparr>ds_docsDiff := d, ds_store := store\<rparr>)"
proof -
  from assms(2) obtain uids where d: "d = \<lparr>dd_previous = dd_current (ds_docsDiff a), dd_current = []\<rparr>"
    and store: "store = fold deleteRefUID uids (ds_store a)" by (auto simp: deleteOld_def newRound_def)
  have "refs_ok store"
    using assms(1) fold_deleteRefUID_subset [of uids "ds_store a"] by (auto simp: store_wf_def refs_ok_def store)
  with assms(1) show ?thesis by (simp add: store_wf_def d store gomap_wf_fold_deleteRefUID)
qed

lemma jobs_wf_snoc:
  assumes "jobs_wf jobs" and "\<not> (\<exists>j \<in> set jobs. dj_sync j)"
  shows "jobs_wf (jobs @ [\<lparr>dj_start = now, dj_sync = s,
    dj_pc = Scraping (getProcessableMappingsFromSnapshot sn)\<rparr>])"
proof -
  have "filter dj_sync jobs = []" using assms(2) by (simp add: filter_empty_conv)
  then show ?thesis using assms(1) processable_docs by (fastforce simp: jobs_wf_def documented_def)
qed

lemma jobs_wf_set_pc:
  assumes "jobs_wf jobs" and "i < length jobs" and "pc_documented pc"
  shows "jobs_wf (set_pc i pc jobs)" and "map dj_start (set_pc i pc jobs) = map dj_start jobs"
proof -
  have same: "map dj_sync (set_pc i pc jobs) = map dj_sync jobs"
    and starts: "map dj_start (set_pc i pc jobs) = map dj_start jobs"
    using assms(2) by (simp_all add: set_pc_def map_update list_update_same_conv)
  have count: "length (filter dj_sync js) = length (filter id (map dj_sync js))" for js :: "docs_job list"
    by (simp add: filter_map)
  have "length (filter dj_sync (set_pc i pc jobs)) = length (filter dj_sync jobs)"
    by (simp only: count same)
  moreover have "\<forall>j \<in> set (set_pc i pc jobs). pc_documented (dj_pc j)"
    using assms by (auto simp: jobs_wf_def set_pc_def dest!: subsetD [OF List.set_update_subset_insert])
  ultimately show "jobs_wf (set_pc i pc jobs)" "map dj_start (set_pc i pc jobs) = map dj_start jobs"
    using assms(1) starts by (simp_all add: jobs_wf_def)
qed

lemma jobs_wf_remove: "jobs_wf jobs \<Longrightarrow> jobs_wf (take i jobs @ drop (Suc i) jobs)"
proof -
  have "jobs = take i jobs @ take 1 (drop i jobs) @ drop (Suc i) jobs"
    by (metis append_take_drop_id drop_drop plus_1_eq_Suc)
  from arg_cong [OF this, of "\<lambda>js. length (filter dj_sync js)"]
  have "length (filter dj_sync (take i jobs @ drop (Suc i) jobs)) \<le> length (filter dj_sync jobs)"
    by (simp only: filter_append length_append)
  then show "jobs_wf jobs \<Longrightarrow> jobs_wf (take i jobs @ drop (Suc i) jobs)"
    by (auto simp: jobs_wf_def dest: in_set_takeD in_set_dropD)
qed

lemma starts_wf_snoc: "starts_wf next ts \<Longrightarrow> next \<le> now \<Longrightarrow> starts_wf (now + one_minute) (ts @ [now])"
  by (fastforce simp: starts_wf_def sorted_wrt_append one_minute_def)

lemma docs_wf_set_pc:
  assumes "docs_wf z" and "i < length (dz_jobs z)" and "pc_documented pc" and "store_wf a"
    and "ds_DontProcessSnapshotBeforeTime a = ds_DontProcessSnapshotBeforeTime (dz_store z)"
  shows "docs_wf (z\<lparr>dz_store := a, dz_world := w, dz_jobs := set_pc i pc (dz_jobs z)\<rparr>)"
proof -
  have "jobs_wf (dz_jobs z)" using assms(1) by (simp add: docs_wf_def)
  note set_pc = jobs_wf_set_pc [OF this assms(2,3)]
  have "dj_start ` set (set_pc i pc (dz_jobs z)) = dj_start ` set (dz_jobs z)"
    by (metis set_pc(2) set_map)
  with set_pc(1) assms(1,4,5) show ?thesis by (simp add: docs_wf_def)
qed

lemma docs_wf_step:
  assumes "docs_wf z" and "docs_action_step ord hord sord get oa x z = Some z'"
  shows "docs_wf z'"
proof (cases x)
  case (SnapshotAt now sn)
  with assms(2) have st: "start_scrape sord now sn z = Some z'" by simp
  then have nosync: "\<not> (\<exists>j \<in> set (dz_jobs z). dj_sync j)" by (auto simp: start_scrape_def split: if_splits)
  from st show ?thesis
  proof (cases rule: start_scrape_cases)
    case none
    with assms(1) show ?thesis by simp
  next
    case (scrape sync)
    have "jobs_wf (dz_jobs z')" using assms(1) scrape nosync by (simp add: docs_wf_def jobs_wf_snoc)
    moreover have "starts_wf (now + one_minute) (dz_started z @ [now])"
      using assms(1) scrape(2) by (intro starts_wf_snoc) (auto simp: docs_wf_def)
    ultimately show ?thesis using assms(1) scrape by (auto simp: docs_wf_def store_wf_def)
  qed
next
  case (Mark i)
  with assms(2) obtain m ms docs where i: "i < length (dz_jobs z)" and pc: "dj_pc (dz_jobs z ! i) = Scraping (m # ms)"
    and d: "m_Docs m = Some docs" and z': "z' = z\<lparr>dz_store := mark_mapping m docs (dz_store z),
      dz_jobs := set_pc i (Fetching m docs ms) (dz_jobs z)\<rparr>"
    by (auto split: if_splits docs_pc.splits list.splits option.splits)
  have "pc_documented (dj_pc (dz_jobs z ! i))" using assms(1) i by (simp add: docs_wf_def jobs_wf_def)
  with pc d have "pc_documented (Fetching m docs ms)" by (simp add: documented_def)
  moreover have "store_wf (mark_mapping m docs (dz_store z))"
    using assms(1) by (simp add: docs_wf_def store_wf_mark)
  ultimately have "docs_wf (z\<lparr>dz_store := mark_mapping m docs (dz_store z), dz_world := dz_world z,
      dz_jobs := set_pc i (Fetching m docs ms) (dz_jobs z)\<rparr>)"
    by (intro docs_wf_set_pc assms(1) i) (simp_all add: mark_mapping_def)
  then show ?thesis by (simp add: z')
next
  case (Fetch i)
  with assms(2) obtain m ms docs doc w1 where i: "i < length (dz_jobs z)"
    and pc: "dj_pc (dz_jobs z ! i) = Fetching m docs ms"
    and z': "z' = z\<lparr>dz_store := store_doc m docs doc (dz_store z), dz_world := w1,
      dz_jobs := set_pc i (Scraping ms) (dz_jobs z)\<rparr>"
    by (auto split: if_splits docs_pc.splits outcome.splits)
  have "pc_documented (dj_pc (dz_jobs z ! i))" using assms(1) i by (simp add: docs_wf_def jobs_wf_def)
  with pc have "pc_documented (Scraping ms)" by simp
  moreover have "store_wf (store_doc m docs doc (dz_store z))"
    using assms(1) by (simp add: docs_wf_def store_wf_store)
  ultimately show ?thesis unfolding z'
    by (intro docs_wf_set_pc assms(1) i) (simp_all add: store_doc_def)
next
  case (Finish i)
  obtain d store where del: "deleteOld ord (ds_docsDiff (dz_store z)) (ds_store (dz_store z)) = (d, store)" by fastforce
  with Finish assms(2) have z': "z' = z\<lparr>dz_store := (dz_store z)\<lparr>ds_docsDiff := d, ds_store := store\<rparr>,
      dz_jobs := take i (dz_jobs z) @ drop (Suc i) (dz_jobs z)\<rparr>"
    by (auto split: if_splits docs_pc.splits list.splits)
  have "store_wf (dz_store z')" using store_wf_delete [OF _ del] assms(1) by (simp add: docs_wf_def z')
  moreover have "jobs_wf (dz_jobs z')" using assms(1) by (simp add: docs_wf_def z' jobs_wf_remove)
  moreover have "set (dz_jobs z') \<subseteq> set (dz_jobs z)" by (auto simp: z' dest: in_set_takeD in_set_dropD)
  ultimately show ?thesis using assms(1) by (auto simp: docs_wf_def z')
qed

lemma docs_wf_actions:
  "docs_actions ord hord sord get oa xs z = Some z' \<Longrightarrow> docs_wf z \<Longrightarrow> docs_wf z'"
  by (induction xs arbitrary: z) (auto split: option.splits intro: docs_wf_step)

lemma docs_wf_init: "docs_wf (docs_init w)"
  by (simp add: docs_wf_def docs_init_def store_wf_init jobs_wf_def starts_wf_def)

section \<open>Scrapes end\<close>

fun pc_work :: "docs_pc \<Rightarrow> nat" where
  "pc_work (Scraping ms) = 2 * length ms + 1"
| "pc_work (Fetching mapping docs ms) = 2 * length ms + 2"

definition work :: "'w DocsRun \<Rightarrow> nat" where
  "work z = sum_list (map (\<lambda>j. pc_work (dj_pc j)) (dz_jobs z))"

fun scrape_action :: "docs_action \<Rightarrow> bool" where
  "scrape_action (SnapshotAt now sn) = False"
| "scrape_action x = True"

lemma work_zero_iff: "work z = 0 \<longleftrightarrow> dz_jobs z = []"
proof -
  have "0 < pc_work pc" for pc by (cases pc) auto
  then show ?thesis by (cases "dz_jobs z") (auto simp: work_def)
qed

lemma work_set_pc:
  assumes "i < length jobs" and "Suc (pc_work pc) = pc_work (dj_pc (jobs ! i))"
  shows "Suc (sum_list (map (\<lambda>j. pc_work (dj_pc j)) (set_pc i pc jobs))) =
    sum_list (map (\<lambda>j. pc_work (dj_pc j)) jobs)"
  using assms
proof (induction jobs arbitrary: i)
  case Nil
  then show ?case by simp
next
  case (Cons j jobs)
  then show ?case by (cases i) (auto simp: set_pc_def)
qed

lemma work_remove:
  "i < length jobs \<Longrightarrow> pc_work (dj_pc (jobs ! i)) = 1 \<Longrightarrow>
   Suc (sum_list (map (\<lambda>j. pc_work (dj_pc j)) (take i jobs @ drop (Suc i) jobs))) =
   sum_list (map (\<lambda>j. pc_work (dj_pc j)) jobs)"
proof (induction jobs arbitrary: i)
  case Nil
  then show ?case by simp
next
  case (Cons j jobs)
  then show ?case by (cases i) auto
qed

lemma step_work:
  assumes "docs_action_step ord hord sord get oa x z = Some z'" and "scrape_action x"
  shows "Suc (work z') = work z"
proof (cases x)
  case (SnapshotAt now sn)
  with assms(2) show ?thesis by simp
next
  case (Mark i)
  with assms(1) show ?thesis
    by (auto simp: work_def work_set_pc split: if_splits docs_pc.splits list.splits option.splits)
next
  case (Fetch i)
  with assms(1) show ?thesis by (auto simp: work_def work_set_pc split: if_splits docs_pc.splits outcome.splits)
next
  case (Finish i)
  with assms(1) work_remove [of i "dz_jobs z"] show ?thesis
    by (auto simp: work_def split: if_splits docs_pc.splits list.splits prod.splits)
qed

lemma actions_work:
  "docs_actions ord hord sord get oa xs z = Some z' \<Longrightarrow> list_all scrape_action xs \<Longrightarrow>
   length xs + work z' = work z"
  by (induction xs arbitrary: z) (fastforce split: option.splits dest: step_work)+

text \<open>Every document that can be read has servers, or a nil list of them.\<close>

definition readable :: "('d, 'e) OpenAPI \<Rightarrow> bool" where
  "readable oa \<longleftrightarrow> (\<forall>b doc. parseToOpenAPIV3 oa b = Inr doc \<longrightarrow> oa_servers oa doc \<noteq> Some [])"

lemma readable_fetch: "readable oa \<Longrightarrow> \<exists>r. scrape_doc hord get oa m docs w = Ret r"
proof (cases "scrape_doc hord get oa m docs w")
  case (Panic w')
  from scrape_doc_panic [OF this] show "readable oa \<Longrightarrow> ?thesis" by (auto simp: readable_def bad_answer_def)
qed simp

lemma job_progress:
  assumes "docs_wf z" and "readable oa" and "i < length (dz_jobs z)"
  shows "\<exists>x \<in> {Mark i, Fetch i, Finish i}. docs_action_step ord hord sord get oa x z \<noteq> None"
proof -
  have doc: "pc_documented (dj_pc (dz_jobs z ! i))" using assms(1,3) by (simp add: docs_wf_def jobs_wf_def)
  show ?thesis
  proof (cases "dj_pc (dz_jobs z ! i)")
    case (Scraping ms)
    with doc assms(3) show ?thesis
      by (cases ms) (auto simp: documented_def split: prod.splits)
  next
    case (Fetching m docs ms)
    then show ?thesis using readable_fetch [OF assms(2), of hord get m docs "dz_world z"] assms(3) by auto
  qed
qed

lemma scrapes_can_end:
  assumes "docs_wf z" and "readable oa"
  shows "\<exists>ys z'. list_all scrape_action ys \<and> docs_actions ord hord sord get oa ys z = Some z' \<and> dz_jobs z' = []"
  using assms(1)
proof (induction "work z" arbitrary: z)
  case 0
  from 0(1) have "dz_jobs z = []" by (simp flip: work_zero_iff)
  then have "docs_actions ord hord sord get oa [] z = Some z \<and> dz_jobs z = []" by simp
  then show ?case by (metis list.pred_inject(1))
next
  case (Suc n)
  then have "0 < length (dz_jobs z)" using work_zero_iff [of z] by auto
  from job_progress [OF Suc.prems assms(2) this, of ord hord sord get]
  obtain x z1 where "x \<in> {Mark 0, Fetch 0, Finish 0}" and st: "docs_action_step ord hord sord get oa x z = Some z1" by blast
  then have x: "scrape_action x" by auto
  have "n = work z1" using step_work [OF st x] Suc.hyps(2) by simp
  from Suc.hyps(1) [OF this docs_wf_step [OF Suc.prems st]] obtain ys z' where
    "list_all scrape_action ys" "docs_actions ord hord sord get oa ys z1 = Some z'" "dz_jobs z' = []" by blast
  with x st have "list_all scrape_action (x # ys) \<and> docs_actions ord hord sord get oa (x # ys) z = Some z' \<and>
      dz_jobs z' = []" by simp
  then show ?case by blast
qed

section \<open>Properties\<close>

text \<open>
  C26: In every state the snapshots and scrapes can reach, in every interleaving: no UID is twice in
  the store, in the previous round or in the current one; every document is filed under the UID of
  the mapping it refers to; the calculator holds only marked mappings; every mapping a scrape still
  has to visit has its documentation, so the nil dereference of \<open>mapping.Spec.Docs\<close> does not
  happen; at most one scrape runs under the lock of \<open>ProcessSnapshot\<close>; and scrapes start at least
  one minute apart.
\<close>

theorem docs_state_shape:
  assumes "docs_actions ord hord sord get oa xs (docs_init w0) = Some z"
  shows "store_wf (dz_store z) \<and> jobs_wf (dz_jobs z) \<and>
    sorted_wrt (\<lambda>s t. s + one_minute \<le> t) (dz_started z) \<and> dj_start ` set (dz_jobs z) \<subseteq> set (dz_started z)"
  using docs_wf_actions [OF assms docs_wf_init] by (simp add: docs_wf_def starts_wf_def)

lemma docs_state_shape_witness:
  "\<exists>z. sample_actions overlap_actions = Some z \<and> length (dz_jobs z) = 2 \<and> length (ds_store (dz_store z)) = 2 \<and>
     store_wf (dz_store z) \<and> jobs_wf (dz_jobs z) \<and> sorted_wrt (\<lambda>s t. s + one_minute \<le> t) (dz_started z)"
proof -
  have "(case sample_actions overlap_actions of None \<Rightarrow> False
      | Some z \<Rightarrow> length (dz_jobs z) = 2 \<and> length (ds_store (dz_store z)) = 2)" by code_simp
  then obtain z where z: "sample_actions overlap_actions = Some z" "length (dz_jobs z) = 2"
      "length (ds_store (dz_store z)) = 2" by (auto split: option.splits)
  from docs_state_shape [OF z(1) [unfolded sample_actions_def]] z show ?thesis by blast
qed

text \<open>
  C25: Scrapes end. While no further snapshot starts one, the accesses of the scrapes in flight are
  bounded by twice the mappings still to visit and one deletion each, in whatever order they run;
  a scrape that has not ended can always make its next access, whatever the others do, unless it
  fetched a document with an empty list of servers; and some run ends them all.
\<close>

theorem scrapes_terminate:
  assumes "docs_actions ord hord sord get oa xs (docs_init w0) = Some z" and "readable oa"
  shows "(\<exists>ys z'. list_all scrape_action ys \<and> docs_actions ord hord sord get oa ys z = Some z' \<and> dz_jobs z' = []) \<and>
    (\<forall>ys z'. list_all scrape_action ys \<and> docs_actions ord hord sord get oa ys z = Some z' \<longrightarrow>
      length ys \<le> work z \<and> (length ys = work z \<longleftrightarrow> dz_jobs z' = []) \<and>
      (\<forall>i < length (dz_jobs z'). \<exists>x \<in> {Mark i, Fetch i, Finish i}. docs_action_step ord hord sord get oa x z' \<noteq> None))"
proof (intro conjI allI impI)
  note wf = docs_wf_actions [OF assms(1) docs_wf_init]
  show "\<exists>ys z'. list_all scrape_action ys \<and> docs_actions ord hord sord get oa ys z = Some z' \<and> dz_jobs z' = []"
    by (rule scrapes_can_end [OF wf assms(2)])
  fix ys z' assume run: "list_all scrape_action ys \<and> docs_actions ord hord sord get oa ys z = Some z'"
  then have sum: "length ys + work z' = work z" using actions_work by blast
  then show "length ys \<le> work z" by simp
  show "length ys = work z \<longleftrightarrow> dz_jobs z' = []" using sum work_zero_iff [of z'] by auto
  fix i assume "i < length (dz_jobs z')"
  then show "\<exists>x \<in> {Mark i, Fetch i, Finish i}. docs_action_step ord hord sord get oa x z' \<noteq> None"
    using job_progress [OF docs_wf_actions [OF _ wf] assms(2)] run by blast
qed

lemma scrapes_terminate_witness:
  "\<exists>z ys z'. sample_actions overlap_actions = Some z \<and> work z = 4 \<and> length ys = 4 \<and>
     docs_actions (\<lambda>xs. xs) (\<lambda>xs. xs) (\<lambda>xs. xs) sample_get sample_oa ys z = Some z' \<and> dz_jobs z' = []"
proof -
  have "(case sample_actions overlap_actions of None \<Rightarrow> False | Some z \<Rightarrow> work z = 4)" by code_simp
  then obtain z where z: "sample_actions overlap_actions = Some z" "work z = 4" by (auto split: option.splits)
  have "readable sample_oa" by (simp add: readable_def sample_oa_def)
  from scrapes_terminate [OF z(1) [unfolded sample_actions_def] this] z show ?thesis by metis
qed

end
