(* ===== verification/Dynamic_Client.thy ===== *)
theory Dynamic_Client
  imports Argo_Watch
begin

text \<open>
  The shared client of \<open>pkg/agent/k8s.go\<close> with its lock and its unbuffered channels, one step
  per blocking point, and the loop \<open>argoWatch\<close> of \<open>pkg/agent/agent.go\<close> that starts and cancels
  its watches. The atomic client of \<open>Argo_Watch\<close> is its specification.
\<close>

section \<open>State\<close>

text \<open>
  Per call of \<open>WatchGeneric\<close>: the event handler of the informer (idle, waiting for the lock with
  a callback, or in the send statement, with the lock), the reader of the channel (in its
  \<open>select\<close>, processing a callback, or returned), whether the context is cancelled, whether the
  channel is closed, and the callbacks received so far.
\<close>

datatype handler_pc = HIdle | HLocking GenericCallback | HSending GenericCallback
datatype reader_pc = RSelect | RProcess | RReturned

record GenericWatch =
  gw_handler :: handler_pc
  gw_reader :: reader_pc
  gw_cancelled :: bool
  gw_closed :: bool
  gw_received :: "GenericCallback list"

record Client =
  cl_mux :: "nat option"
  cl_done :: bool
  cl_crashed :: bool
  cl_watches :: "nat \<Rightarrow> GenericWatch"

definition new_watch :: GenericWatch where
  "new_watch = \<lparr>gw_handler = HIdle, gw_reader = RSelect, gw_cancelled = False, gw_closed = False,
     gw_received = []\<rparr>"

definition NewClient :: Client where
  "NewClient = \<lparr>cl_mux = None, cl_done = False, cl_crashed = False, cl_watches = (\<lambda>_. new_watch)\<rparr>"

definition set_watch :: "nat \<Rightarrow> GenericWatch \<Rightarrow> Client \<Rightarrow> Client" where
  "set_watch ch g c = c\<lparr>cl_watches := (cl_watches c)(ch := g)\<rparr>"

lemma set_watch_simps [simp]:
  "cl_mux (set_watch ch g c) = cl_mux c" "cl_done (set_watch ch g c) = cl_done c"
  "cl_crashed (set_watch ch g c) = cl_crashed c"
  "cl_watches (set_watch ch g c) = (cl_watches c)(ch := g)"
  by (simp_all add: set_watch_def)

section \<open>Steps\<close>

text \<open>
  \<open>sendCallback\<close> takes the lock, returns when the client is done, and otherwise stays in the send
  statement until the reader receives; only then it releases the lock. A send on a closed
  channel panics. The goroutine of a cancelled context needs the lock to set the flag and close
  the channel; the reader returns as soon as it sees the context done.
\<close>

inductive client_moves :: "Client \<Rightarrow> Client \<Rightarrow> bool" where
  event: "\<not> cl_crashed c \<Longrightarrow> gw_handler (cl_watches c ch) = HIdle \<Longrightarrow>
     client_moves c (set_watch ch ((cl_watches c ch)\<lparr>gw_handler := HLocking cb\<rparr>) c)"
| drop: "\<not> cl_crashed c \<Longrightarrow> gw_handler (cl_watches c ch) = HLocking cb \<Longrightarrow> cl_mux c = None \<Longrightarrow> cl_done c \<Longrightarrow>
     client_moves c (set_watch ch ((cl_watches c ch)\<lparr>gw_handler := HIdle\<rparr>) c)"
| lock: "\<not> cl_crashed c \<Longrightarrow> gw_handler (cl_watches c ch) = HLocking cb \<Longrightarrow> cl_mux c = None \<Longrightarrow>
     \<not> cl_done c \<Longrightarrow>
     client_moves c (set_watch ch ((cl_watches c ch)\<lparr>gw_handler := HSending cb\<rparr>) (c\<lparr>cl_mux := Some ch\<rparr>))"
| send: "\<not> cl_crashed c \<Longrightarrow> gw_handler (cl_watches c ch) = HSending cb \<Longrightarrow>
     \<not> gw_closed (cl_watches c ch) \<Longrightarrow> gw_reader (cl_watches c ch) = RSelect \<Longrightarrow>
     client_moves c (set_watch ch ((cl_watches c ch)\<lparr>gw_handler := HIdle, gw_reader := RProcess,
       gw_received := gw_received (cl_watches c ch) @ [cb]\<rparr>) (c\<lparr>cl_mux := None\<rparr>))"
| send_closed: "\<not> cl_crashed c \<Longrightarrow> gw_handler (cl_watches c ch) = HSending cb \<Longrightarrow>
     gw_closed (cl_watches c ch) \<Longrightarrow> client_moves c (c\<lparr>cl_crashed := True\<rparr>)"
| processed: "\<not> cl_crashed c \<Longrightarrow> gw_reader (cl_watches c ch) = RProcess \<Longrightarrow>
     client_moves c (set_watch ch ((cl_watches c ch)\<lparr>gw_reader := RSelect\<rparr>) c)"
| cancel: "\<not> cl_crashed c \<Longrightarrow>
     client_moves c (set_watch ch ((cl_watches c ch)\<lparr>gw_cancelled := True\<rparr>) c)"
| reader_returns: "\<not> cl_crashed c \<Longrightarrow> gw_reader (cl_watches c ch) = RSelect \<Longrightarrow>
     gw_cancelled (cl_watches c ch) \<Longrightarrow>
     client_moves c (set_watch ch ((cl_watches c ch)\<lparr>gw_reader := RReturned\<rparr>) c)"
| close: "\<not> cl_crashed c \<Longrightarrow> gw_cancelled (cl_watches c ch) \<Longrightarrow> \<not> gw_closed (cl_watches c ch) \<Longrightarrow>
     cl_mux c = None \<Longrightarrow>
     client_moves c (set_watch ch ((cl_watches c ch)\<lparr>gw_closed := True\<rparr>) (c\<lparr>cl_done := True\<rparr>))"

inductive_cases client_movesE: "client_moves c c'"

section \<open>Mutual exclusion\<close>

definition client_safe :: "Client \<Rightarrow> bool" where
  "client_safe c \<longleftrightarrow> \<not> cl_crashed c \<and>
     (\<forall>ch. (\<exists>cb. gw_handler (cl_watches c ch) = HSending cb) \<longleftrightarrow> cl_mux c = Some ch) \<and>
     (cl_mux c \<noteq> None \<longrightarrow> \<not> cl_done c) \<and>
     (\<forall>ch. gw_closed (cl_watches c ch) \<longrightarrow> cl_done c)"

lemma client_safe_new: "client_safe NewClient"
  by (simp add: client_safe_def NewClient_def new_watch_def)

lemma client_safe_step:
  assumes "client_moves c c'" and "client_safe c"
  shows "client_safe c'"
  using assms
proof cases
  case (send_closed ch cb)
  then have False using assms(2) unfolding client_safe_def by (metis option.distinct(1))
  then show ?thesis ..
next
  case (lock ch cb)
  then show ?thesis using assms(2) by (auto simp: client_safe_def)
next
  case (send ch cb)
  have mux: "cl_mux c = Some ch" using send(3) assms(2) unfolding client_safe_def by blast
  have others: "gw_handler (cl_watches c k) \<noteq> HSending cb'" if "k \<noteq> ch" for k cb'
    using that mux assms(2) unfolding client_safe_def by (metis option.inject)
  have "\<not> cl_done c" and "\<not> gw_closed (cl_watches c k)" for k
    using mux assms(2) unfolding client_safe_def by blast+
  with send(1,2) others show ?thesis by (simp add: client_safe_def)
next
  case (event ch cb)
  have "cl_mux c \<noteq> Some ch" using event(3) assms(2) unfolding client_safe_def by (metis handler_pc.distinct(3))
  with event show ?thesis using assms(2) by (auto simp: client_safe_def)
qed (auto simp: client_safe_def)

lemma client_safe_reach: "rtranclp client_moves c c' \<Longrightarrow> client_safe c \<Longrightarrow> client_safe c'"
  by (induction rule: rtranclp_induct) (auto intro: client_safe_step)

section \<open>The atomic client as the specification\<close>

definition atomic_client :: "Client \<Rightarrow> DynamicClient" where
  "atomic_client c = \<lparr>dc_done = cl_done c, dc_closed = (\<lambda>ch. gw_closed (cl_watches c ch)),
     dc_received = (\<lambda>ch. gw_received (cl_watches c ch))\<rparr>"

lemma NewClient_atomic: "atomic_client NewClient = NewDynamicClient"
  by (simp add: atomic_client_def NewClient_def NewDynamicClient_def new_watch_def)

lemma client_step_refines:
  assumes "client_moves c c'" and "client_safe c"
  shows "\<exists>es. client_run es (atomic_client c) = Ret (atomic_client c')"
proof -
  have stay: ?thesis if "atomic_client c' = atomic_client c"
    using that by (intro exI [of _ "[]"]) simp
  from assms show ?thesis
  proof cases
    case (send ch cb)
    have "\<not> cl_done c" using send assms(2) by (auto simp: client_safe_def)
    then show ?thesis using send
      by (intro exI [of _ "[Fire ch cb]"]) (simp add: atomic_client_def sendCallback_def fun_eq_iff)
  next
    case (close ch)
    then show ?thesis
      by (intro exI [of _ "[WatchCancelled ch]"]) (simp add: atomic_client_def watch_cancelled_def fun_eq_iff)
  next
    case (send_closed ch cb)
    then show ?thesis by (intro stay) (simp add: atomic_client_def)
  qed (rule stay, simp add: atomic_client_def fun_eq_iff)+
qed

lemma client_reach_refines:
  assumes "rtranclp client_moves NewClient c"
  shows "\<exists>es. client_run es NewDynamicClient = Ret (atomic_client c)"
  using assms
proof (induction rule: rtranclp_induct)
  case base
  have "client_run [] NewDynamicClient = Ret (atomic_client NewClient)" by (simp add: NewClient_atomic)
  then show ?case by blast
next
  case (step c c')
  from step.IH obtain es where es: "client_run es NewDynamicClient = Ret (atomic_client c)" by blast
  from client_safe_reach [OF step.hyps(1) client_safe_new] client_step_refines [OF step.hyps(2)]
  obtain fs where "client_run fs (atomic_client c) = Ret (atomic_client c')" by blast
  with es have "client_run (es @ fs) NewDynamicClient = Ret (atomic_client c')"
    by (simp add: client_run_append)
  then show ?case by blast
qed

section \<open>A reader that returned\<close>

text \<open>
  The state the lock is lost in: a handler is in its send statement and the reader of its
  channel has returned. Nothing leaves that state.
\<close>

definition lock_lost :: "nat \<Rightarrow> Client \<Rightarrow> bool" where
  "lock_lost ch c \<longleftrightarrow> client_safe c \<and> (\<exists>cb. gw_handler (cl_watches c ch) = HSending cb) \<and>
     gw_reader (cl_watches c ch) = RReturned"

lemma lock_lost_step:
  assumes "client_moves c c'" and "lock_lost ch c"
  shows "lock_lost ch c' \<and> atomic_client c' = atomic_client c"
proof -
  from client_safe_step [OF assms(1)] assms(2) have safe: "client_safe c'" by (simp add: lock_lost_def)
  from assms(2) have mux: "cl_mux c = Some ch" and open_ch: "\<not> gw_closed (cl_watches c k)" for k
    unfolding lock_lost_def client_safe_def by blast+
  have only: "k = ch" if "gw_handler (cl_watches c k) = HSending cb" for k cb
    using that assms(2) mux unfolding lock_lost_def client_safe_def by (metis option.inject)
  from assms(1) show ?thesis
  proof cases
    case (send k cb)
    with only [OF send(3)] assms(2) show ?thesis by (simp add: lock_lost_def)
  next
    case (send_closed k cb)
    with open_ch show ?thesis by simp
  qed (use mux assms(2) safe in \<open>auto simp: lock_lost_def atomic_client_def fun_eq_iff\<close>)
qed

lemma lock_lost_reach:
  "rtranclp client_moves c c' \<Longrightarrow> lock_lost ch c \<Longrightarrow> lock_lost ch c' \<and> atomic_client c' = atomic_client c"
  by (induction rule: rtranclp_induct) (auto dest: lock_lost_step)

text \<open>The shortest run into it: an event, the lock, the cancellation, and the reader that returns.\<close>

definition lost_client :: "nat \<Rightarrow> GenericCallback \<Rightarrow> Client" where
  "lost_client ch cb = set_watch ch (new_watch\<lparr>gw_handler := HSending cb, gw_reader := RReturned,
     gw_cancelled := True\<rparr>) (NewClient\<lparr>cl_mux := Some ch\<rparr>)"

lemma lost_client_reached: "rtranclp client_moves NewClient (lost_client ch cb)"
proof -
  let ?w = "\<lambda>c. cl_watches c ch"
  define c1 where "c1 = set_watch ch (new_watch\<lparr>gw_handler := HLocking cb\<rparr>) NewClient"
  define c2 where "c2 = set_watch ch (new_watch\<lparr>gw_handler := HSending cb\<rparr>) (NewClient\<lparr>cl_mux := Some ch\<rparr>)"
  define c3 where "c3 = set_watch ch (new_watch\<lparr>gw_handler := HSending cb, gw_cancelled := True\<rparr>)
     (NewClient\<lparr>cl_mux := Some ch\<rparr>)"
  have "client_moves NewClient c1"
    using client_moves.event [of NewClient ch cb] by (simp add: c1_def NewClient_def new_watch_def)
  moreover have "client_moves c1 c2"
    using client_moves.lock [of c1 ch cb] by (simp add: c1_def c2_def NewClient_def new_watch_def set_watch_def)
  moreover have "client_moves c2 c3"
    using client_moves.cancel [of c2 ch] by (simp add: c2_def c3_def NewClient_def new_watch_def set_watch_def)
  moreover have "client_moves c3 (lost_client ch cb)"
    using client_moves.reader_returns [of c3 ch]
    by (simp add: c3_def lost_client_def NewClient_def new_watch_def set_watch_def)
  ultimately show ?thesis by (meson rtranclp.rtrancl_refl rtranclp.rtrancl_into_rtrancl)
qed

lemma lost_client_lost: "lock_lost ch (lost_client ch cb)"
  using client_safe_reach [OF lost_client_reached client_safe_new]
  by (simp add: lock_lost_def lost_client_def)

section \<open>The loop that starts and cancels the watches\<close>

text \<open>
  \<open>argoWatch\<close> on the error of making the client and the answers of the discovery: it returns at the first error, or when the list
  ends, which is the end of its context; the deferred function cancels the watches that run.
\<close>

definition argoWatch_deferred :: "argo_watch \<Rightarrow> argo_action list" where
  "argoWatch_deferred aw = (if aw_cancelRollout aw then [CancelRollouts] else []) @
     (if aw_cancelApplication aw then [CancelApplications] else [])"

fun argoWatch_loop :: "(go_error + APIResourceList list) list \<Rightarrow> argo_watch \<Rightarrow> argo_action list" where
  "argoWatch_loop [] aw = argoWatch_deferred aw"
| "argoWatch_loop (Inl err # ds) aw = argoWatch_deferred aw"
| "argoWatch_loop (Inr resourcesLists # ds) aw =
     (case argoWatch_round resourcesLists aw of (aw', acts, minutes) \<Rightarrow> acts @ argoWatch_loop ds aw')"

definition argoWatch ::
  "go_error option \<Rightarrow> (go_error + APIResourceList list) list \<Rightarrow> argo_action list" where
  "argoWatch client_err ds =
     (case client_err of
        Some err \<Rightarrow> []
      | None \<Rightarrow> argoWatch_loop ds \<lparr>aw_cancelRollout = False, aw_cancelApplication = False\<rparr>)"

fun about_rollouts :: "argo_action \<Rightarrow> bool" where
  "about_rollouts StartRollouts = True"
| "about_rollouts CancelRollouts = True"
| "about_rollouts a = False"

text \<open>A history in which each start is followed by its one cancellation.\<close>

fun paired :: "argo_action \<Rightarrow> argo_action \<Rightarrow> bool \<Rightarrow> argo_action list \<Rightarrow> bool" where
  "paired on off running [] = (\<not> running)"
| "paired on off running (a # as) = ((if running then a = off else a = on) \<and> paired on off (\<not> running) as)"

lemma argoWatch_loop_paired:
  "paired StartRollouts CancelRollouts (aw_cancelRollout aw) (filter about_rollouts (argoWatch_loop ds aw)) \<and>
   paired StartApplications CancelApplications (aw_cancelApplication aw)
     (filter (Not \<circ> about_rollouts) (argoWatch_loop ds aw))"
proof (induction ds arbitrary: aw)
  case Nil
  then show ?case by (cases "aw_cancelRollout aw"; cases "aw_cancelApplication aw") (simp_all add: argoWatch_deferred_def)
next
  case (Cons d ds)
  show ?case
  proof (cases d)
    case (Inl err)
    then show ?thesis
      by (cases "aw_cancelRollout aw"; cases "aw_cancelApplication aw") (simp_all add: argoWatch_deferred_def)
  next
    case (Inr rls)
    let ?r = "hasResource rls rolloutGvr" and ?a = "hasResource rls applicationGvr"
    note ih = Cons.IH [of "\<lparr>aw_cancelRollout = ?r, aw_cancelApplication = ?a\<rparr>"]
    from Inr ih show ?thesis
      by (cases ?r; cases ?a; cases "aw_cancelRollout aw"; cases "aw_cancelApplication aw")
        (simp_all add: argoWatch_round_def Let_def)
  qed
qed

lemma argoWatch_loop_error: "argoWatch_loop (ds @ Inl err # rest) aw = argoWatch_loop ds aw"
proof (induction ds arbitrary: aw)
  case (Cons d ds)
  then show ?case by (cases d) (simp_all split: prod.split)
qed simp

section \<open>Properties\<close>

text \<open>
  C14: The client with its lock and unbuffered channels behaves as the atomic one: whatever the
  informers, readers and contexts do, no send on a closed channel happens, one handler at most
  is in the send statement, and what the watches have received is what some sequence of atomic
  sends and cancellations gives.
\<close>

theorem client_refines_atomic:
  assumes "rtranclp client_moves NewClient c"
  shows "\<not> cl_crashed c \<and>
    (\<forall>i j cb cb'. gw_handler (cl_watches c i) = HSending cb \<longrightarrow>
       gw_handler (cl_watches c j) = HSending cb' \<longrightarrow> i = j) \<and>
    (\<exists>es. client_run es NewDynamicClient = Ret (atomic_client c))"
  using client_safe_reach [OF assms client_safe_new] client_reach_refines [OF assms]
  unfolding client_safe_def by (metis option.inject)

lemma client_refines_atomic_witness:
  "\<exists>es. client_run es NewDynamicClient = Ret (atomic_client (lost_client 0 (on_add (sample_rollout_object ''u'') [])))"
  using client_refines_atomic [OF lost_client_reached] by blast



text \<open>
  C40: Over the whole life of the loop, for any answers of the discovery, the watches of rollouts
  and of applications are started and cancelled in turn, beginning with a start, and every watch
  that was started is cancelled when the loop returns. One failed discovery is such an end: whatever
  the cluster would answer later, nothing is watched any more.
\<close>

theorem argo_watches_paired:
  "paired StartRollouts CancelRollouts False (filter about_rollouts (argoWatch client_err ds)) \<and>
   paired StartApplications CancelApplications False (filter (Not \<circ> about_rollouts) (argoWatch client_err ds)) \<and>
   argoWatch client_err (ds @ Inl err # later) = argoWatch client_err ds"
  using argoWatch_loop_paired [of "\<lparr>aw_cancelRollout = False, aw_cancelApplication = False\<rparr>" ds]
  by (simp add: argoWatch_def argoWatch_loop_error split: option.split)

end
