(* ===== verification/Env_Load.thy ===== *)
theory Env_Load
  imports Env_Config
begin

text \<open>
  What the tags of \<open>type Env\<close> say (\<open>pkg/agent/env.go\<close>): the variable, the parser and the default of
  every field, the table of parsers \<open>fieldTypeHandlers\<close>, and what an environment that loads
  therefore holds. The library that reads the tags is a parameter.
\<close>

section \<open>The table of parsers\<close>

text \<open>
  The handlers the library comes with: text that must not be empty, text that may, booleans, and
  addresses that must be absolute. The code renames two of them and adds five types.
\<close>

record DefaultHandlers =
  df_nonempty_string :: "string \<Rightarrow> go_error + string"
  df_possibly_empty_string :: "string \<Rightarrow> go_error + string"
  df_ParseBool :: "string \<Rightarrow> go_error + bool"
  df_absolute_URL :: "string \<Rightarrow> go_error + URL"

record FieldHandlers =
  fh_string :: "string \<Rightarrow> go_error + string"
  fh_bool :: "string \<Rightarrow> go_error + bool"
  fh_absolute_URL :: "string \<Rightarrow> go_error + URL"
  fh_log_level :: "string \<Rightarrow> go_error + nat"
  fh_report_period :: "string \<Rightarrow> go_error + duration"
  fh_split_trim :: "string \<Rightarrow> go_error + string list"
  fh_conn_info :: "string \<Rightarrow> go_error + ConnInfo"
  fh_port_number :: "string \<Rightarrow> go_error + 16 word"

text \<open>\<open>ParseLevel\<close> is the parser of logrus, \<open>fmul\<close> the scaling of a fraction in \<open>time.ParseDuration\<close>.\<close>

definition fieldTypeHandlers ::
  "DefaultHandlers \<Rightarrow> (string \<Rightarrow> go_error + nat) \<Rightarrow> (nat \<Rightarrow> nat \<Rightarrow> nat \<Rightarrow> nat) \<Rightarrow> FieldHandlers" where
  "fieldTypeHandlers fhs ParseLevel fmul =
     \<lparr>fh_string = df_possibly_empty_string fhs,
      fh_bool = df_ParseBool fhs,
      fh_absolute_URL = df_absolute_URL fhs,
      fh_log_level = parse_log_level ParseLevel,
      fh_report_period = parse_report_period fmul,
      fh_split_trim = (\<lambda>str. Inr (parse_split_trim str)),
      fh_conn_info = connInfoFromAddress,
      fh_port_number = parse_port_number\<rparr>"

text \<open>As documented: text that may be empty is taken as it is, booleans are those of \<open>strconv\<close>.\<close>

definition documented_handlers :: "DefaultHandlers \<Rightarrow> bool" where
  "documented_handlers fhs \<longleftrightarrow> (\<forall>s. df_possibly_empty_string fhs s = Inr s) \<and>
     (\<forall>s b. df_ParseBool fhs s = Inr b \<longrightarrow>
        s \<in> (if b then {''1'', ''t'', ''T'', ''TRUE'', ''true'', ''True''}
             else {''0'', ''f'', ''F'', ''FALSE'', ''false'', ''False''}))"

section \<open>The tags\<close>

definition text_of :: "(string \<Rightarrow> string option) \<Rightarrow> string \<Rightarrow> string \<Rightarrow> string" where
  "text_of lookup name absent = (case lookup name of None \<Rightarrow> absent | Some s \<Rightarrow> s)"

fun field_errors :: "go_error + 'a \<Rightarrow> go_error list" where
  "field_errors (Inl err) = [err]"
| "field_errors (Inr x) = []"

definition tagged_env :: "FieldHandlers \<Rightarrow> (string \<Rightarrow> string option) \<Rightarrow> go_error list + Env" where
  "tagged_env fh lookup =
     (let var = text_of lookup;
          level = fh_log_level fh (var ''LOG_LEVEL'' ''info'');
          snapshotURL = fh_absolute_URL fh (var ''AES_SNAPSHOT_URL'' ''http://ambassador-admin:8005/snapshot-external'');
          diagnosticsURL = fh_absolute_URL fh
            (var ''AES_DIAGNOSTICS_URL'' ''http://ambassador-admin:8877/ambassador/v0/diag/?json=true'');
          reportDiagnostics = fh_bool fh (var ''AES_REPORT_DIAGNOSTICS_TO_CLOUD'' ''false'');
          scout = fh_string fh (var ''AMBASSADOR_SCOUT_ID'' '''');
          cluster = (case lookup ''AMBASSADOR_CLUSTER_ID'' of None \<Rightarrow> scout | Some s \<Rightarrow> fh_string fh s);
          ambassador = fh_string fh (var ''AMBASSADOR_ID'' ''default'');
          apiKey = fh_string fh (var ''CLOUD_CONNECT_TOKEN'' '''');
          conn = fh_conn_info fh (var ''RPC_CONNECTION_ADDRESS'' '''');
          ns = fh_string fh (var ''AGENT_NAMESPACE'' ''ambassador'');
          service = fh_string fh (var ''AGENT_SERVICE_NAME'' ''ambassador-agent'');
          resource = fh_string fh (var ''AGENT_CONFIG_RESOURCE_NAME'' '''');
          selector = fh_string fh (var ''AGENT_WATCH_FIELD_SELECTOR'' ''metadata.namespace!=kube-system'');
          period = fh_report_period fh (var ''AGENT_REPORTING_PERIOD'' '''');
          namespaces = fh_split_trim fh (var ''NAMESPACES_TO_WATCH'' '''');
          headerKey = fh_string fh (var ''RPC_INTERCEPT_HEADER_KEY'' '''');
          headerValue = fh_string fh (var ''RPC_INTERCEPT_HEADER_VALUE'' '''');
          host = fh_string fh (var ''SERVER_HOST'' '''');
          port = fh_port_number fh (var ''SERVER_PORT'' ''8081'');
          errs = field_errors level @ field_errors snapshotURL @ field_errors diagnosticsURL @
            field_errors reportDiagnostics @
            concat (map field_errors [scout, cluster, ambassador, apiKey]) @ field_errors conn @
            concat (map field_errors [ns, service, resource, selector]) @ field_errors period @
            field_errors namespaces @ concat (map field_errors [headerKey, headerValue, host]) @ field_errors port
      in if errs \<noteq> [] then Inl errs
         else Inr \<lparr>LogLevel = projr level, AESSnapshotURL = projr snapshotURL,
           AESDiagnosticsURL = projr diagnosticsURL, AESReportDiagnostics = projr reportDiagnostics,
           ScoutID = projr scout, ClusterID = projr cluster, AmbassadorID = projr ambassador,
           AmbassadorAPIKey = projr apiKey, ConnAddress = projr conn, AgentNamespace = projr ns,
           AgentServiceName = projr service, AgentConfigResourceName = projr resource,
           AgentWatchFieldSelector = projr selector, MinReportPeriod = projr period,
           NamespacesToWatch = projr namespaces, RpcInterceptHeaderKey = projr headerKey,
           RpcInterceptHeaderValue = projr headerValue, ServerHost = projr host, ServerPort = projr port\<rparr>)"

text \<open>
  The library, as documented: an environment it reads without warning and without error is the one
  of the tags. An address that is set to nothing is left open.
\<close>

definition respects_tags ::
  "FieldHandlers \<Rightarrow> ((string \<Rightarrow> string option) \<Rightarrow> Env \<times> go_error list \<times> go_error list) \<Rightarrow> bool" where
  "respects_tags fh parseFromEnv \<longleftrightarrow> (\<forall>lookup env.
     lookup ''AES_SNAPSHOT_URL'' \<noteq> Some '''' \<longrightarrow> lookup ''AES_DIAGNOSTICS_URL'' \<noteq> Some '''' \<longrightarrow>
     parseFromEnv lookup = (env, [], []) \<longrightarrow> tagged_env fh lookup = Inr env)"

section \<open>What a loaded environment holds\<close>

lemma connInfo_default:
  "connInfoFromAddress '''' = Inr \<lparr>ci_hostname = ''app.getambassador.io'', ci_port = ''443'', ci_secure = True\<rparr>"
  using connInfo_usable_witness by (simp add: defaultHostname_def defaultPort_def)

lemma field_errors_Nil: "field_errors r = [] \<longleftrightarrow> (\<exists>x. r = Inr x)"
  by (cases r) auto

lemma tagged_env_errors: "tagged_env fh lookup \<noteq> Inl []"
  unfolding tagged_env_def Let_def by (simp only: if_split_eq1) simp

lemma tagged_env_fields:
  assumes "tagged_env fh lookup = Inr env"
  shows "fh_report_period fh (text_of lookup ''AGENT_REPORTING_PERIOD'' '''') = Inr (MinReportPeriod env)"
    "fh_conn_info fh (text_of lookup ''RPC_CONNECTION_ADDRESS'' '''') = Inr (ConnAddress env)"
    "fh_bool fh (text_of lookup ''AES_REPORT_DIAGNOSTICS_TO_CLOUD'' ''false'') = Inr (AESReportDiagnostics env)"
    "fh_string fh (text_of lookup ''CLOUD_CONNECT_TOKEN'' '''') = Inr (AmbassadorAPIKey env)"
    "(case lookup ''AMBASSADOR_CLUSTER_ID'' of
        None \<Rightarrow> fh_string fh (text_of lookup ''AMBASSADOR_SCOUT_ID'' '''')
      | Some s \<Rightarrow> fh_string fh s) = Inr (ClusterID env)"
    "fh_split_trim fh (text_of lookup ''NAMESPACES_TO_WATCH'' '''') = Inr (NamespacesToWatch env)"
    "fh_port_number fh (text_of lookup ''SERVER_PORT'' ''8081'') = Inr (ServerPort env)"
  using assms unfolding tagged_env_def Let_def
  by (auto simp: field_errors_Nil split: if_splits)


text \<open>The documented handlers and the tags themselves as the library, in an empty environment.\<close>

definition sample_handlers :: DefaultHandlers where
  "sample_handlers = \<lparr>df_nonempty_string = (\<lambda>s. if s = '''' then Inl (ErrText ''empty'') else Inr s),
     df_possibly_empty_string = Inr,
     df_ParseBool = (\<lambda>s. if s \<in> {''1'', ''t'', ''T'', ''TRUE'', ''true'', ''True''} then Inr True
       else if s \<in> {''0'', ''f'', ''F'', ''FALSE'', ''false'', ''False''} then Inr False
       else Inl (ErrText ''invalid syntax'')),
     df_absolute_URL = (\<lambda>s. Inr empty_URL)\<rparr>"

definition sample_fh :: FieldHandlers where
  "sample_fh = fieldTypeHandlers sample_handlers (\<lambda>s. Inr 4) (\<lambda>a b c. a)"

definition sample_parse :: "(string \<Rightarrow> string option) \<Rightarrow> Env \<times> go_error list \<times> go_error list" where
  "sample_parse lookup =
     (case tagged_env sample_fh lookup of Inl errs \<Rightarrow> (undefined, [], errs) | Inr env \<Rightarrow> (env, [], []))"

lemma sample_fh_values:
  "fh_string sample_fh s = Inr s" "fh_absolute_URL sample_fh s = Inr empty_URL" "fh_log_level sample_fh s = Inr 4"
  "fh_bool sample_fh ''false'' = Inr False" "fh_report_period sample_fh '''' = Inr defaultMinReportPeriod"
  "fh_split_trim sample_fh '''' = Inr []" "fh_conn_info sample_fh '''' = connInfoFromAddress ''''"
  by (simp_all add: sample_fh_def fieldTypeHandlers_def sample_handlers_def parse_log_level_def
      parse_report_period_def parse_split_trim_def)

lemma sample_fh_port: "fh_port_number sample_fh ''8081'' = Inr 8081"
  by (simp add: sample_fh_def fieldTypeHandlers_def parse_port_number_def ParseUint16_def is_digit_def dec_value_def)


end
