(* ===== verification/Config_Watch.thy ===== *)
theory Config_Watch
  imports K8s_Types Secrets Rollouts
begin

text \<open>
  The watchers of the agent's own configuration (\<open>pkg/agent/config_watchers.go\<close>), the one of the
  emissary endpoints (\<open>pkg/agent/emissary_watcher.go\<close>), and the factories of the clients the
  directives use. The watchers and client sets of the libraries are parameters.
\<close>

section \<open>Watchers\<close>

text \<open>
  How a library watcher is made: its resource, its namespace and the function that tells which
  updates are not worth a broadcast; and what it offers.
\<close>

record 'a WatcherOptions =
  wo_resource :: string
  wo_namespace :: string
  wo_equals :: "'a \<Rightarrow> 'a \<Rightarrow> bool"

record 'w StartedWatcher =
  sw_EnsureStarted :: "'w \<Rightarrow> go_error option \<times> 'w"

record 'w ConfigWatchers =
  cfw_mapsWatcher :: "'w StartedWatcher"
  cfw_secretWatcher :: "'w StartedWatcher"

record 'w AmbassadorWatcher =
  aw_endpointWatcher :: "'w StartedWatcher"

definition configmap_options :: "string \<Rightarrow> ConfigMap WatcherOptions" where
  "configmap_options watchedNs =
     \<lparr>wo_resource = ''configmaps'', wo_namespace = watchedNs, wo_equals = (\<lambda>o1 o2. False)\<rparr>"

definition secret_options :: "string \<Rightarrow> Secret WatcherOptions" where
  "secret_options watchedNs =
     \<lparr>wo_resource = ''secrets'', wo_namespace = watchedNs, wo_equals = (\<lambda>o1 o2. False)\<rparr>"

definition NewConfigWatchers ::
  "(ConfigMap WatcherOptions \<Rightarrow> 'w StartedWatcher) \<Rightarrow> (Secret WatcherOptions \<Rightarrow> 'w StartedWatcher) \<Rightarrow>
   string \<Rightarrow> 'w ConfigWatchers" where
  "NewConfigWatchers new_maps new_secrets watchedNs =
     \<lparr>cfw_mapsWatcher = new_maps (configmap_options watchedNs),
      cfw_secretWatcher = new_secrets (secret_options watchedNs)\<rparr>"

definition ConfigWatchers_EnsureStarted :: "'w ConfigWatchers \<Rightarrow> 'w \<Rightarrow> go_error option \<times> 'w" where
  "ConfigWatchers_EnsureStarted w s =
     (case sw_EnsureStarted (cfw_mapsWatcher w) s of
        (Some err, s1) \<Rightarrow> (Some err, s1)
      | (None, s1) \<Rightarrow> sw_EnsureStarted (cfw_secretWatcher w) s1)"

text \<open>Of the endpoints only their existence counts, so updates are never broadcast.\<close>

definition endpoints_options :: "string \<Rightarrow> Endpoints WatcherOptions" where
  "endpoints_options ns =
     \<lparr>wo_resource = ''endpoints'', wo_namespace = ns, wo_equals = (\<lambda>obj1 obj2. True)\<rparr>"

definition NewAmbassadorWatcher ::
  "(Endpoints WatcherOptions \<Rightarrow> 'w StartedWatcher) \<Rightarrow> string \<Rightarrow> 'w AmbassadorWatcher" where
  "NewAmbassadorWatcher new_endpoints ns =
     \<lparr>aw_endpointWatcher = new_endpoints (endpoints_options ns)\<rparr>"

definition AmbassadorWatcher_EnsureStarted :: "'w AmbassadorWatcher \<Rightarrow> 'w \<Rightarrow> go_error option \<times> 'w" where
  "AmbassadorWatcher_EnsureStarted w s = sw_EnsureStarted (aw_endpointWatcher w) s"

section \<open>Client factories\<close>

text \<open>
  \<open>load\<close> is the configuration of the client library, \<open>new_client\<close> its constructor of clients. The
  factory of secrets panics where the one of rollouts returns the error.
\<close>

definition newK8sRestClient :: "('w \<Rightarrow> (go_error + 'c) \<times> 'w) \<Rightarrow> 'w \<Rightarrow> (go_error + 'c) \<times> 'w" where
  "newK8sRestClient load w =
     (case load w of (Inl err, w1) \<Rightarrow> (Inl err, w1) | (Inr config, w1) \<Rightarrow> (Inr config, w1))"

definition NewArgoRolloutsGetter ::
  "('w \<Rightarrow> (go_error + 'c) \<times> 'w) \<Rightarrow> ('c \<Rightarrow> go_error + 'w rollout_patch) \<Rightarrow> 'w rolloutsGetterFactory" where
  "NewArgoRolloutsGetter load new_client w =
     (case newK8sRestClient load w of
        (Inl err, w1) \<Rightarrow> (Inl err, w1)
      | (Inr kubeConfig, w1) \<Rightarrow>
          (case new_client kubeConfig of Inl err \<Rightarrow> (Inl err, w1) | Inr argoClient \<Rightarrow> (Inr argoClient, w1)))"

definition NewSecretsGetter ::
  "('w \<Rightarrow> (go_error + 'c) \<times> 'w) \<Rightarrow> ('c \<Rightarrow> go_error + (string \<Rightarrow> ('w, 'j) SecretInterface)) \<Rightarrow>
   ('w, 'j) secretsGetterFactory" where
  "NewSecretsGetter load new_client namespace w =
     (case newK8sRestClient load w of
        (Inl err, w1) \<Rightarrow> Ret (Inl err, w1)
      | (Inr kubeConfig, w1) \<Rightarrow>
          (case new_client kubeConfig of Inl err \<Rightarrow> Panic w1 | Inr clientSet \<Rightarrow> Ret (Inr (clientSet namespace), w1)))"

section \<open>Lemmas\<close>

text \<open>The secrets are not watched when the configmaps cannot be.\<close>

lemma config_watchers_started:
  "fst (ConfigWatchers_EnsureStarted w s) = None \<longleftrightarrow>
     (\<exists>s1. sw_EnsureStarted (cfw_mapsWatcher w) s = (None, s1) \<and>
        fst (sw_EnsureStarted (cfw_secretWatcher w) s1) = None)"
  by (cases "sw_EnsureStarted (cfw_mapsWatcher w) s")
    (auto simp: ConfigWatchers_EnsureStarted_def split: option.split)

lemma secrets_getter_returns:
  "returns (NewSecretsGetter load new_client ns w) \<longleftrightarrow>
     (case fst (newK8sRestClient load w) of Inl err \<Rightarrow> True | Inr c \<Rightarrow> (case new_client c of Inl err \<Rightarrow> False | Inr f \<Rightarrow> True))"
  by (cases "newK8sRestClient load w") (auto simp: NewSecretsGetter_def split: sum.split)

end
