(* ===== verification/Process_Start.thy ===== *)
theory Process_Start
  imports Sample_Agent Config_Watch
begin

text \<open>
  The process (\<open>cmd/main.go\<close>): from the environment to the agent, the choice between watching
  at once and leader election, and the run of the election with its callbacks, the signal
  handler and the exit. The election itself is a library: its documented behaviour is the
  library's part of the step relation.
\<close>

section \<open>Start\<close>

text \<open>
  The error of reading the lease: an API status with its code, possibly wrapped, or another
  error. \<open>errors.As\<close> finds the first status in the chain.
\<close>

datatype lease_error = LeaseStatus int | LeaseWrapped string lease_error | LeaseOther string

fun status_code :: "lease_error \<Rightarrow> int option" where
  "status_code (LeaseStatus code) = Some code"
| "status_code (LeaseWrapped msg e) = status_code e"
| "status_code (LeaseOther msg) = None"

definition lease_forbidden :: "lease_error option \<Rightarrow> bool" where
  "lease_forbidden err = (case err of None \<Rightarrow> False | Some e \<Rightarrow> status_code e = Some 403)"

text \<open>
  What \<open>main\<close> calls. \<open>NewForConfigOrDie\<close> panics on a bad configuration; the watchers of the
  agent are built from its configuration. The last three make the clients of the directives,
  each time a directive needs one.
\<close>

record ('w, 'c) MainCalls =
  mc_parseFromEnv :: "(string \<Rightarrow> string option) \<Rightarrow> Env \<times> go_error list \<times> go_error list"
  mc_LookupEnv :: "string \<Rightarrow> string option"
  mc_InClusterConfig :: "go_error option"
  mc_clientset_ok :: bool
  mc_service_ip :: "string \<Rightarrow> string \<Rightarrow> go_error + string"
  mc_is_ip :: "string \<Rightarrow> bool"
  mc_LookupAddr :: "string \<Rightarrow> nat \<Rightarrow> go_error + string list"
  mc_core :: "Env \<Rightarrow> 'w CoreWatchers"
  mc_fallback :: "Env \<Rightarrow> 'w FallbackWatchers"
  mc_lease_Get :: "string \<Rightarrow> string \<Rightarrow> lease_error option"
  mc_load_config :: "'w \<Rightarrow> (go_error + 'c) \<times> 'w"
  mc_new_argo :: "'c \<Rightarrow> go_error + 'w rollout_patch"
  mc_new_clients :: "'c \<Rightarrow> go_error + (string \<Rightarrow> ('w, byte list) SecretInterface)"

text \<open>
  How \<open>main\<close> goes on: it exits with a code, panics, watches without an election, or takes part
  in one for the lease of the agent's namespace.
\<close>

datatype 'w started = Exits int | Panics | WatchesDirectly "'w Agent" | Elects string "'w Agent"

definition lease_name :: string where "lease_name = ''ambassador-agent-lease-lock''"

definition main_start :: "('w, 'c) MainCalls \<Rightarrow> 'w started" where
  "main_start mc =
     (case LoadEnv (mc_parseFromEnv mc) (mc_LookupEnv mc) of
        Inl errs \<Rightarrow> Exits 1
      | Inr env \<Rightarrow>
          (case mc_InClusterConfig mc of
             Some err \<Rightarrow> Exits 1
           | None \<Rightarrow>
               if \<not> mc_clientset_ok mc then Panics
               else (case getClusterDomain (mc_service_ip mc) (mc_is_ip mc) (mc_LookupAddr mc) env of
                   Panic _ \<Rightarrow> Panics
                 | Ret clusterDomain \<Rightarrow>
                     (let agent = main_agent
                            (Some (NewArgoRolloutsGetter (mc_load_config mc) (mc_new_argo mc)))
                            (Some (NewSecretsGetter (mc_load_config mc) (mc_new_clients mc)))
                            (mc_core mc env) (mc_fallback mc env) clusterDomain env
                      in if lease_forbidden (mc_lease_Get mc (AgentNamespace agent) lease_name)
                         then WatchesDirectly agent
                         else Elects (AgentNamespace agent) agent))))"

section \<open>The election\<close>

text \<open>
  The process during the election. The library acquires the lease, runs \<open>OnStartedLeading\<close> in a
  goroutine with a context of its own, renews until renewal fails or the context given to
  \<open>RunOrDie\<close> is done, then cancels that context, tries to release the lease
  (\<open>ReleaseOnCancel\<close>), calls \<open>OnStoppedLeading\<close>, and returns.
\<close>

datatype lease_pc = Acquiring | Renewing | Stopped
datatype watch_state = NotStarted | Launched | Watching | WatchReturned
datatype signal_state = Listening | Caught

record Lease =
  le_pc :: lease_pc
  le_watch :: watch_state
  le_runDone :: bool
  le_watchCancel :: bool
  le_watchDone :: bool
  le_ctxDone :: bool
  le_held :: bool
  le_signal :: signal_state
  le_exit :: "int option"

definition lease_start :: Lease where
  "lease_start = \<lparr>le_pc = Acquiring, le_watch = NotStarted, le_runDone = False, le_watchCancel = False,
     le_watchDone = False, le_ctxDone = False, le_held = False, le_signal = Listening, le_exit = None\<rparr>"

text \<open>\<open>OnStartedLeading\<close> up to its call of \<open>Watch\<close>, and \<open>OnStoppedLeading\<close>.\<close>

definition OnStartedLeading :: "Lease \<Rightarrow> Lease" where
  "OnStartedLeading s = s\<lparr>le_watchCancel := True, le_watchDone := le_runDone s, le_watch := Watching\<rparr>"

definition OnStoppedLeading :: "Lease \<Rightarrow> Lease" where
  "OnStoppedLeading s =
     (if le_watchCancel s then s\<lparr>le_watchDone := True, le_watchCancel := False\<rparr> else s)"

text \<open>The library's end of a run that led: \<open>released\<close> tells whether the lease could be released.\<close>

definition stop_leading :: "bool \<Rightarrow> Lease \<Rightarrow> Lease" where
  "stop_leading released s =
     OnStoppedLeading (s\<lparr>le_pc := Stopped, le_runDone := True, le_held := le_held s \<and> \<not> released,
       le_watchDone := le_watchDone s \<or> le_watch s = Watching\<rparr>)"

inductive lease_step :: "Lease \<Rightarrow> Lease \<Rightarrow> bool" where
  acquire: "le_exit s = None \<Longrightarrow> le_pc s = Acquiring \<Longrightarrow>
     lease_step s (s\<lparr>le_pc := Renewing, le_held := True, le_watch := Launched\<rparr>)"
| give_up: "le_exit s = None \<Longrightarrow> le_pc s = Acquiring \<Longrightarrow> le_ctxDone s \<Longrightarrow>
     lease_step s (OnStoppedLeading (s\<lparr>le_pc := Stopped\<rparr>))"
| start_watch: "le_exit s = None \<Longrightarrow> le_watch s = Launched \<Longrightarrow> lease_step s (OnStartedLeading s)"
| renewal_ends: "le_exit s = None \<Longrightarrow> le_pc s = Renewing \<Longrightarrow> lease_step s (stop_leading released s)"
| watch_returns: "le_exit s = None \<Longrightarrow> le_watch s = Watching \<Longrightarrow> le_watchDone s \<Longrightarrow>
     lease_step s (s\<lparr>le_watch := WatchReturned\<rparr>)"
| main_returns: "le_exit s = None \<Longrightarrow> le_pc s = Stopped \<Longrightarrow> lease_step s (s\<lparr>le_exit := Some 0\<rparr>)"
| signal: "le_exit s = None \<Longrightarrow> le_signal s = Listening \<Longrightarrow>
     lease_step s (s\<lparr>le_signal := Caught, le_ctxDone := True,
       le_runDone := True, le_watchDone := le_watchDone s \<or> le_watch s = Watching\<rparr>)"
| signal_exits: "le_exit s = None \<Longrightarrow> le_signal s = Caught \<Longrightarrow> lease_step s (s\<lparr>le_exit := Some 0\<rparr>)"

inductive_cases lease_stepE: "lease_step s s'"

abbreviation lease_reach :: "Lease \<Rightarrow> Lease \<Rightarrow> bool" where
  "lease_reach \<equiv> rtranclp lease_step"

section \<open>What the election keeps\<close>

text \<open>
  A watch is started only by a leader; a watch under way has its context done as soon as the
  context of the run is; and after the run nothing watches with a live context.
\<close>

definition lease_inv :: "Lease \<Rightarrow> bool" where
  "lease_inv s \<longleftrightarrow>
     (le_pc s = Acquiring \<longrightarrow> le_watch s = NotStarted \<and> \<not> le_held s) \<and>
     (le_pc s = Renewing \<longrightarrow> le_watch s \<noteq> NotStarted \<and> le_held s) \<and>
     (le_watch s \<noteq> NotStarted \<and> le_pc s = Stopped \<longrightarrow> le_runDone s) \<and>
     (le_watch s = Watching \<and> le_runDone s \<longrightarrow> le_watchDone s) \<and>
     (le_watch s = WatchReturned \<longrightarrow> le_runDone s) \<and>
     (le_watchDone s \<longrightarrow> le_runDone s) \<and>
     (le_watchCancel s \<longrightarrow> le_watch s \<in> {Watching, WatchReturned}) \<and>
     (le_exit s \<in> {None, Some 0})"

lemma lease_inv_start: "lease_inv lease_start"
  by (simp add: lease_inv_def lease_start_def)

lemma lease_inv_step: "lease_step s s' \<Longrightarrow> lease_inv s \<Longrightarrow> lease_inv s'"
  by (erule lease_stepE)
    (auto simp: lease_inv_def OnStoppedLeading_def OnStartedLeading_def stop_leading_def)

lemma lease_inv_reach: "lease_reach s s' \<Longrightarrow> lease_inv s \<Longrightarrow> lease_inv s'"
  by (induction rule: rtranclp_induct) (auto intro: lease_inv_step)

lemma LoadEnv_Inl: "LoadEnv parse look = Inl errs \<Longrightarrow> errs \<noteq> []"
  by (auto simp: LoadEnv_def Let_def split: prod.splits if_splits)

text \<open>The agent a process runs, as the environment describes it.\<close>

definition runs_for :: "('w, 'c) MainCalls \<Rightarrow> 'w Agent \<Rightarrow> bool" where
  "runs_for mc a \<longleftrightarrow> (\<exists>env d. LoadEnv (mc_parseFromEnv mc) (mc_LookupEnv mc) = Inr env \<and>
     getClusterDomain (mc_service_ip mc) (mc_is_ip mc) (mc_LookupAddr mc) env = Ret d \<and>
     mc_InClusterConfig mc = None \<and> mc_clientset_ok mc \<and>
     Env.truncate a = env \<and> ag_clusterDomain a = d \<and>
     ag_reportDiagnosticsAllowed a = AESReportDiagnostics env \<and>
     ag_ambassadorAPIKeyEnvVarValue a = AmbassadorAPIKey env \<and>
     ag_directiveHandler a = \<lparr>dh_DefaultMinReportPeriod = defaultMinReportPeriod,
       dh_rolloutsGetterFactory = Some (NewArgoRolloutsGetter (mc_load_config mc) (mc_new_argo mc)),
       dh_secretsGetterFactory = Some (NewSecretsGetter (mc_load_config mc) (mc_new_clients mc))\<rparr> \<and>
     ag_comm a = None \<and> comm_wf a \<and> \<not> ag_reportingStopped a \<and> \<not> ag_reportRunning a)"

lemma started_agent:
  "runs_for mc (main_agent (Some (NewArgoRolloutsGetter (mc_load_config mc) (mc_new_argo mc)))
     (Some (NewSecretsGetter (mc_load_config mc) (mc_new_clients mc))) (mc_core mc env) (mc_fallback mc env) d env)"
  if "LoadEnv (mc_parseFromEnv mc) (mc_LookupEnv mc) = Inr env"
    and "getClusterDomain (mc_service_ip mc) (mc_is_ip mc) (mc_LookupAddr mc) env = Ret d"
    and "mc_InClusterConfig mc = None" and "mc_clientset_ok mc"
  using that comm_wf_main_agent
  by (simp add: runs_for_def) (simp add: main_agent_def SetReportDiagnosticsAllowed_def NewAgent_def Env.defs)

section \<open>Properties\<close>

text \<open>
  C32: The process exits with code 1 exactly when the environment has any error or warning, or
  there is no in-cluster configuration; it panics before it watches exactly when the client set
  cannot be made or the reverse lookup returns the bare service name; and it watches without an
  election exactly when reading the lease is answered with status 403, wrapped or not. The agent
  it runs is the one its environment describes, with the clients of this package for the directives,
  without a connection and with reports enabled.
\<close>

theorem main_start_outcome:
  "case main_start mc of
     Exits code \<Rightarrow> code = 1 \<and>
       (mc_InClusterConfig mc \<noteq> None \<or> (\<exists>errs. LoadEnv (mc_parseFromEnv mc) (mc_LookupEnv mc) = Inl errs \<and> errs \<noteq> []))
   | Panics \<Rightarrow> \<exists>env. LoadEnv (mc_parseFromEnv mc) (mc_LookupEnv mc) = Inr env \<and> mc_InClusterConfig mc = None \<and>
       (\<not> mc_clientset_ok mc \<or>
        \<not> returns (getClusterDomain (mc_service_ip mc) (mc_is_ip mc) (mc_LookupAddr mc) env))
   | WatchesDirectly a \<Rightarrow> runs_for mc a \<and>
       (\<exists>e. mc_lease_Get mc (AgentNamespace a) lease_name = Some e \<and> status_code e = Some 403)
   | Elects ns a \<Rightarrow> runs_for mc a \<and> ns = AgentNamespace a \<and>
       (case mc_lease_Get mc ns lease_name of None \<Rightarrow> True | Some e \<Rightarrow> status_code e \<noteq> Some 403)"
proof (cases "LoadEnv (mc_parseFromEnv mc) (mc_LookupEnv mc)")
  case (Inl errs)
  with LoadEnv_Inl [OF Inl] show ?thesis by (simp add: main_start_def)
next
  case (Inr env)
  show ?thesis
  proof (cases "mc_InClusterConfig mc = None \<and> mc_clientset_ok mc")
    case False
    with Inr show ?thesis by (auto simp: main_start_def split: option.splits)
  next
    case True
    show ?thesis
    proof (cases "getClusterDomain (mc_service_ip mc) (mc_is_ip mc) (mc_LookupAddr mc) env")
      case (Panic u)
      with Inr True show ?thesis by (simp add: main_start_def)
    next
      case (Ret d)
      from started_agent [OF Inr Ret] True Inr Ret show ?thesis
        by (simp add: main_start_def lease_forbidden_def Let_def split: option.split)
    qed
  qed
qed

text \<open>A process that may not read the lease.\<close>

definition sample_main :: "(unit, unit) MainCalls" where
  "sample_main = \<lparr>mc_parseFromEnv = (\<lambda>f. (sample_env, [], [])), mc_LookupEnv = (\<lambda>k. None),
     mc_InClusterConfig = None, mc_clientset_ok = True, mc_service_ip = (\<lambda>ns n. Inr ''10.0.0.1''),
     mc_is_ip = (\<lambda>s. True), mc_LookupAddr = (\<lambda>a n. Inr [''agent.ambassador.svc.example.org.'']),
     mc_core = (\<lambda>env. sample_core), mc_fallback = (\<lambda>env. sample_fallback),
     mc_lease_Get = (\<lambda>ns n. Some (LeaseWrapped ''get lease: '' (LeaseStatus 403))),
     mc_load_config = (\<lambda>w. (Inr (), w)), mc_new_argo = (\<lambda>c. Inl (ErrText ''none'')),
     mc_new_clients = (\<lambda>c. Inl (ErrText ''none''))\<rparr>"

lemma main_start_outcome_witness:
  "\<exists>a. main_start sample_main = WatchesDirectly a \<and> runs_for sample_main a"
proof -
  have "(case main_start sample_main of WatchesDirectly a \<Rightarrow> True | _ \<Rightarrow> False)" by code_simp
  then obtain a where "main_start sample_main = WatchesDirectly a" by (auto split: started.splits)
  with main_start_outcome [of sample_main] show ?thesis by simp
qed


text \<open>A leader that watches.\<close>

definition leading :: Lease where
  "leading = lease_start\<lparr>le_pc := Renewing, le_held := True, le_watch := Watching, le_watchCancel := True\<rparr>"

lemma leading_reached: "lease_reach lease_start leading"
proof -
  let ?s = "lease_start\<lparr>le_pc := Renewing, le_held := True, le_watch := Launched\<rparr>"
  have "lease_step lease_start ?s" by (rule lease_step.acquire) (simp_all add: lease_start_def)
  moreover have "lease_step ?s (OnStartedLeading ?s)" by (rule lease_step.start_watch) (simp_all add: lease_start_def)
  moreover have "OnStartedLeading ?s = leading" by (simp add: OnStartedLeading_def leading_def lease_start_def)
  ultimately show ?thesis by (metis rtranclp.rtrancl_refl rtranclp.rtrancl_into_rtrancl)
qed


text \<open>
  C31: A leader that receives a termination signal can exit with the lease still held and its
  watch still running: the handler exits the process right after it cancels the context, without
  waiting for the election to release the lease, so another agent has to wait for it to expire.
\<close>

theorem terminated_leader_keeps_lease:
  assumes "lease_reach lease_start s" and "le_pc s = Renewing" and "le_exit s = None"
    and "le_signal s = Listening"
  shows "\<exists>t. lease_reach s t \<and> le_exit t = Some 0 \<and> le_held t \<and> le_watch t = le_watch s \<and>
    \<not> (\<exists>u. lease_step t u)"
proof -
  have held: "le_held s" using lease_inv_reach [OF assms(1) lease_inv_start] assms(2) by (simp add: lease_inv_def)
  let ?s1 = "s\<lparr>le_signal := Caught, le_ctxDone := True, le_runDone := True,
    le_watchDone := le_watchDone s \<or> le_watch s = Watching\<rparr>"
  let ?t = "?s1\<lparr>le_exit := Some 0\<rparr>"
  have "lease_step s ?s1" by (rule lease_step.signal) (use assms in simp_all)
  moreover have "lease_step ?s1 ?t" by (rule lease_step.signal_exits) (use assms in simp_all)
  ultimately have r: "lease_reach s ?t" by (meson rtranclp.rtrancl_refl rtranclp.rtrancl_into_rtrancl)
  have "\<not> lease_step ?t u" for u by (auto elim: lease_stepE)
  with r held show ?thesis by (intro exI [of _ ?t]) simp
qed

lemma terminated_leader_keeps_lease_witness:
  "\<exists>t. lease_reach leading t \<and> le_exit t = Some 0 \<and> le_held t \<and> le_watch t = Watching"
  using terminated_leader_keeps_lease [OF leading_reached] by (auto simp: leading_def lease_start_def)

end
