(* ===== verification/Version_Gen.thy ===== *)
theory Version_Gen
  imports Go_Base
begin

text \<open>
  The version generator of the build (\<open>build-aux/genversion/main.go\<close>): the version described by
  git, bumped when it is released, and the tag printed, with the arguments of the build or a
  digest of the sources. Git, the semver library, the ignore file and MD5 are parameters.
\<close>

section \<open>Versions\<close>

text \<open>The numbers of a version, in the order of semver.\<close>

datatype core = Core (major: "64 word") (minor: "64 word") (patch: "64 word")

instantiation core :: linorder
begin

definition less_eq_core :: "core \<Rightarrow> core \<Rightarrow> bool" where
  "less_eq_core v w \<longleftrightarrow> major v < major w \<or>
     (major v = major w \<and> (minor v < minor w \<or> (minor v = minor w \<and> patch v \<le> patch w)))"

definition less_core :: "core \<Rightarrow> core \<Rightarrow> bool" where
  "less_core v w \<longleftrightarrow> v \<le> w \<and> \<not> w \<le> (v :: core)"

instance
proof
  fix u v w :: core
  show "u < v \<longleftrightarrow> u \<le> v \<and> \<not> v \<le> u" by (simp add: less_core_def)
  show "u \<le> u" by (simp add: less_eq_core_def)
  show "u \<le> v \<Longrightarrow> v \<le> w \<Longrightarrow> u \<le> w" by (auto simp: less_eq_core_def)
  show "u \<le> v \<Longrightarrow> v \<le> u \<Longrightarrow> u = v" by (cases u; cases v) (auto simp: less_eq_core_def)
  show "u \<le> v \<or> v \<le> u" by (auto simp: less_eq_core_def)
qed

end

record Version =
  ver_Core :: core
  ver_Pre :: "string list"
  ver_Build :: "string list"

definition bump_patch :: "Version \<Rightarrow> Version" where
  "bump_patch v = v\<lparr>ver_Core := Core (major (ver_Core v)) (minor (ver_Core v)) (patch (ver_Core v) + 1)\<rparr>"

section \<open>What the generator calls\<close>

text \<open>
  An entry of \<open>filepath.Walk\<close>: the path, whether it is a regular file, the error of the walk and
  the content or the error of reading it.
\<close>

record walk_entry =
  we_path :: string
  we_regular :: bool
  we_err :: "go_error option"
  we_data :: "go_error + byte list"

record GenCalls =
  gc_describe :: "go_error + string"
  gc_semver_Parse :: "string \<Rightarrow> go_error + Version"
  gc_semver_String :: "Version \<Rightarrow> string"
  gc_tag_described :: "string \<Rightarrow> bool"
  gc_rev_parse :: "go_error + string"
  gc_ignore :: "go_error + (string \<Rightarrow> bool)"
  gc_walk :: "walk_entry list"
  gc_md5 :: "byte list \<Rightarrow> byte list"

definition TrimPrefix :: "string \<Rightarrow> string \<Rightarrow> string" where
  "TrimPrefix s p = (if HasPrefix s p then drop (length p) s else s)"

definition TrimSuffix :: "string \<Rightarrow> string \<Rightarrow> string" where
  "TrimSuffix s p = (if HasSuffix s p then take (length s - length p) s else s)"

definition newline :: string where "newline = [CHR 0x0A]"

definition isReleased :: "GenCalls \<Rightarrow> Version \<Rightarrow> bool" where
  "isReleased gc v = gc_tag_described gc (''v'' @ gc_semver_String gc (v\<lparr>ver_Pre := [], ver_Build := []\<rparr>))"

section \<open>The digest of the sources\<close>

definition isTest :: "string \<Rightarrow> bool" where
  "isTest path \<longleftrightarrow> Contains path ''_test/'' \<or> HasSuffix path ''_test.go''"

text \<open>The walk writes the content of the files it keeps to the hash and stops at an error.\<close>

fun walk_bytes :: "(string \<Rightarrow> bool) \<Rightarrow> walk_entry list \<Rightarrow> go_error + byte list" where
  "walk_bytes ign [] = Inr []"
| "walk_bytes ign (e # es) =
     (case we_err e of
        Some err \<Rightarrow> Inl err
      | None \<Rightarrow>
          if we_regular e \<and> \<not> (ign (we_path e) \<or> isTest (we_path e))
          then (case we_data e of
              Inl err \<Rightarrow> Inl err
            | Inr data \<Rightarrow> (case walk_bytes ign es of Inl err \<Rightarrow> Inl err | Inr bs \<Rightarrow> Inr (data @ bs)))
          else walk_bytes ign es)"

definition dirMD5 :: "GenCalls \<Rightarrow> go_error + byte list" where
  "dirMD5 gc =
     (case gc_ignore gc of
        Inl err \<Rightarrow> Inl err
      | Inr ign \<Rightarrow> (case walk_bytes ign (gc_walk gc) of Inl err \<Rightarrow> Inl err | Inr bs \<Rightarrow> Inr (gc_md5 gc bs)))"

text \<open>\<open>base64.RawURLEncoding\<close>: no padding, and the two characters of the URL alphabet.\<close>

definition enc6_url :: "nat \<Rightarrow> char" where
  "enc6_url n = ''ABCDEFGHIJKLMNOPQRSTUVWXYZabcdefghijklmnopqrstuvwxyz0123456789-_'' ! n"

fun raw_url :: "nat list \<Rightarrow> string" where
  "raw_url [] = []"
| "raw_url [a] = [enc6_url (a div 4), enc6_url (a mod 4 * 16)]"
| "raw_url [a, b] = [enc6_url (a div 4), enc6_url (a mod 4 * 16 + b div 16), enc6_url (b mod 16 * 4)]"
| "raw_url (a # b # c # s) =
     enc6_url (a div 4) # enc6_url (a mod 4 * 16 + b div 16) # enc6_url (b mod 16 * 4 + c div 64)
       # enc6_url (c mod 64) # raw_url s"

definition RawURLEncoding :: "byte list \<Rightarrow> string" where
  "RawURLEncoding bs = raw_url (map unat bs)"

definition replace_char :: "char \<Rightarrow> char \<Rightarrow> string \<Rightarrow> string" where
  "replace_char a b s = map (\<lambda>c. if c = a then b else c) s"

definition digest_text :: "byte list \<Rightarrow> string" where
  "digest_text md5 = replace_char (CHR ''-'') (CHR ''z'') (replace_char (CHR ''_'') (CHR ''Z'') (RawURLEncoding md5))"

section \<open>Main\<close>

definition core_text :: "core \<Rightarrow> string" where
  "core_text c = dec_nat (unat (major c)) @ ''.'' @ dec_nat (unat (minor c)) @ ''.'' @ dec_nat (unat (patch c))"

text \<open>The text printed, or the error; \<open>args\<close> are the arguments after the program's name.\<close>

definition gen_Main :: "GenCalls \<Rightarrow> string list \<Rightarrow> go_error + string" where
  "gen_Main gc args =
     (case gc_describe gc of
        Inl err \<Rightarrow> Inl (ErrWrap ''unable to git describe: '' err)
      | Inr gitDescBytes \<Rightarrow>
     (let gitDescStr = TrimSuffix (TrimPrefix gitDescBytes ''v'') newline in
      case gc_semver_Parse gc gitDescStr of
        Inl err \<Rightarrow> Inl (ErrWrap (''unable to parse semver '' @ gitDescStr @ '': '') err)
      | Inr gitDescVer \<Rightarrow>
     (let ver = (if isReleased gc gitDescVer then bump_patch gitDescVer else gitDescVer) in
      case args of
        arg # _ \<Rightarrow>
          (case gc_rev_parse gc of
             Inl err \<Rightarrow> Inl (ErrWrap ''unable to git rev-parse: '' err)
           | Inr shortHash \<Rightarrow> Inr (''v'' @ core_text (ver_Core ver) @ ''-'' @ arg @ ''-'' @ shortHash @ newline))
      | [] \<Rightarrow>
          (case dirMD5 gc of
             Inl err \<Rightarrow> Inl (ErrWrap ''unable to compute MD5: '' err)
           | Inr md5 \<Rightarrow> Inr (''v'' @ gc_semver_String gc ver @ ''-'' @ digest_text md5 @ newline)))))"

section \<open>Lemmas\<close>

lemma bump_patch_greater:
  "patch (ver_Core v) \<noteq> - 1 \<Longrightarrow> ver_Core v < ver_Core (bump_patch v)"
proof -
  assume "patch (ver_Core v) \<noteq> - 1"
  then have "\<not> patch (ver_Core v) + 1 \<le> patch (ver_Core v)" by (simp add: inc_less_eq_self_iff_eq)
  then show ?thesis by (auto simp: bump_patch_def less_core_def less_eq_core_def)
qed

definition alphanumeric :: "char \<Rightarrow> bool" where
  "alphanumeric c \<longleftrightarrow> c \<in> set ''ABCDEFGHIJKLMNOPQRSTUVWXYZabcdefghijklmnopqrstuvwxyz0123456789''"

lemma enc6_url_char: "n < 64 \<Longrightarrow> alphanumeric (enc6_url n) \<or> enc6_url n = CHR ''-'' \<or> enc6_url n = CHR ''_''"
proof -
  assume "n < 64"
  then have "enc6_url n \<in> set ''ABCDEFGHIJKLMNOPQRSTUVWXYZabcdefghijklmnopqrstuvwxyz0123456789-_''"
    unfolding enc6_url_def by (intro nth_mem) simp
  then show ?thesis by (auto simp: alphanumeric_def)
qed

lemma raw_url_chars:
  assumes "\<forall>x \<in> set xs. x < 256" and "c \<in> set (raw_url xs)"
  shows "alphanumeric c \<or> c = CHR ''-'' \<or> c = CHR ''_''"
proof -
  have "\<exists>n < 64. c = enc6_url n"
    using assms
  proof (induction xs rule: raw_url.induct)
    case (2 a)
    then show ?case by (auto intro: exI [of _ "a div 4"] exI [of _ "a mod 4 * 16"])
  next
    case (3 a b)
    then have "a div 4 < 64" "a mod 4 * 16 + b div 16 < 64" "b mod 16 * 4 < 64" by auto
    with 3(2) show ?case unfolding raw_url.simps by (metis empty_iff list.set(1) set_ConsD)
  next
    case (4 a b c' s)
    then have "a div 4 < 64" "a mod 4 * 16 + b div 16 < 64" "b mod 16 * 4 + c' div 64 < 64" "c' mod 64 < 64" by auto
    with 4 show ?case unfolding raw_url.simps by (metis list.set_intros(2) set_ConsD)
  qed simp
  then show ?thesis using enc6_url_char by blast
qed

lemma raw_url_length: "length (raw_url xs) = (4 * length xs + 2) div 3"
  by (induction xs rule: raw_url.induct) simp_all

lemma digest_text_map:
  "digest_text bs = map (\<lambda>c. if c = CHR ''_'' then CHR ''Z'' else if c = CHR ''-'' then CHR ''z'' else c)
     (raw_url (map unat bs))"
  by (auto simp: digest_text_def replace_char_def RawURLEncoding_def)

lemma digest_text_chars: "\<forall>c \<in> set (digest_text bs). alphanumeric c"
proof
  fix c assume "c \<in> set (digest_text bs)"
  then obtain c0 where c0: "c0 \<in> set (raw_url (map unat bs))"
    and c: "c = (if c0 = CHR ''_'' then CHR ''Z'' else if c0 = CHR ''-'' then CHR ''z'' else c0)"
    unfolding digest_text_map set_map by blast
  have "\<forall>x \<in> set (map unat bs). x < 256"
    using unsigned_less [of "_ :: byte", where 'a = nat] by auto
  from raw_url_chars [OF this c0] c show "alphanumeric c" by (auto simp: alphanumeric_def)
qed

lemma digest_text_length: "length md5 = 16 \<Longrightarrow> length (digest_text md5) = 22"
  by (simp add: digest_text_def replace_char_def RawURLEncoding_def raw_url_length)

lemma walk_bytes_kept:
  "walk_bytes ign es = Inr bs \<longleftrightarrow>
     (\<forall>e \<in> set es. we_err e = None) \<and>
     (\<exists>ds. map we_data (filter (\<lambda>e. we_regular e \<and> \<not> (ign (we_path e) \<or> isTest (we_path e))) es) = map Inr ds \<and>
       bs = concat ds)"
proof (induction es arbitrary: bs)
  case Nil
  then show ?case by auto
next
  case (Cons e es)
  let ?keep = "we_regular e \<and> \<not> (ign (we_path e) \<or> isTest (we_path e))"
  show ?case
  proof (cases "we_err e = None \<and> ?keep")
    case False
    with Cons.IH show ?thesis by (auto split: option.splits)
  next
    case True
    show ?thesis
    proof (cases "we_data e")
      case (Inl err)
      with True show ?thesis by (auto simp: Cons_eq_map_conv)
    next
      case (Inr data)
      show ?thesis
      proof (cases "walk_bytes ign es")
        case (Inl err)
        then have "\<not> (\<exists>b. walk_bytes ign es = Inr b)" by simp
        with Cons.IH True Inr Inl show ?thesis by (auto simp: Cons_eq_map_conv)
      next
        case (Inr rest)
        note ih = Cons.IH [of rest] 
        have "(\<exists>ds. data # xs = ds) " for xs by simp
        from ih Inr obtain ds where ds: "\<forall>e \<in> set es. we_err e = None"
          "map we_data (filter (\<lambda>e. we_regular e \<and> \<not> (ign (we_path e) \<or> isTest (we_path e))) es) = map Inr ds"
          "rest = concat ds" by auto
        have uniq: "ds' = ds" if "map Inr ds' = (map Inr ds :: (go_error + byte list) list)" for ds'
          using that by (metis inj_Inr inj_map_eq_map)
        show ?thesis using True \<open>we_data e = Inr data\<close> Inr ds uniq
          by (auto simp: Cons_eq_map_conv intro!: exI [of _ "data # ds"])
      qed
    qed
  qed
qed

section \<open>Properties\<close>

text \<open>
  The tag printed for a build carries the described version, or the next patch version when
  that one is released, which is greater unless the patch number overflows; without an argument
  it ends with a digest of twenty-two letters and digits, so that it can name an image; with one
  it ends with the argument and the output of git, its own newline included.
\<close>

theorem generated_tag:
  assumes "gen_Main gc args = Inr out" and "gc_describe gc = Inr desc"
    and "gc_semver_Parse gc (TrimSuffix (TrimPrefix desc ''v'') newline) = Inr v"
    and "\<And>bs. length (gc_md5 gc bs) = 16"
  shows "\<exists>ver. (if isReleased gc v then ver_Core v < ver_Core ver \<or> patch (ver_Core v) = - 1 else ver = v) \<and>
    (case args of
       [] \<Rightarrow> \<exists>d. out = ''v'' @ gc_semver_String gc ver @ ''-'' @ d @ newline \<and> length d = 22 \<and>
         list_all alphanumeric d
     | arg # rest \<Rightarrow> \<exists>h. gc_rev_parse gc = Inr h \<and>
         out = ''v'' @ core_text (ver_Core ver) @ ''-'' @ arg @ ''-'' @ h @ newline)"
proof -
  let ?ver = "if isReleased gc v then bump_patch v else v"
  have "if isReleased gc v then ver_Core v < ver_Core ?ver \<or> patch (ver_Core v) = - 1 else ?ver = v"
    using bump_patch_greater [of v] by auto
  moreover have "case args of
       [] \<Rightarrow> \<exists>d. out = ''v'' @ gc_semver_String gc ?ver @ ''-'' @ d @ newline \<and> length d = 22 \<and>
         list_all alphanumeric d
     | arg # rest \<Rightarrow> \<exists>h. gc_rev_parse gc = Inr h \<and>
         out = ''v'' @ core_text (ver_Core ?ver) @ ''-'' @ arg @ ''-'' @ h @ newline"
  proof (cases args)
    case (Cons arg rest)
    with assms(1-3) show ?thesis by (auto simp: gen_Main_def Let_def split: sum.splits)
  next
    case Nil
    from Nil assms(1-3) obtain bs where "dirMD5 gc = Inr bs"
      "out = ''v'' @ gc_semver_String gc ?ver @ ''-'' @ digest_text bs @ newline"
      by (auto simp: gen_Main_def Let_def split: sum.splits)
    moreover from this assms(4) have "length bs = 16" by (auto simp: dirMD5_def split: sum.splits)
    ultimately show ?thesis using Nil digest_text_chars digest_text_length by (auto simp: list_all_iff)
  qed
  ultimately show ?thesis by blast
qed

text \<open>A released version and two files, one of them a test.\<close>

definition sample_gen :: GenCalls where
  "sample_gen = \<lparr>gc_describe = Inr (''v1.2.3'' @ newline),
     gc_semver_Parse = (\<lambda>s. if s = ''1.2.3'' then Inr \<lparr>ver_Core = Core 1 2 3, ver_Pre = [], ver_Build = []\<rparr>
       else Inl (ErrText s)),
     gc_semver_String = (\<lambda>v. core_text (ver_Core v)),
     gc_tag_described = (\<lambda>t. t = ''v1.2.3''), gc_rev_parse = Inr (''abc'' @ newline),
     gc_ignore = Inr (\<lambda>p. False),
     gc_walk = [\<lparr>we_path = ''a.go'', we_regular = True, we_err = None, we_data = Inr [1, 255]\<rparr>,
                \<lparr>we_path = ''a_test.go'', we_regular = True, we_err = None, we_data = Inr [7]\<rparr>],
     gc_md5 = (\<lambda>bs. take 16 (bs @ replicate 16 0))\<rparr>"

lemma sample_gen_runs:
  "gen_Main sample_gen [] = Inr (''v1.2.4-Af8AAAAAAAAAAAAAAAAAAA'' @ newline)"
  by code_simp

lemma generated_tag_witness:
  "\<exists>(ver :: Version) d. Core 1 2 3 < ver_Core ver \<and> length d = 22 \<and>
     ''v1.2.4-Af8AAAAAAAAAAAAAAAAAAA'' @ newline = ''v'' @ core_text (ver_Core ver) @ ''-'' @ d @ newline"
proof -
  let ?v = "\<lparr>ver_Core = Core 1 2 3, ver_Pre = [], ver_Build = []\<rparr>"
  have d: "gc_describe sample_gen = Inr (''v1.2.3'' @ newline)" by (simp add: sample_gen_def)
  have p: "gc_semver_Parse sample_gen (TrimSuffix (TrimPrefix (''v1.2.3'' @ newline) ''v'') newline) = Inr ?v"
    by code_simp
  have r: "isReleased sample_gen ?v" by code_simp
  have m: "length (gc_md5 sample_gen bs) = 16" for bs by (simp add: sample_gen_def)
  have str: "gc_semver_String sample_gen ver = core_text (ver_Core ver)" for ver by (simp add: sample_gen_def)
  from generated_tag [OF sample_gen_runs d p m] have "\<exists>ver :: Version. (Core 1 2 3 < ver_Core ver \<or> (3 :: 64 word) = - 1) \<and>
    (\<exists>d. ''v1.2.4-Af8AAAAAAAAAAAAAAAAAAA'' @ newline = ''v'' @ core_text (ver_Core ver) @ ''-'' @ d @ newline \<and>
       length d = 22 \<and> list_all alphanumeric d)"
    unfolding str if_P [OF r] by simp
  moreover have "(3 :: 64 word) \<noteq> - 1" by simp
  ultimately show ?thesis by blast
qed

text \<open>
  The digest covers the contents of the regular files that are neither ignored nor tests,
  one after the other in the order of the walk, and nothing else: names and boundaries of files
  do not count. It is an error exactly when an entry of the walk, ignored or not, has an error or
  a file that counts cannot be read.
\<close>

theorem digest_of_contents:
  "dirMD5 gc = Inr d \<longleftrightarrow>
     (\<exists>ign ds. gc_ignore gc = Inr ign \<and> (\<forall>e \<in> set (gc_walk gc). we_err e = None) \<and>
        map we_data (filter (\<lambda>e. we_regular e \<and> \<not> (ign (we_path e) \<or> isTest (we_path e))) (gc_walk gc)) =
          map Inr ds \<and> d = gc_md5 gc (concat ds))"
proof -
  have "dirMD5 gc = Inr d \<longleftrightarrow>
      (\<exists>ign bs. gc_ignore gc = Inr ign \<and> walk_bytes ign (gc_walk gc) = Inr bs \<and> d = gc_md5 gc bs)"
    by (auto simp: dirMD5_def split: sum.splits)
  then show ?thesis unfolding walk_bytes_kept by blast
qed

end
