(* ===== verification/Integration_Suite.thy ===== *)
theory Integration_Suite
  imports Go_Base
begin

text \<open>
  The harness of the integration tests (\<open>integration_tests/\<close>): the suite with its stack of
  cleanups, the server that stands in for the Director, the charts, and the loops that poll the
  cluster. The cluster, the commands run and the libraries are parameters.
\<close>

section \<open>Polling\<close>

text \<open>
  The loops of the harness try something, and sleep and try again until it gives an answer. A loop
  that never gets one is \<open>None\<close>.
\<close>

partial_function (option) poll :: "('w \<Rightarrow> 'a option \<times> 'w) \<Rightarrow> ('w \<Rightarrow> 'w) \<Rightarrow> 'w \<Rightarrow> ('a \<times> 'w) option" where
  "poll attempt sleep w =
     (case attempt w of
        (Some r, w1) \<Rightarrow> Some (r, w1)
      | (None, w1) \<Rightarrow> poll attempt sleep (sleep w1))"

lemma poll_ends:
  fixes m :: "'w \<Rightarrow> nat"
  assumes "\<And>w w1. attempt w = (None, w1) \<Longrightarrow> m (sleep w1) < m w"
  shows "\<exists>r w'. poll attempt sleep w = Some (r, w')"
proof (induction "m w" arbitrary: w rule: less_induct)
  case less
  obtain r w1 where a: "attempt w = (r, w1)" by fastforce
  show ?case
  proof (cases r)
    case None
    with less.hyps [OF assms] a show ?thesis by (simp add: poll.simps [of attempt sleep w])
  qed (use a in \<open>simp add: poll.simps [of attempt sleep w]\<close>)
qed

lemma poll_result:
  assumes "poll attempt sleep w = Some y"
  shows "\<exists>w0. attempt w0 = (Some (fst y), snd y)"
proof (rule poll.raw_induct [where P = "\<lambda>attempt sleep w y. \<exists>w0. attempt w0 = (Some (fst y), snd y)",
      OF _ assms], goal_cases)
  case (1 poll attempt sleep w y)
  then show ?case by (auto split: prod.splits option.splits)
qed

section \<open>The suite\<close>

record RestConfig =
  rc_APIPath :: string
  rc_GroupVersion :: "(string \<times> string) option"
  rc_NegotiatedSerializer :: bool

text \<open>What \<open>NewAgentCom\<close> and \<open>PodExec\<close> set in a configuration that lacks it.\<close>

definition config_defaults :: "RestConfig \<Rightarrow> RestConfig" where
  "config_defaults c =
     \<lparr>rc_APIPath = (if rc_APIPath c = '''' then ''/api'' else rc_APIPath c),
      rc_GroupVersion = (case rc_GroupVersion c of None \<Rightarrow> Some ('''', ''v1'') | Some gv \<Rightarrow> Some gv),
      rc_NegotiatedSerializer = True\<rparr>"

text \<open>The functions registered for cleaning up, with what they closed over.\<close>

datatype cleanup =
    RemoveNamespace string
  | RemoveAgentCom string string
  | DeleteManifest string
  | UninstallChart string

record AgentCom =
  acm_namespace :: string
  acm_name :: string
  acm_port :: int
  acm_katServerImage :: string

record 'w Suite =
  su_namespace :: string
  su_name :: string
  su_config :: RestConfig
  su_agentComServer :: "AgentCom option"
  su_tempDir :: string
  su_cleanups :: "cleanup list"
  su_failed :: bool
  su_world :: 'w

datatype chart_value = VString string | VList "string list" | VMap "(string \<times> chart_value) list"

record InstallationConfig =
  ic_ReleaseName :: string
  ic_Namespace :: string
  ic_ChartDir :: string
  ic_Values :: "(string \<times> chart_value) list"

record TestServicePort =
  tsp_Name :: string
  tsp_Port :: int32
  tsp_TargetPort :: string

record TestService =
  tsv_Name :: string
  tsv_Selector :: "(string \<times> string) list"
  tsv_Ports :: "TestServicePort list"

record TestPod =
  tpd_Name :: string
  tpd_Labels :: "(string \<times> string) list"
  tpd_Image :: string
  tpd_Env :: "(string \<times> string) list"
  tpd_Ports :: "(string \<times> int32) list"

text \<open>A pod of a listing: its name and, per container, whether it runs and has a start time.\<close>

record ListedPod =
  lp_Name :: string
  lp_Running :: "bool option list"

text \<open>
  What the harness calls. A command is its words; the deadline of a context is an instant of the
  clock of the world.
\<close>

record ('w, 'x, 's) SuiteCalls =
  tc_Getenv :: "string \<Rightarrow> string"
  tc_BuildConfig :: "string \<Rightarrow> go_error + RestConfig"
  tc_NewForConfig :: "RestConfig \<Rightarrow> go_error option"
  tc_now :: "'w \<Rightarrow> int"
  tc_sleep :: "int \<Rightarrow> 'w \<Rightarrow> 'w"
  tc_ns_Create :: "string \<Rightarrow> 'w \<Rightarrow> go_error option \<times> 'w"
  tc_ns_Delete :: "string \<Rightarrow> 'w \<Rightarrow> go_error option \<times> 'w"
  tc_ns_Get :: "int \<Rightarrow> string \<Rightarrow> 'w \<Rightarrow> go_error option \<times> 'w"
  tc_svc_Create :: "string \<Rightarrow> TestService \<Rightarrow> 'w \<Rightarrow> go_error option \<times> 'w"
  tc_svc_Delete :: "string \<Rightarrow> string \<Rightarrow> 'w \<Rightarrow> go_error option \<times> 'w"
  tc_pod_Create :: "string \<Rightarrow> TestPod \<Rightarrow> 'w \<Rightarrow> go_error option \<times> 'w"
  tc_pod_Delete :: "string \<Rightarrow> string \<Rightarrow> 'w \<Rightarrow> go_error option \<times> 'w"
  tc_pod_List :: "string \<Rightarrow> string \<Rightarrow> 'w \<Rightarrow> (go_error + ListedPod list) \<times> 'w"
  tc_pod_GetLogs :: "string \<Rightarrow> string \<Rightarrow> bool \<Rightarrow> 'w \<Rightarrow> (go_error + 's) \<times> 'w"
  tc_exec :: "RestConfig \<Rightarrow> string \<Rightarrow> string \<Rightarrow> string list \<Rightarrow> 'w \<Rightarrow> (byte list \<times> byte list \<times> go_error option) \<times> 'w"
  tc_ctx_err :: "'w \<Rightarrow> go_error option"
  tc_type_name :: "go_error \<Rightarrow> string"
  tc_command :: "string \<Rightarrow> string list \<Rightarrow> 'w \<Rightarrow> go_error option \<times> 'w"
  tc_MkdirTemp :: "'w \<Rightarrow> (go_error + string) \<times> 'w"
  tc_os_Create :: "string \<Rightarrow> 'w \<Rightarrow> go_error option \<times> 'w"
  tc_http_Get :: "string \<Rightarrow> 'w \<Rightarrow> (go_error + int) \<times> 'w"
  tc_copy_body :: "string \<Rightarrow> 'w \<Rightarrow> go_error option \<times> 'w"
  tc_helm_Init :: "string \<Rightarrow> 'w \<Rightarrow> go_error option \<times> 'w"
  tc_helm_LoadDir :: "string \<Rightarrow> 'w \<Rightarrow> (go_error + 'x) \<times> 'w"
  tc_helm_Install :: "string \<Rightarrow> string \<Rightarrow> 'x \<Rightarrow> (string \<times> chart_value) list \<Rightarrow> 'w \<Rightarrow> (go_error + string) \<times> 'w"
  tc_helm_Uninstall :: "string \<Rightarrow> 'w \<Rightarrow> go_error option \<times> 'w"

definition second :: int where "second = 1000000000"

section \<open>Pods\<close>

text \<open>A pod counts as running when one of its containers runs and has a start time that is not zero.\<close>

fun running_container :: "bool option list \<Rightarrow> bool" where
  "running_container [] = False"
| "running_container (Some True # cs) = True"
| "running_container (c # cs) = running_container cs"

fun running_names :: "ListedPod list \<Rightarrow> string list" where
  "running_names [] = []"
| "running_names (pod # pods) =
     (if running_container (lp_Running pod) then lp_Name pod # running_names pods else running_names pods)"

definition RunningPods ::
  "('w, 'x, 's) SuiteCalls \<Rightarrow> string \<Rightarrow> string \<Rightarrow> 'w \<Rightarrow> (go_error + string list) \<times> 'w" where
  "RunningPods tc labelSelector ns w =
     (case tc_pod_List tc ns labelSelector w of
        (Inl err, w1) \<Rightarrow> (Inl err, w1) | (Inr pods, w1) \<Rightarrow> (Inr (running_names pods), w1))"

text \<open>\<open>NewPodLogChan\<close> up to the stream its goroutine reads.\<close>

definition log_attempt ::
  "('w, 'x, 's) SuiteCalls \<Rightarrow> string \<Rightarrow> string \<Rightarrow> bool \<Rightarrow> 'w \<Rightarrow> (go_error + 's) option \<times> 'w" where
  "log_attempt tc labelSelector ns follow w =
     (case RunningPods tc labelSelector ns w of
        (Inl err, w1) \<Rightarrow> (Some (Inl err), w1)
      | (Inr [], w1) \<Rightarrow> (None, w1)
      | (Inr (name # _), w1) \<Rightarrow> (case tc_pod_GetLogs tc ns name follow w1 of (r, w2) \<Rightarrow> (Some r, w2)))"

definition NewPodLogChan ::
  "('w, 'x, 's) SuiteCalls \<Rightarrow> string \<Rightarrow> string \<Rightarrow> bool \<Rightarrow> 'w \<Rightarrow> ((go_error + 's) \<times> 'w) option" where
  "NewPodLogChan tc labelSelector ns follow = poll (log_attempt tc labelSelector ns follow) (tc_sleep tc (2 * second))"

text \<open>\<open>PodExec\<close> completes the configuration in place and returns no output with an error.\<close>

definition PodExec ::
  "('w, 'x, 's) SuiteCalls \<Rightarrow> RestConfig \<Rightarrow> string \<Rightarrow> string \<Rightarrow> string list \<Rightarrow> 'w \<Rightarrow>
   (byte list \<times> byte list \<times> go_error option) \<times> RestConfig \<times> 'w" where
  "PodExec tc config ns podName cmd w =
     (let config' = config_defaults config in
      case tc_NewForConfig tc config' of
        Some err \<Rightarrow> (([], [], Some err), config', w)
      | None \<Rightarrow>
          (case tc_exec tc config' ns podName cmd w of
             ((out, errs, Some err), w1) \<Rightarrow> (([], errs, Some err), config', w1)
           | ((out, errs, None), w1) \<Rightarrow> ((out, errs, None), config', w1)))"

section \<open>The server of the tests\<close>

definition defaultKATServerImage :: string where
  "defaultKATServerImage = ''docker.io/datawiredev/kat-server:3.0.1-0.20220817135951-2cb28ef4f415''"

definition NewAgentCom ::
  "('w, 'x, 's) SuiteCalls \<Rightarrow> string \<Rightarrow> string \<Rightarrow> RestConfig \<Rightarrow> (go_error + AgentCom) \<times> RestConfig" where
  "NewAgentCom tc name ns restConfig =
     (let config = config_defaults restConfig in
      case tc_NewForConfig tc config of
        Some err \<Rightarrow> (Inl err, config)
      | None \<Rightarrow> (Inr \<lparr>acm_namespace = ns, acm_name = name, acm_port = 8080,
                     acm_katServerImage = defaultKATServerImage\<rparr>, config))"

definition SetPort :: "int \<Rightarrow> AgentCom \<Rightarrow> AgentCom" where
  "SetPort p ac = ac\<lparr>acm_port := p\<rparr>"

definition SetKATServerImage :: "string \<Rightarrow> AgentCom \<Rightarrow> AgentCom" where
  "SetKATServerImage img ac = ac\<lparr>acm_katServerImage := img\<rparr>"

text \<open>\<open>net.JoinHostPort\<close> brackets a host with a colon.\<close>

definition JoinHostPort :: "string \<Rightarrow> string \<Rightarrow> string" where
  "JoinHostPort host port =
     (if CHR '':'' \<in> set host then ''['' @ host @ '']:'' @ port else host @ '':'' @ port)"

definition RPCAddress :: "AgentCom \<Rightarrow> string" where
  "RPCAddress ac = ''http://'' @ JoinHostPort (acm_name ac) (dec_int (acm_port ac))"

definition agentCom_service :: "AgentCom \<Rightarrow> TestService" where
  "agentCom_service ac =
     \<lparr>tsv_Name = acm_name ac, tsv_Selector = [(''app'', acm_name ac)],
      tsv_Ports =
        [\<lparr>tsp_Name = ''grpc-server'', tsp_Port = word_of_int (acm_port ac), tsp_TargetPort = ''grpc-server''\<rparr>,
         \<lparr>tsp_Name = ''snapshot-server'', tsp_Port = 3001, tsp_TargetPort = ''snapshot-server''\<rparr>]\<rparr>"

definition agentCom_pod :: "AgentCom \<Rightarrow> TestPod" where
  "agentCom_pod ac =
     \<lparr>tpd_Name = acm_name ac, tpd_Labels = [(''app'', acm_name ac)], tpd_Image = acm_katServerImage ac,
      tpd_Env = [(''KAT_BACKEND_TYPE'', ''grpc_agent''), (''KAT_GRPC_MAX_RECV_MSG_SIZE'', ''65536'')],
      tpd_Ports = [(''grpc-server'', 8080), (''snapshot-server'', 3001)]\<rparr>"

definition AgentCom_Install ::
  "('w, 'x, 's) SuiteCalls \<Rightarrow> AgentCom \<Rightarrow> 'w \<Rightarrow> (go_error + cleanup) \<times> 'w" where
  "AgentCom_Install tc ac w =
     (case tc_svc_Create tc (acm_namespace ac) (agentCom_service ac) w of
        (Some err, w1) \<Rightarrow> (Inl err, w1)
      | (None, w1) \<Rightarrow>
          (case tc_pod_Create tc (acm_namespace ac) (agentCom_pod ac) w1 of
             (Some err, w2) \<Rightarrow> (Inl err, w2)
           | (None, w2) \<Rightarrow> (Inr (RemoveAgentCom (acm_namespace ac) (acm_name ac)), w2)))"

text \<open>The function \<open>Install\<close> returns: an error of the first deletion is dropped, and the pod stays.\<close>

definition remove_agentCom ::
  "('w, 'x, 's) SuiteCalls \<Rightarrow> string \<Rightarrow> string \<Rightarrow> 'w \<Rightarrow> go_error option \<times> 'w" where
  "remove_agentCom tc ns name w =
     (case tc_svc_Delete tc ns name w of
        (Some err, w1) \<Rightarrow> (None, w1)
      | (None, w1) \<Rightarrow> tc_pod_Delete tc ns name w1)"

text \<open>
  \<open>GetSnapshot\<close> asks the server for the file it keeps until there is one; then the message in it
  is read by \<open>unmarshal\<close>.
\<close>

definition snapshot_attempt ::
  "('w, 'x, 's) SuiteCalls \<Rightarrow> AgentCom \<Rightarrow> RestConfig \<Rightarrow> 'w \<Rightarrow> (go_error + byte list) option \<times> 'w" where
  "snapshot_attempt tc ac config w =
     (case tc_ctx_err tc w of
        Some e \<Rightarrow> (Some (Inl e), w)
      | None \<Rightarrow>
          (case PodExec tc config (acm_namespace ac) (acm_name ac) [''cat'', ''/tmp/snapshot.json''] w of
             ((out, errs, err), _, w1) \<Rightarrow>
               (case err of
                  Some e \<Rightarrow>
                    if errs \<noteq> [] then
                      (Some (Inl (ErrText (tc_type_name tc e @ '': '' @ map (\<lambda>b. char_of (unat b)) errs))), w1)
                    else if \<not> Contains (Error e) ''exit code 1'' then (Some (Inl e), w1)
                    else (None, w1)
                | None \<Rightarrow> (if out \<noteq> [] then Some (Inr out) else None, w1))))"

definition GetSnapshot ::
  "('w, 'x, 's) SuiteCalls \<Rightarrow> (byte list \<Rightarrow> go_error + 'r) \<Rightarrow> AgentCom \<Rightarrow> RestConfig \<Rightarrow> 'w \<Rightarrow>
   ((go_error + 'r) \<times> 'w) option" where
  "GetSnapshot tc unmarshal ac config w =
     map_option (\<lambda>(r, w1). (case r of Inl e \<Rightarrow> Inl e | Inr b \<Rightarrow> unmarshal b, w1))
       (poll (snapshot_attempt tc ac config) (tc_sleep tc second) w)"

section \<open>Charts\<close>

definition InstallHelmChart ::
  "('w, 'x, 's) SuiteCalls \<Rightarrow> InstallationConfig \<Rightarrow> 'w \<Rightarrow> (go_error + cleanup) \<times> 'w" where
  "InstallHelmChart tc config w =
     (case tc_helm_Init tc (ic_Namespace config) w of
        (Some err, w1) \<Rightarrow> (Inl err, w1)
      | (None, w1) \<Rightarrow>
          (case tc_helm_LoadDir tc (ic_ChartDir config) w1 of
             (Inl err, w2) \<Rightarrow> (Inl err, w2)
           | (Inr chart, w2) \<Rightarrow>
               (case tc_helm_Install tc (ic_ReleaseName config) (ic_Namespace config) chart (ic_Values config) w2 of
                  (Inl err, w3) \<Rightarrow> (Inl err, w3)
                | (Inr release, w3) \<Rightarrow> (Inr (UninstallChart release), w3))))"

definition edgeStackHelmChartURL :: "string \<Rightarrow> string" where
  "edgeStackHelmChartURL version =
     ''https://datawire-static-files.s3.amazonaws.com/charts/edge-stack-'' @
     (if HasPrefix version ''v'' then drop 1 version else version) @ ''.tgz''"

section \<open>The namespace of a suite\<close>

definition CreateNamespace :: "('w, 'x, 's) SuiteCalls \<Rightarrow> string \<Rightarrow> 'w \<Rightarrow> go_error option \<times> 'w" where
  "CreateNamespace tc ns w = tc_ns_Create tc ns w"

definition gone_attempt ::
  "('w, 'x, 's) SuiteCalls \<Rightarrow> int \<Rightarrow> string \<Rightarrow> 'w \<Rightarrow> go_error option option \<times> 'w" where
  "gone_attempt tc deadline ns w =
     (case tc_ns_Get tc deadline ns w of
        (Some err, w1) \<Rightarrow> (Some (if IsNotFound err then None else Some err), w1)
      | (None, w1) \<Rightarrow> (None, w1))"

definition DeleteNamespace ::
  "('w, 'x, 's) SuiteCalls \<Rightarrow> string \<Rightarrow> 'w \<Rightarrow> (go_error option \<times> 'w) option" where
  "DeleteNamespace tc ns w =
     (case tc_ns_Delete tc ns w of
        (Some err, w1) \<Rightarrow> Some (Some err, w1)
      | (None, w1) \<Rightarrow> poll (gone_attempt tc (tc_now tc w1 + 60 * second) ns) (tc_sleep tc (5 * second)) w1)"

section \<open>Tearing down\<close>

text \<open>
  \<open>TearDownSuite\<close> runs the cleanups registered so far, the last one first, and starts again with
  those they registered meanwhile, until there are none. \<open>run\<close> runs one: whether it succeeded and
  what it registered; a cleanup that does not return is \<open>None\<close>. The result is the cleanups run, in
  order, and whether all succeeded.
\<close>

fun run_cleanups ::
  "('c \<Rightarrow> 'w \<Rightarrow> (bool \<times> 'c list \<times> 'w) option) \<Rightarrow> 'c list \<Rightarrow> 'w \<Rightarrow> (bool \<times> 'c list \<times> 'w) option" where
  "run_cleanups run [] w = Some (True, [], w)"
| "run_cleanups run (c # cs) w =
     Option.bind (run c w) (\<lambda>(ok, new, w1).
     Option.bind (run_cleanups run cs w1) (\<lambda>(ok', new', w2). Some (ok \<and> ok', new @ new', w2)))"

partial_function (option) TearDownSuite ::
  "('c \<Rightarrow> 'w \<Rightarrow> (bool \<times> 'c list \<times> 'w) option) \<Rightarrow> 'c list \<Rightarrow> 'w \<Rightarrow> ('c list \<times> bool \<times> 'w) option" where
  "TearDownSuite run cs w =
     Option.bind (run_cleanups run (rev cs) w) (\<lambda>(ok, new, w1).
       if new = [] then Some (rev cs, ok, w1)
       else Option.bind (TearDownSuite run new w1) (\<lambda>(ran, ok', w2). Some (rev cs @ ran, ok \<and> ok', w2)))"

text \<open>The cleanups of the suites register nothing.\<close>

definition run_cleanup ::
  "('w, 'x, 's) SuiteCalls \<Rightarrow> cleanup \<Rightarrow> 'w \<Rightarrow> (bool \<times> cleanup list \<times> 'w) option" where
  "run_cleanup tc c w =
     map_option (\<lambda>(err, w1). (err = None, [], w1))
       (case c of
          RemoveNamespace ns \<Rightarrow> DeleteNamespace tc ns w
        | RemoveAgentCom ns name \<Rightarrow> Some (remove_agentCom tc ns name w)
        | DeleteManifest url \<Rightarrow> Some (tc_command tc '''' [''kubectl'', ''delete'', ''-f'', url] w)
        | UninstallChart release \<Rightarrow> Some (tc_helm_Uninstall tc release w))"

section \<open>Setting up\<close>

text \<open>
  A step of a set-up goes on or stops the test (\<open>Require\<close>); what was registered for cleaning up
  stays registered. An assertion without \<open>Require\<close> only marks the test as failed.
\<close>

type_synonym 'w setup_step = "'w Suite \<Rightarrow> bool \<times> 'w Suite"

fun setup_steps :: "'w setup_step list \<Rightarrow> 'w setup_step" where
  "setup_steps [] s = (True, s)"
| "setup_steps (f # fs) s = (case f s of (ok, s1) \<Rightarrow> if ok then setup_steps fs s1 else (False, s1\<lparr>su_failed := True\<rparr>))"

definition require :: "bool \<Rightarrow> 'w setup_step" where
  "require b s = (b, s)"

definition not_empty :: "string \<Rightarrow> 'w setup_step" where
  "not_empty v s = (True, s\<lparr>su_failed := (su_failed s \<or> v = '''')\<rparr>)"

definition require_call :: "('w \<Rightarrow> go_error option \<times> 'w) \<Rightarrow> 'w setup_step" where
  "require_call call s = (case call (su_world s) of (err, w1) \<Rightarrow> (err = None, s\<lparr>su_world := w1\<rparr>))"

definition Cleanup :: "cleanup \<Rightarrow> 'w setup_step" where
  "Cleanup f s = (True, s\<lparr>su_cleanups := su_cleanups s @ [f]\<rparr>)"

definition install_step :: "('w \<Rightarrow> (go_error + cleanup) \<times> 'w) \<Rightarrow> 'w setup_step" where
  "install_step call s =
     (case call (su_world s) of
        (Inl err, w1) \<Rightarrow> (False, s\<lparr>su_world := w1\<rparr>)
      | (Inr f, w1) \<Rightarrow> Cleanup f (s\<lparr>su_world := w1\<rparr>))"

definition Init :: "('w, 'x, 's) SuiteCalls \<Rightarrow> 'w setup_step" where
  "Init tc s =
     (let s1 = s\<lparr>su_name := ''ambassador-agent''\<rparr>;
          kubeconfigPath = tc_Getenv tc ''KUBECONFIG''
      in if kubeconfigPath = '''' then (False, s1)
         else (case tc_BuildConfig tc kubeconfigPath of
             Inl err \<Rightarrow> (False, s1)
           | Inr config \<Rightarrow> (tc_NewForConfig tc config = None, s1\<lparr>su_config := config\<rparr>)))"

definition agentImageEnvVar :: string where "agentImageEnvVar = ''AMBASSADOR_AGENT_DOCKER_IMAGE''"
definition katImageEnvVar :: string where "katImageEnvVar = ''KAT_SERVER_DOCKER_IMAGE''"

definition namespace_step :: "('w, 'x, 's) SuiteCalls \<Rightarrow> 'w setup_step" where
  "namespace_step tc s = setup_steps [require_call (CreateNamespace tc (su_namespace s)),
     Cleanup (RemoveNamespace (su_namespace s))] s"

definition agentCom_step :: "('w, 'x, 's) SuiteCalls \<Rightarrow> 'w setup_step" where
  "agentCom_step tc s =
     (case NewAgentCom tc ''agentcom-server'' (su_namespace s) (su_config s) of
        (Inl err, config) \<Rightarrow> (False, s\<lparr>su_config := config\<rparr>)
      | (Inr ac, config) \<Rightarrow>
          install_step (AgentCom_Install tc ac) (s\<lparr>su_config := config, su_agentComServer := Some ac\<rparr>))"

definition chart_step ::
  "('w, 'x, 's) SuiteCalls \<Rightarrow> string \<Rightarrow> (string \<Rightarrow> string) \<Rightarrow>
   (string \<Rightarrow> (string \<times> chart_value) list) \<Rightarrow> string \<Rightarrow> 'w setup_step" where
  "chart_step tc release dir values rpcAddress s =
     install_step (InstallHelmChart tc \<lparr>ic_ReleaseName = release, ic_Namespace = su_namespace s,
       ic_ChartDir = dir (su_tempDir s), ic_Values = values rpcAddress\<rparr>) s"

text \<open>The address of the server a step has made before.\<close>

definition rpc_address :: "'w Suite \<Rightarrow> string" where
  "rpc_address s = (case su_agentComServer s of None \<Rightarrow> '''' | Some ac \<Rightarrow> RPCAddress ac)"

definition sleep_step :: "('w, 'x, 's) SuiteCalls \<Rightarrow> int \<Rightarrow> 'w setup_step" where
  "sleep_step tc d s = (True, s\<lparr>su_world := tc_sleep tc d (su_world s)\<rparr>)"

definition agent_values :: "string \<Rightarrow> string \<Rightarrow> (string \<times> chart_value) list" where
  "agent_values agentImage rpcAddress =
     [(''cloudConnectToken'', VString ''TOKEN''), (''logLevel'', VString ''debug''),
      (''rpcAddress'', VString rpcAddress), (''image'', VMap [(''fullImageOverride'', VString agentImage)])]"

definition Basic_SetupSuite :: "('w, 'x, 's) SuiteCalls \<Rightarrow> string list \<Rightarrow> 'w setup_step" where
  "Basic_SetupSuite tc namespaces =
     (let agentImage = tc_Getenv tc agentImageEnvVar in
      setup_steps
        [Init tc, require (agentImage \<noteq> ''''), namespace_step tc, agentCom_step tc, sleep_step tc second,
         (\<lambda>s. chart_step tc (su_name s) (\<lambda>tempDir. ''../helm/ambassador-agent'')
            (\<lambda>rpcAddress. agent_values agentImage rpcAddress @
               (if namespaces \<noteq> [] then [(''rbac'', VMap [(''namespaces'', VList namespaces)])] else []))
            (rpc_address s) s)])"

definition CloudToken_SetupSuite :: "('w, 'x, 's) SuiteCalls \<Rightarrow> 'w setup_step" where
  "CloudToken_SetupSuite tc =
     (let agentImage = tc_Getenv tc agentImageEnvVar in
      setup_steps
        [Init tc, require (agentImage \<noteq> ''''), not_empty (tc_Getenv tc katImageEnvVar), namespace_step tc,
         (\<lambda>s. chart_step tc (su_name s) (\<lambda>tempDir. ''../helm/ambassador-agent'')
            (\<lambda>rpcAddress. [(''logLevel'', VString ''debug''),
               (''image'', VMap [(''fullImageOverride'', VString agentImage)])]) '''' s)])"

definition crds :: string where
  "crds = ''https://app.getambassador.io/yaml/emissary/3.2.0/emissary-crds.yaml''"

definition tempDir_step :: "('w, 'x, 's) SuiteCalls \<Rightarrow> 'w setup_step" where
  "tempDir_step tc s =
     (case tc_MkdirTemp tc (su_world s) of
        (Inl err, w1) \<Rightarrow> (False, s\<lparr>su_world := w1\<rparr>)
      | (Inr dir, w1) \<Rightarrow> (True, s\<lparr>su_tempDir := dir, su_world := w1\<rparr>))"

definition http_step :: "('w, 'x, 's) SuiteCalls \<Rightarrow> string \<Rightarrow> 'w setup_step" where
  "http_step tc url s =
     (case tc_http_Get tc url (su_world s) of
        (Inl err, w1) \<Rightarrow> (False, s\<lparr>su_world := w1\<rparr>)
      | (Inr status, w1) \<Rightarrow> (status = 200, s\<lparr>su_world := w1\<rparr>))"

definition AES_SetupSuite :: "('w, 'x, 's) SuiteCalls \<Rightarrow> 'w setup_step" where
  "AES_SetupSuite tc =
     (let agentImage = tc_Getenv tc agentImageEnvVar; url = edgeStackHelmChartURL ''8.1.0'' in
      setup_steps
        [Init tc, tempDir_step tc, require (agentImage \<noteq> ''''), namespace_step tc, agentCom_step tc,
         require_call (tc_command tc '''' [''kubectl'', ''apply'', ''-f'', crds]), Cleanup (DeleteManifest crds),
         require_call (tc_command tc '''' [''kubectl'', ''-n'', ''emissary-system'', ''wait'', ''--timeout=90s'',
           ''--for=condition=available'', ''deployment'', ''emissary-apiext'']),
         (\<lambda>s. require_call (tc_os_Create tc (su_tempDir s @ ''/edge-stack-8.1.0.tgz'')) s),
         http_step tc url, require_call (tc_copy_body tc url),
         (\<lambda>s. require_call (tc_command tc (su_tempDir s) [''tar'', ''xzf'', ''edge-stack-8.1.0.tgz'']) s),
         (\<lambda>s. chart_step tc ''aes'' (\<lambda>tempDir. tempDir @ ''/edge-stack'')
            (\<lambda>rpcAddress. [(''agent'', VMap (agent_values agentImage rpcAddress))]) (rpc_address s) s),
         sleep_step tc (10 * second)])"

section \<open>Tearing down ends\<close>

lemma run_cleanups_rank:
  assumes "\<And>c w ok new w'. run c w = Some (ok, new, w') \<Longrightarrow> \<forall>d \<in> set new. rank d < (rank c :: nat)"
    and "run_cleanups run cs w = Some (ok, new, w')"
  shows "\<forall>d \<in> set new. \<exists>c \<in> set cs. rank d < rank c"
  using assms(2)
proof (induction cs arbitrary: w ok new w')
  case Nil
  then show ?case by simp
next
  case (Cons c cs)
  from Cons.prems obtain t where t: "run c w = Some t" by (cases "run c w") auto
  then obtain ok1 new1 w1 where c: "run c w = Some (ok1, new1, w1)" by (cases t) auto
  with Cons.prems obtain u where u: "run_cleanups run cs w1 = Some u" by (cases "run_cleanups run cs w1") auto
  with c Cons.prems obtain ok2 new2 where cs: "run_cleanups run cs w1 = Some (ok2, new2, w')"
    and "new = new1 @ new2" by (cases u) auto
  with assms(1) [OF c] Cons.IH [OF cs] show ?case by fastforce
qed

lemma run_cleanups_returns:
  "(\<And>c w. run c w \<noteq> None) \<Longrightarrow> \<exists>ok new w'. run_cleanups run cs w = Some (ok, new, w')"
proof (induction cs arbitrary: w)
  case Nil
  then show ?case by auto
next
  case (Cons c cs)
  from Cons.prems obtain ok new w1 where "run c w = Some (ok, new, w1)" by (metis not_None_eq prod_cases3)
  moreover from Cons.IH [OF Cons.prems, of w1] obtain ok2 new2 w2 where
    "run_cleanups run cs w1 = Some (ok2, new2, w2)" by blast
  ultimately show ?case by simp
qed

text \<open>
  Tearing down returns when every cleanup does and registers only cleanups of a smaller rank.
\<close>

theorem tear_down_returns:
  fixes rank :: "'c \<Rightarrow> nat"
  assumes "\<And>c w. run c w \<noteq> None"
    and "\<And>c w ok new w'. run c w = Some (ok, new, w') \<Longrightarrow> \<forall>d \<in> set new. rank d < rank c"
  shows "\<exists>r. TearDownSuite run cs w = Some r"
proof (induction "Max (insert 0 ((\<lambda>c. Suc (rank c)) ` set cs))" arbitrary: cs w rule: less_induct)
  case less
  obtain ok new w1 where r: "run_cleanups run (rev cs) w = Some (ok, new, w1)"
    using run_cleanups_returns [of run "rev cs" w] assms(1) by blast
  show ?case
  proof (cases "new = []")
    case True
    with r show ?thesis by (simp add: TearDownSuite.simps [of run cs w])
  next
    case False
    have lt: "\<forall>d \<in> set new. \<exists>c \<in> set cs. rank d < rank c"
      using run_cleanups_rank [OF assms(2) r] by simp
    have "Suc (rank d) < Max (insert 0 ((\<lambda>c. Suc (rank c)) ` set cs))" if "d \<in> set new" for d
    proof -
      from lt that obtain c where c: "c \<in> set cs" "rank d < rank c" by blast
      have "Suc (rank c) \<le> Max (insert 0 ((\<lambda>c. Suc (rank c)) ` set cs))" using c(1) by (intro Max_ge) auto
      with c(2) show ?thesis by simp
    qed
    moreover have "0 < Max (insert 0 ((\<lambda>c. Suc (rank c)) ` set cs))"
      using False lt by (subst Max_gr_iff) (auto simp: neq_Nil_conv)
    ultimately have "Max (insert 0 ((\<lambda>c. Suc (rank c)) ` set new)) < Max (insert 0 ((\<lambda>c. Suc (rank c)) ` set cs))"
      by (subst Max_less_iff) auto
    from less [OF this, of w1] r False show ?thesis by (auto simp: TearDownSuite.simps [of run cs w])
  qed
qed

text \<open>A cleanup that registers itself again is run for ever.\<close>

theorem tear_down_forever:
  assumes "\<And>w. \<exists>ok w'. run c w = Some (ok, [c], w')"
  shows "TearDownSuite run [c] w = None"
proof (rule ccontr)
  assume "TearDownSuite run [c] w \<noteq> None"
  then obtain y where y: "TearDownSuite run [c] w = Some y" by blast
  have "(\<forall>w. \<exists>ok w'. run c w = Some (ok, [c], w')) \<longrightarrow> [c] \<noteq> [c]"
  proof (rule TearDownSuite.raw_induct [where P = "\<lambda>run cs w y.
      (\<forall>w. \<exists>ok w'. run c w = Some (ok, [c], w')) \<longrightarrow> cs \<noteq> [c]", OF _ y], intro impI notI, goal_cases)
    case (1 tear run cs w y)
    from 1(3) obtain ok w1 where "run c w = Some (ok, [c], w1)" by blast
    with 1(2,4) obtain z where "tear run [c] w1 = Some z"
      by (cases "tear run [c] w1") auto
    from 1(1) [OF this] 1(3) show ?case by blast
  qed
  with assms show False by blast
qed

text \<open>
  Deleting a namespace returns within its minute, when reading a namespace fails once the deadline
  of its context is past; without an error the namespace is gone.
\<close>

theorem delete_namespace_returns:
  assumes "\<And>d n w. tc_now tc w \<le> tc_now tc (snd (tc_ns_Get tc d n w))"
    and "\<And>d n w. d \<le> tc_now tc w \<Longrightarrow> fst (tc_ns_Get tc d n w) \<noteq> None"
    and "\<And>d w. 0 \<le> d \<Longrightarrow> tc_now tc w + d \<le> tc_now tc (tc_sleep tc d w)"
  shows "\<exists>err w'. DeleteNamespace tc ns w = Some (err, w') \<and>
    (err = None \<longrightarrow> (\<exists>d w0 e. tc_ns_Get tc d ns w0 = (Some e, w') \<and> IsNotFound e))"
proof (cases "tc_ns_Delete tc ns w")
  case (Pair err w1)
  show ?thesis
  proof (cases err)
    case None
    let ?deadline = "tc_now tc w1 + 60 * second"
    let ?attempt = "gone_attempt tc ?deadline ns"
    have "nat (?deadline - tc_now tc (tc_sleep tc (5 * second) v1)) < nat (?deadline - tc_now tc v)"
      if "?attempt v = (None, v1)" for v v1
    proof -
      from that have g: "tc_ns_Get tc ?deadline ns v = (None, v1)"
        by (auto simp: gone_attempt_def split: prod.splits option.splits)
      then have "tc_now tc v < ?deadline" using assms(2) [of ?deadline v ns] by (cases "?deadline \<le> tc_now tc v") auto
      moreover have "tc_now tc v \<le> tc_now tc v1" using assms(1) [of v ?deadline ns] g by simp
      moreover have "tc_now tc v1 + 5 * second \<le> tc_now tc (tc_sleep tc (5 * second) v1)"
        using assms(3) [of "5 * second" v1] by (simp add: second_def)
      ultimately show ?thesis by (simp add: second_def)
    qed
    then obtain r w' where p: "poll ?attempt (tc_sleep tc (5 * second)) w1 = Some (r, w')"
      using poll_ends [of ?attempt "\<lambda>v. nat (?deadline - tc_now tc v)" "tc_sleep tc (5 * second)" w1] by blast
    from poll_result [OF p] obtain w0 where "?attempt w0 = (Some r, w')" by auto
    then have "r = None \<longrightarrow> (\<exists>e. tc_ns_Get tc ?deadline ns w0 = (Some e, w') \<and> IsNotFound e)"
      by (auto simp: gone_attempt_def split: prod.splits option.splits if_splits)
    with Pair None p show ?thesis by (auto simp: DeleteNamespace_def)
  qed (use Pair in \<open>simp add: DeleteNamespace_def\<close>)
qed

text \<open>The cleanups of a suite are run once each, the latest first.\<close>

lemma run_suite_cleanups:
  assumes "\<And>ns w. DeleteNamespace tc ns w \<noteq> None"
  shows "\<exists>ok w'. run_cleanups (run_cleanup tc) cs w = Some (ok, [], w')"
proof (induction cs arbitrary: w)
  case (Cons c cs)
  have "\<exists>ok w1. run_cleanup tc c w = Some (ok, [], w1)"
  proof (cases c)
    case (RemoveNamespace ns)
    from assms obtain r where "DeleteNamespace tc ns w = Some r" by blast
    then show ?thesis by (cases r) (simp add: run_cleanup_def RemoveNamespace)
  qed (auto simp: run_cleanup_def split: prod.splits)
  then obtain ok w1 where "run_cleanup tc c w = Some (ok, [], w1)" by blast
  moreover from Cons obtain ok2 w2 where "run_cleanups (run_cleanup tc) cs w1 = Some (ok2, [], w2)" by blast
  ultimately show ?case by simp
qed auto

theorem suite_tear_down:
  assumes "\<And>ns w. DeleteNamespace tc ns w \<noteq> None"
  shows "\<exists>ok w'. TearDownSuite (run_cleanup tc) cs w = Some (rev cs, ok, w')"
proof -
  from run_suite_cleanups [OF assms] obtain ok w' where
    "run_cleanups (run_cleanup tc) (rev cs) w = Some (ok, [], w')" by blast
  then show ?thesis by (simp add: TearDownSuite.simps [of _ cs w])
qed

section \<open>What a set-up registers\<close>

text \<open>A step registers one cleanup of \<open>F\<close> when it goes on, or none when \<open>F\<close> is empty, and none when it stops.\<close>

definition registers :: "string \<Rightarrow> 'w setup_step \<Rightarrow> cleanup set \<Rightarrow> bool" where
  "registers ns f F \<longleftrightarrow> (\<forall>s. su_namespace s = ns \<longrightarrow> (case f s of (ok, s') \<Rightarrow> su_namespace s' = ns \<and>
     (if ok \<and> F \<noteq> {} then \<exists>c \<in> F. su_cleanups s' = su_cleanups s @ [c] else su_cleanups s' = su_cleanups s)))"

lemma setup_registered:
  assumes "list_all2 (registers ns) fs Fs" and "setup_steps fs s = (ok, s')" and "su_namespace s = ns"
  shows "\<exists>cs n. su_cleanups s' = su_cleanups s @ cs \<and>
    list_all2 (\<in>) cs (take n (filter (\<lambda>F. F \<noteq> {}) Fs)) \<and> (ok \<longrightarrow> length cs = length (filter (\<lambda>F. F \<noteq> {}) Fs))"
  using assms
proof (induction fs Fs arbitrary: s rule: list_all2_induct)
  case Nil
  then show ?case by auto
next
  case (Cons f fs F Fs)
  obtain ok1 s1 where f: "f s = (ok1, s1)" by fastforce
  with Cons.hyps(1) Cons.prems(2) have r: "su_namespace s1 = ns"
    "if ok1 \<and> F \<noteq> {} then \<exists>c \<in> F. su_cleanups s1 = su_cleanups s @ [c] else su_cleanups s1 = su_cleanups s"
    unfolding registers_def by fastforce+
  show ?case
  proof (cases ok1)
    case False
    with f r Cons.prems(1) have "\<not> ok" "su_cleanups s' = su_cleanups s" by auto
    then show ?thesis by (intro exI [of _ "[]"] exI [of _ 0]) simp
  next
    case True
    with f Cons.prems(1) have "setup_steps fs s1 = (ok, s')" by simp
    from Cons.IH [OF this r(1)] obtain cs n where ih: "su_cleanups s' = su_cleanups s1 @ cs"
      "list_all2 (\<in>) cs (take n (filter (\<lambda>F. F \<noteq> {}) Fs))"
      "ok \<longrightarrow> length cs = length (filter (\<lambda>F. F \<noteq> {}) Fs)" by blast
    show ?thesis
    proof (cases "F = {}")
      case True
      with ih r \<open>ok1\<close> show ?thesis by auto
    next
      case False
      with r \<open>ok1\<close> obtain c where "c \<in> F" "su_cleanups s1 = su_cleanups s @ [c]" by auto
      with ih False show ?thesis by (intro exI [of _ "c # cs"] exI [of _ "Suc n"]) simp
    qed
  qed
qed

lemma registers_install:
  "(\<And>w c w'. call w = (Inr c, w') \<Longrightarrow> c \<in> F) \<Longrightarrow> F \<noteq> {} \<Longrightarrow> registers ns (install_step call) F"
  by (auto simp: registers_def install_step_def Cleanup_def split: prod.splits sum.splits)

lemma registers_steps:
  "registers ns (Init tc) {}" "registers ns (require b) {}" "registers ns (not_empty v) {}"
  "registers ns (require_call call) {}" "registers ns (sleep_step tc d) {}" "registers ns (tempDir_step tc) {}"
  "registers ns (http_step tc url) {}" "registers ns (Cleanup c) {c}"
  by (auto simp: registers_def Init_def require_def not_empty_def require_call_def sleep_step_def tempDir_step_def
      http_step_def Cleanup_def Let_def split: prod.splits sum.splits)

lemma registers_namespace: "registers ns (namespace_step tc) {RemoveNamespace ns}"
  by (auto simp: registers_def namespace_step_def require_call_def Cleanup_def split: prod.splits)

lemma registers_agentCom: "registers ns (agentCom_step tc) {RemoveAgentCom ns ''agentcom-server''}"
  by (auto simp: registers_def agentCom_step_def NewAgentCom_def install_step_def AgentCom_Install_def Cleanup_def
      Let_def split: prod.splits sum.splits option.splits)

lemma registers_chart: "registers ns (\<lambda>s. chart_step tc (rel s) dir values (addr s) s) (range UninstallChart)"
  by (auto simp: registers_def chart_step_def install_step_def InstallHelmChart_def Cleanup_def
      split: prod.splits sum.splits option.splits)

text \<open>
  However a set-up ends, each thing it has set up completely has its cleanup registered, in this
  order, and nothing else has; the set-up goes on to the end only with all three.
\<close>

theorem basic_setup_registers:
  assumes "Basic_SetupSuite tc namespaces s = (ok, s')" and "su_cleanups s = []"
  shows "\<exists>release n. su_cleanups s' = take n [RemoveNamespace (su_namespace s),
      RemoveAgentCom (su_namespace s) ''agentcom-server'', UninstallChart release] \<and>
    (ok \<longrightarrow> length (su_cleanups s') = 3)"
proof -
  let ?ns = "su_namespace s"
  let ?Fs = "[{}, {}, {RemoveNamespace ?ns}, {RemoveAgentCom ?ns ''agentcom-server''}, {}, range UninstallChart]"
  have "\<exists>cs n. su_cleanups s' = su_cleanups s @ cs \<and> list_all2 (\<in>) cs (take n (filter (\<lambda>F. F \<noteq> {}) ?Fs)) \<and>
      (ok \<longrightarrow> length cs = length (filter (\<lambda>F. F \<noteq> {}) ?Fs))"
    using assms(1) unfolding Basic_SetupSuite_def Let_def
    by (rule setup_registered [rotated])
      (use registers_namespace [of ?ns tc] registers_agentCom [of ?ns tc] in
        \<open>simp_all add: registers_steps registers_chart\<close>)
  then obtain cs n where cs: "su_cleanups s' = cs" "ok \<longrightarrow> length cs = 3"
    and l: "list_all2 (\<in>) cs (take n [{RemoveNamespace ?ns}, {RemoveAgentCom ?ns ''agentcom-server''}, range UninstallChart])"
    using assms(2) by auto
  have "\<exists>release. cs = take (length cs) [RemoveNamespace ?ns, RemoveAgentCom ?ns ''agentcom-server'', UninstallChart release]"
    using l by (cases n; cases "n - 1"; cases "n - 2") (auto simp: list_all2_Cons2)
  with cs show ?thesis by blast
qed

text \<open>
  A service of the test server that cannot be deleted is reported as cleaned up, and its pod is
  not touched.
\<close>

theorem agentCom_left_behind:
  assumes "tc_svc_Delete tc ns name w = (Some err, w1)"
  shows "run_cleanup tc (RemoveAgentCom ns name) w = Some (True, [], w1)"
  using assms by (simp add: run_cleanup_def remove_agentCom_def)

end
