(* ===== verification/Pod_Logs.thy ===== *)
theory Pod_Logs
  imports Go_Base
begin

text \<open>
  The log of a pod on its way to a test: the goroutine of \<open>NewPodLogChan\<close>
  (\<open>integration_tests/pod.go\<close>), its channel of capacity one, and the loop in which a test waits for
  a line. One step per blocking point and per access to the context.
\<close>

section \<open>Lines\<close>

text \<open>\<open>bufio.ScanLines\<close>: a line loses one carriage return at its end; an empty rest is no line.\<close>

fun dropCR :: "string \<Rightarrow> string" where
  "dropCR [] = []"
| "dropCR [c] = (if c = CHR 0x0D then [] else [c])"
| "dropCR (c # s) = c # dropCR s"

definition scan_lines :: "string \<Rightarrow> string list" where
  "scan_lines s =
     (let ls = Split s (CHR 0x0A)
      in map dropCR (butlast ls @ (if last ls = [] then [] else [last ls])))"

section \<open>State and steps\<close>

text \<open>
  The goroutine is in \<open>Scan\<close>, before \<open>ctx.Err()\<close> with a line, in the send statement, about to close
  the channel or the reader, or has returned. The test is in its \<open>range\<close>, has received a line, has
  left the loop at the line it waits for, or has seen the channel closed.
\<close>

datatype forwarder = Scanning | Checking string | Putting string | ClosingChan | ClosingReader | Returned

datatype test_loop = Ranging | Matching string | Found | RangeOver

record LogFlow =
  lf_input :: "string list"
  lf_scan_err :: bool
  lf_fwd :: forwarder
  lf_chan :: "string list"
  lf_closed :: bool
  lf_reader_open :: bool
  lf_cancelled :: bool
  lf_test :: test_loop
  lf_got :: "string list"

definition log_start :: "string \<Rightarrow> LogFlow" where
  "log_start s = \<lparr>lf_input = scan_lines s, lf_scan_err = False, lf_fwd = Scanning, lf_chan = [], lf_closed = False,
     lf_reader_open = True, lf_cancelled = False, lf_test = Ranging, lf_got = []\<rparr>"

text \<open>
  \<open>Scan\<close> gives the next line, or ends because the stream does, or because reading fails or a line is
  too long for the scanner, which may happen anywhere. The deadline of the context may pass anywhere.
\<close>

inductive log_move :: "string \<Rightarrow> LogFlow \<Rightarrow> LogFlow \<Rightarrow> bool" for wanted where
  scan_line: "lf_fwd s = Scanning \<Longrightarrow> lf_input s = l # ls \<Longrightarrow>
    log_move wanted s (s\<lparr>lf_input := ls, lf_fwd := Checking l\<rparr>)"
| scan_end: "lf_fwd s = Scanning \<Longrightarrow> lf_input s = [] \<Longrightarrow> log_move wanted s (s\<lparr>lf_fwd := ClosingChan\<rparr>)"
| scan_fails: "lf_fwd s = Scanning \<Longrightarrow>
    log_move wanted s (s\<lparr>lf_scan_err := True, lf_fwd := ClosingChan\<rparr>)"
| check: "lf_fwd s = Checking l \<Longrightarrow>
    log_move wanted s (s\<lparr>lf_fwd := (if lf_cancelled s then ClosingChan else Putting l)\<rparr>)"
| put: "lf_fwd s = Putting l \<Longrightarrow> lf_chan s = [] \<Longrightarrow>
    log_move wanted s (s\<lparr>lf_chan := [l], lf_fwd := Scanning\<rparr>)"
| close_chan: "lf_fwd s = ClosingChan \<Longrightarrow>
    log_move wanted s (s\<lparr>lf_closed := True, lf_fwd := ClosingReader\<rparr>)"
| close_reader: "lf_fwd s = ClosingReader \<Longrightarrow>
    log_move wanted s (s\<lparr>lf_reader_open := False, lf_fwd := Returned\<rparr>)"
| receive: "lf_test s = Ranging \<Longrightarrow> lf_chan s = l # ls \<Longrightarrow>
    log_move wanted s (s\<lparr>lf_chan := ls, lf_got := lf_got s @ [l], lf_test := Matching l\<rparr>)"
| range_over: "lf_test s = Ranging \<Longrightarrow> lf_chan s = [] \<Longrightarrow> lf_closed s \<Longrightarrow>
    log_move wanted s (s\<lparr>lf_test := RangeOver\<rparr>)"
| match_line: "lf_test s = Matching l \<Longrightarrow>
    log_move wanted s
      (if Contains l wanted then s\<lparr>lf_cancelled := True, lf_test := Found\<rparr> else s\<lparr>lf_test := Ranging\<rparr>)"
| deadline: "\<not> lf_cancelled s \<Longrightarrow> log_move wanted s (s\<lparr>lf_cancelled := True\<rparr>)"

inductive_cases log_moveE: "log_move wanted s s'"

section \<open>What the test sees\<close>

text \<open>What of the log has not been received: until the goroutine stops scanning, exactly what it holds.\<close>

fun unsent :: "forwarder \<Rightarrow> string list" where
  "unsent (Checking l) = [l]"
| "unsent (Putting l) = [l]"
| "unsent f = []"

fun forwarding :: "forwarder \<Rightarrow> bool" where
  "forwarding Scanning = True"
| "forwarding (Checking l) = True"
| "forwarding (Putting l) = True"
| "forwarding f = False"

fun seen_ok :: "string \<Rightarrow> string list \<Rightarrow> test_loop \<Rightarrow> bool" where
  "seen_ok wanted got (Matching l) = (\<exists>ys. got = ys @ [l] \<and> \<not> list_ex (\<lambda>x. Contains x wanted) ys)"
| "seen_ok wanted got Found =
     (\<exists>ys l. got = ys @ [l] \<and> \<not> list_ex (\<lambda>x. Contains x wanted) ys \<and> Contains l wanted)"
| "seen_ok wanted got t = (\<not> list_ex (\<lambda>x. Contains x wanted) got)"

definition log_safe :: "string \<Rightarrow> string list \<Rightarrow> LogFlow \<Rightarrow> bool" where
  "log_safe wanted log s \<longleftrightarrow>
     length (lf_chan s) \<le> 1 \<and>
     (forwarding (lf_fwd s) \<longrightarrow> log = lf_got s @ lf_chan s @ unsent (lf_fwd s) @ lf_input s) \<and>
     (\<exists>rest. log = lf_got s @ lf_chan s @ rest \<and> (lf_cancelled s \<or> lf_scan_err s \<or> forwarding (lf_fwd s) \<or> rest = [])) \<and>
     lf_closed s = (lf_fwd s = ClosingReader \<or> lf_fwd s = Returned) \<and>
     lf_reader_open s = (lf_fwd s \<noteq> Returned) \<and>
     (lf_test s = RangeOver \<longrightarrow> lf_closed s \<and> lf_chan s = []) \<and>
     seen_ok wanted (lf_got s) (lf_test s)"

lemma log_safe_start: "log_safe wanted (scan_lines s) (log_start s)"
  by (simp add: log_safe_def log_start_def)

lemma log_safe_step: "log_move wanted s s' \<Longrightarrow> log_safe wanted log s \<Longrightarrow> log_safe wanted log s'"
  by (erule log_moveE) (auto simp: log_safe_def)

lemma log_safe_reach:
  "rtranclp (log_move wanted) s s' \<Longrightarrow> log_safe wanted log s \<Longrightarrow> log_safe wanted log s'"
  by (induction rule: rtranclp_induct) (auto intro: log_safe_step)

lemmas log_safe_reached = log_safe_reach [OF _ log_safe_start]

text \<open>
  The test gets the lines of the log in their order, without a gap. It leaves its loop at the first
  of them that contains what it waits for; a loop that ends without one has seen the whole log,
  unless the context was cancelled or the scanner failed. The latter looks like the end of the log.
\<close>

theorem log_test_verdict:
  assumes "rtranclp (log_move wanted) (log_start text) s"
  shows "\<exists>rest. scan_lines text = lf_got s @ rest"
    and "lf_test s = Found \<Longrightarrow> \<exists>ys l. lf_got s = ys @ [l] \<and> Contains l wanted \<and> (\<forall>x \<in> set ys. \<not> Contains x wanted)"
    and "lf_test s = RangeOver \<Longrightarrow> (\<forall>x \<in> set (lf_got s). \<not> Contains x wanted) \<and>
      (lf_cancelled s \<or> lf_scan_err s \<or> lf_got s = scan_lines text)"
proof -
  have safe: "log_safe wanted (scan_lines text) s" using log_safe_reached [OF assms] .
  then show "\<exists>rest. scan_lines text = lf_got s @ rest" unfolding log_safe_def by blast
  show "\<exists>ys l. lf_got s = ys @ [l] \<and> Contains l wanted \<and> (\<forall>x \<in> set ys. \<not> Contains x wanted)" if "lf_test s = Found"
    using safe that by (auto simp: log_safe_def list_ex_iff)
  show "(\<forall>x \<in> set (lf_got s). \<not> Contains x wanted) \<and> (lf_cancelled s \<or> lf_scan_err s \<or> lf_got s = scan_lines text)"
    if "lf_test s = RangeOver"
    using safe that by (auto simp: log_safe_def list_ex_iff)
qed

section \<open>The end\<close>

fun fwd_work :: "forwarder \<Rightarrow> nat" where
  "fwd_work (Checking l) = 7"
| "fwd_work (Putting l) = 6"
| "fwd_work Scanning = 3"
| "fwd_work ClosingChan = 2"
| "fwd_work ClosingReader = 1"
| "fwd_work Returned = 0"

fun test_work :: "test_loop \<Rightarrow> nat" where
  "test_work (Matching l) = 2"
| "test_work Ranging = 1"
| "test_work t = 0"

definition log_work :: "LogFlow \<Rightarrow> nat" where
  "log_work s = 5 * length (lf_input s) + fwd_work (lf_fwd s) + 2 * length (lf_chan s) +
     test_work (lf_test s) + (if lf_cancelled s then 0 else 1)"

lemma log_work_step: "log_move wanted s s' \<Longrightarrow> log_work s' < log_work s"
  by (erule log_moveE) (auto simp: log_work_def split: if_splits)

lemma log_work_run: "(log_move wanted ^^ n) s s' \<Longrightarrow> n + log_work s' \<le> log_work s"
proof (induction n arbitrary: s')
  case (Suc n)
  then obtain b where "(log_move wanted ^^ n) s b" and "log_move wanted b s'" by auto
  with Suc.IH [of b] log_work_step [of wanted b s'] show ?case by simp
qed simp

text \<open>A run takes five steps per line and five more at most.\<close>

theorem log_flow_bounded:
  assumes "(log_move wanted ^^ n) (log_start text) s"
  shows "n \<le> 5 * length (scan_lines text) + 5"
  using log_work_run [OF assms] by (simp add: log_work_def log_start_def)

text \<open>
  What it ends in: everything closed and both loops over, or the goroutine in its send statement
  for ever, with the stream of the pod open, because the test left before the cancelled context was
  looked at.
\<close>

definition log_done :: "LogFlow \<Rightarrow> bool" where
  "log_done s \<longleftrightarrow> lf_fwd s = Returned \<and> lf_closed s \<and> \<not> lf_reader_open s \<and> (lf_test s = Found \<or> lf_test s = RangeOver)"

definition log_leaked :: "LogFlow \<Rightarrow> bool" where
  "log_leaked s \<longleftrightarrow> (\<exists>l x. lf_fwd s = Putting l \<and> lf_chan s = [x]) \<and> lf_reader_open s \<and> \<not> lf_closed s \<and> lf_test s = Found"

theorem log_flow_outcome:
  assumes "rtranclp (log_move wanted) (log_start text) s" and "\<And>s'. \<not> log_move wanted s s'"
  shows "log_done s \<or> log_leaked s"
proof -
  have safe: "log_safe wanted (scan_lines text) s" using log_safe_reached [OF assms(1)] .
  have test: "lf_test s = Found \<or> lf_test s = RangeOver \<or> lf_test s = Ranging \<and> lf_chan s = [] \<and> \<not> lf_closed s"
  proof (cases "lf_test s")
    case Ranging
    then show ?thesis using assms(2) receive [of s] range_over [of s] by (cases "lf_chan s") auto
  qed (use assms(2) match_line [of s] in auto)
  have "lf_fwd s = Returned \<or> (\<exists>l x. lf_fwd s = Putting l \<and> lf_chan s = [x])"
  proof (cases "lf_fwd s")
    case (Putting l)
    then have "lf_chan s \<noteq> []" using assms(2) put by blast
    with safe Putting show ?thesis by (cases "lf_chan s") (auto simp: log_safe_def)
  qed (use assms(2) scan_fails check close_chan close_reader in blast)+
  with safe test show ?thesis by (auto simp: log_safe_def log_done_def log_leaked_def)
qed

text \<open>The leak can happen as soon as the log goes on with two more lines after the first that matches.\<close>

lemma successively_run: "successively r (s # ss) \<Longrightarrow> rtranclp r s (last (s # ss))"
  by (induction ss arbitrary: s) (auto intro: converse_rtranclp_into_rtranclp)

theorem log_flow_can_leak:
  assumes "scan_lines text = l0 # l1 # l2 # ls" and "Contains l0 wanted"
  shows "\<exists>s. rtranclp (log_move wanted) (log_start text) s \<and> log_leaked s \<and> (\<forall>s'. \<not> log_move wanted s s')"
proof -
  let ?s = "\<lambda>ls f c k t g. \<lparr>lf_input = ls, lf_scan_err = False, lf_fwd = f, lf_chan = c, lf_closed = False,
    lf_reader_open = True, lf_cancelled = k, lf_test = t, lf_got = g\<rparr>"
  let ?run = "[?s (l1 # l2 # ls) (Checking l0) [] False Ranging [], ?s (l1 # l2 # ls) (Putting l0) [] False Ranging [],
    ?s (l1 # l2 # ls) Scanning [l0] False Ranging [], ?s (l1 # l2 # ls) Scanning [] False (Matching l0) [l0],
    ?s (l2 # ls) (Checking l1) [] False (Matching l0) [l0], ?s (l2 # ls) (Putting l1) [] False (Matching l0) [l0],
    ?s (l2 # ls) Scanning [l1] False (Matching l0) [l0], ?s ls (Checking l2) [l1] False (Matching l0) [l0],
    ?s ls (Putting l2) [l1] False (Matching l0) [l0], ?s ls (Putting l2) [l1] True Found [l0]]"
  have "successively (log_move wanted) (log_start text # ?run)"
    using assms by (simp add: log_start_def log_move.simps)
  from successively_run [OF this]
  have "rtranclp (log_move wanted) (log_start text) (?s ls (Putting l2) [l1] True Found [l0])" by simp
  moreover have "\<not> log_move wanted (?s ls (Putting l2) [l1] True Found [l0]) s'" for s'
    by (auto elim: log_moveE)
  ultimately show ?thesis by (intro exI conjI) (auto simp: log_leaked_def)
qed

end
